(* ===== verification/F2E_Prelude.thy ===== *)
theory F2E_Prelude
  imports Main "HOL-Library.Word" "HOL-Library.Sublist" "HOL-Library.Char_ord" "HOL-Library.List_Lexorder"
begin

section \<open>Prelude: the Go values, and the lemmas the components share\<close>

text \<open>
  The types and functions every component of F2E uses: byte strings, 64-bit integers with
  the wrap-around of Go, decimal formatting, and the collections of rules that carry the
  component proofs.

  A Go \<^verbatim>\<open>string\<close> and a \<^verbatim>\<open>[]byte\<close> are both finite sequences of bytes; both are
  \<^typ>\<open>string\<close> here (a \<^typ>\<open>char\<close> is one byte). \<^verbatim>\<open>int\<close> and \<^verbatim>\<open>int64\<close> are both 64 bits wide
  on the Lambda platforms the program is built for; they are \<^typ>\<open>int\<close>, and every
  operation of the code whose result can leave the 64-bit range is written with
  \<open>wrap64\<close>. Counters that are bounded by the number of bytes in memory are plain.
\<close>

named_theorems go_defs \<open>definitions of the modelled operations, unfolded by the component proofs\<close>
named_theorems go_arith \<open>wrap-around and division facts of 64-bit integers\<close>
named_theorems line_rules \<open>facts about physical lines shared by the readers\<close>

type_synonym bytes = string
type_synonym int64 = int

subsection \<open>64-bit integers\<close>

definition min_int64 :: int where "min_int64 = - 9223372036854775808"
definition max_int64 :: int where "max_int64 = 9223372036854775807"

definition in_int64 :: "int \<Rightarrow> bool" where
  "in_int64 x \<longleftrightarrow> min_int64 \<le> x \<and> x \<le> max_int64"

text \<open>The value a 64-bit two's complement register holds after computing \<open>x\<close>.\<close>

definition wrap64 :: "int \<Rightarrow> int" where
  "wrap64 x = (x + 9223372036854775808) mod 18446744073709551616 - 9223372036854775808"

lemma wrap64_in [go_arith, simp]: "in_int64 (wrap64 x)"
  by (simp add: in_int64_def wrap64_def min_int64_def max_int64_def)

lemma wrap64_id [go_arith]: "in_int64 x \<Longrightarrow> wrap64 x = x"
  by (simp add: in_int64_def wrap64_def min_int64_def max_int64_def)

lemma wrap64_nonneg: "0 \<le> x \<Longrightarrow> x \<le> max_int64 \<Longrightarrow> wrap64 x = x"
  by (rule wrap64_id) (simp add: in_int64_def min_int64_def)

lemma wrap64_eq_minus: "\<exists>k. wrap64 x = x - k * 18446744073709551616"
proof -
  have "(x + 9223372036854775808) mod 18446744073709551616
        = (x + 9223372036854775808)
          - (x + 9223372036854775808) div 18446744073709551616 * 18446744073709551616"
    by (simp add: minus_div_mult_eq_mod [symmetric])
  then show ?thesis
    unfolding wrap64_def
    by (intro exI [of _ "(x + 9223372036854775808) div 18446744073709551616"]) linarith
qed

lemma wrap64_le_nonneg: "0 \<le> x \<Longrightarrow> wrap64 x \<le> x"
  unfolding wrap64_def by (smt (verit, best) zmod_le_nonneg_dividend)

text \<open>Go division truncates towards zero (the divisor is never zero where it is used).\<close>

definition go_div :: "int \<Rightarrow> int \<Rightarrow> int" where
  "go_div a b = wrap64 (sgn a * sgn b * (\<bar>a\<bar> div \<bar>b\<bar>))"

lemma go_div_nonneg [go_arith]:
  assumes "0 \<le> a" "a \<le> max_int64" "0 < b"
  shows "go_div a b = a div b"
proof -
  have "a div b \<le> a" using assms using zdiv_mono2 [of a 1 b] by simp
  moreover have "0 \<le> a div b" using assms by (simp add: pos_imp_zdiv_nonneg_iff)
  ultimately have "wrap64 (a div b) = a div b"
    using assms by (intro wrap64_nonneg) auto
  then show ?thesis
    using assms by (cases "a = 0") (auto simp: go_div_def sgn_if)
qed

subsection \<open>Decimal formatting\<close>

definition digit_char :: "nat \<Rightarrow> char" where
  "digit_char d = char_of (48 + d)"

fun dec_nat :: "nat \<Rightarrow> string" where
  "dec_nat n = (if n < 10 then [digit_char n] else dec_nat (n div 10) @ [digit_char (n mod 10)])"

declare dec_nat.simps [simp del]

text \<open>\<^verbatim>\<open>strconv.FormatInt(n, 10)\<close>, \<^verbatim>\<open>strconv.Itoa\<close> and the verb \<^verbatim>\<open>%d\<close>.\<close>

definition format_int :: "int \<Rightarrow> string" where
  "format_int n = (if n < 0 then CHR ''-'' # dec_nat (nat (- n)) else dec_nat (nat n))"

text \<open>The verb \<^verbatim>\<open>%0wd\<close> on a non-negative number.\<close>

definition format_pad :: "nat \<Rightarrow> int \<Rightarrow> string" where
  "format_pad w n = (let s = format_int n in replicate (w - length s) (CHR ''0'') @ s)"

lemma digit_char_0 [simp]: "digit_char 0 = CHR ''0''"
  by code_simp

definition digits_value :: "string \<Rightarrow> nat" where
  "digits_value s = foldl (\<lambda>a c. 10 * a + (of_char c - 48)) 0 s"

lemma of_digit_char [simp]: "d < 10 \<Longrightarrow> (of_char (digit_char d) :: nat) = 48 + d"
  by (simp add: digit_char_def)

lemma digits_value_snoc: "digits_value (s @ [c]) = 10 * digits_value s + (of_char c - 48)"
  by (simp add: digits_value_def)

lemma digits_value_dec_nat: "digits_value (dec_nat n) = n"
proof (induction n rule: dec_nat.induct)
  case (1 n)
  show ?case
  proof (cases "n < 10")
    case True
    then show ?thesis by (simp add: dec_nat.simps [of n] digits_value_def)
  next
    case False
    with "1.IH" have "digits_value (dec_nat (n div 10)) = n div 10" by simp
    with False show ?thesis
      by (simp add: dec_nat.simps [of n] digits_value_snoc)
  qed
qed

lemma dec_nat_inject: "dec_nat m = dec_nat n \<longleftrightarrow> m = n"
  by (metis digits_value_dec_nat)

lemma dec_nat_nonempty [simp]: "dec_nat n \<noteq> []"
  by (subst dec_nat.simps) simp

lemma dec_nat_digits: "c \<in> set (dec_nat n) \<Longrightarrow> 48 \<le> (of_char c :: nat) \<and> (of_char c :: nat) \<le> 57"
proof (induction n rule: dec_nat.induct)
  case (1 n)
  show ?case
  proof (cases "n < 10")
    case True
    with "1.prems" show ?thesis by (simp add: dec_nat.simps [of n])
  next
    case False
    have "n mod 10 < 10" by simp
    with False "1.prems" "1.IH" show ?thesis
      by (auto simp: dec_nat.simps [of n])
  qed
qed

lemma format_int_inject_nonneg: "0 \<le> a \<Longrightarrow> 0 \<le> b \<Longrightarrow> format_int a = format_int b \<longleftrightarrow> a = b"
  by (auto simp: format_int_def dec_nat_inject)

lemma digits_value_zeros: "digits_value (replicate k (CHR ''0'') @ s) = digits_value s"
  by (induction k) (simp_all add: digits_value_def)

lemma format_pad_inject: "0 \<le> a \<Longrightarrow> 0 \<le> b \<Longrightarrow> format_pad w a = format_pad w b \<longleftrightarrow> a = b"
  by (metis digits_value_dec_nat digits_value_zeros format_int_def format_pad_def linorder_not_less nat_eq_iff2)

subsection \<open>Strings\<close>

text \<open>\<^verbatim>\<open>strings.HasPrefix(s, p)\<close>.\<close>

definition has_prefix :: "string \<Rightarrow> string \<Rightarrow> bool" where
  "has_prefix s p \<longleftrightarrow> take (length p) s = p"

lemma has_prefix_iff: "has_prefix s p \<longleftrightarrow> prefix p s"
  by (auto simp: has_prefix_def prefix_def) (metis append_take_drop_id)

text \<open>\<^verbatim>\<open>strings.Join\<close>.\<close>

fun join_with :: "string \<Rightarrow> string list \<Rightarrow> string" where
  "join_with sep [] = []"
| "join_with sep [x] = x"
| "join_with sep (x # y # xs) = x @ sep @ join_with sep (y # xs)"

lemma length_join_with:
  "xs \<noteq> [] \<Longrightarrow> length (join_with sep xs) = sum_list (map length xs) + (length xs - 1) * length sep"
  by (induction sep xs rule: join_with.induct) auto

lemma join_with_snoc:
  "xs \<noteq> [] \<Longrightarrow> join_with sep (xs @ [x]) = join_with sep xs @ sep @ x"
  by (induction sep xs rule: join_with.induct) auto

abbreviation CR :: char where "CR \<equiv> CHR 0x0D"
abbreviation LF :: char where "LF \<equiv> CHR 0x0A"

subsection \<open>Lists\<close>

lemma sum_list_map_nonneg: "(\<And>x. x \<in> set xs \<Longrightarrow> 0 \<le> f x) \<Longrightarrow> (0::int) \<le> sum_list (map f xs)"
  by (induction xs) auto

lemma takeWhile_append_all:
  "\<forall>x\<in>set xs. P x \<Longrightarrow> takeWhile P (xs @ ys) = xs @ takeWhile P ys"
  by (induction xs) auto

lemma takeWhile_dropWhile_Nil: "dropWhile P xs = [] \<Longrightarrow> takeWhile P xs = xs"
  by (metis append_Nil2 takeWhile_dropWhile_id)

lemma last_in_drop: "n < length xs \<Longrightarrow> last (drop n xs) = last xs"
  by (rule last_drop)

end
