(* ===== verification/Go_Std.thy ===== *)
theory Go_Std
  imports F2E_Prelude
begin

section \<open>The parts of the Go standard library the program computes with\<close>

text \<open>
  Executable definitions of the standard-library functions whose results the program
  stores, compares or measures: \<^verbatim>\<open>crypto/sha256\<close> and \<^verbatim>\<open>encoding/hex\<close> (every identity of
  F2E is a hex SHA-256), \<^verbatim>\<open>unicode/utf8.Valid\<close> (the line reader) and the string encoder of
  \<^verbatim>\<open>encoding/json\<close> (the bundle packer writes JSON strings itself and counts their bytes).
\<close>

unbundle bit_operations_syntax

subsection \<open>SHA-256\<close>

type_synonym w32 = "32 word"

text \<open>The round constants and the initial state, in decimal.\<close>

definition sha_k :: "w32 list" where
  "sha_k =
   [1116352408, 1899447441, 3049323471, 3921009573, 961987163, 1508970993, 2453635748, 2870763221,
    3624381080, 310598401, 607225278, 1426881987, 1925078388, 2162078206, 2614888103, 3248222580,
    3835390401, 4022224774, 264347078, 604807628, 770255983, 1249150122, 1555081692, 1996064986,
    2554220882, 2821834349, 2952996808, 3210313671, 3336571891, 3584528711, 113926993, 338241895,
    666307205, 773529912, 1294757372, 1396182291, 1695183700, 1986661051, 2177026350, 2456956037,
    2730485921, 2820302411, 3259730800, 3345764771, 3516065817, 3600352804, 4094571909, 275423344,
    430227734, 506948616, 659060556, 883997877, 958139571, 1322822218, 1537002063, 1747873779,
    1955562222, 2024104815, 2227730452, 2361852424, 2428436474, 2756734187, 3204031479, 3329325298]"

record sha_state =
  sa :: w32
  sb :: w32
  sc :: w32
  sd :: w32
  se :: w32
  sf :: w32
  sg :: w32
  sh :: w32

definition sha_init :: sha_state where
  "sha_init = \<lparr>sa = 1779033703, sb = 3144134277, sc = 1013904242, sd = 2773480762,
                se = 1359893119, sf = 2600822924, sg = 528734635, sh = 1541459225\<rparr>"

definition sha_pad :: "bytes \<Rightarrow> bytes" where
  "sha_pad m =
    (let n = length m;
         zeros = (119 - n mod 64) mod 64;
         bits = 8 * int n
     in m @ [char_of (128::nat)] @ replicate zeros (char_of (0::nat))
          @ map (\<lambda>i. char_of (bits div 256 ^ (7 - i) mod 256)) [0..<8])"

fun sha_words :: "bytes \<Rightarrow> w32 list" where
  "sha_words (a # b # c # d # r) =
     (of_char a * 16777216 + of_char b * 65536 + of_char c * 256 + of_char d) # sha_words r"
| "sha_words _ = []"

definition sig0 :: "w32 \<Rightarrow> w32" where
  "sig0 x = (word_rotr 7 x XOR word_rotr 18 x) XOR drop_bit 3 x"
definition sig1 :: "w32 \<Rightarrow> w32" where
  "sig1 x = (word_rotr 17 x XOR word_rotr 19 x) XOR drop_bit 10 x"
definition Sig0 :: "w32 \<Rightarrow> w32" where
  "Sig0 x = (word_rotr 2 x XOR word_rotr 13 x) XOR word_rotr 22 x"
definition Sig1 :: "w32 \<Rightarrow> w32" where
  "Sig1 x = (word_rotr 6 x XOR word_rotr 11 x) XOR word_rotr 25 x"

text \<open>The message schedule, kept reversed: its head is the word computed last.\<close>

fun sha_extend :: "nat \<Rightarrow> w32 list \<Rightarrow> w32 list" where
  "sha_extend 0 ws = ws"
| "sha_extend (Suc n) ws =
     sha_extend n ((sig1 (ws ! 1) + ws ! 6 + sig0 (ws ! 14) + ws ! 15) # ws)"

definition sha_round :: "sha_state \<Rightarrow> w32 \<times> w32 \<Rightarrow> sha_state" where
  "sha_round s kw =
    (let e = se s; a = sa s;
         ch = (e AND sf s) XOR (NOT e AND sg s);
         t1 = sh s + Sig1 e + ch + fst kw + snd kw;
         maj = (a AND sb s) XOR (a AND sc s) XOR (sb s AND sc s);
         t2 = Sig0 a + maj
     in \<lparr>sa = t1 + t2, sb = a, sc = sb s, sd = sc s, se = sd s + t1, sf = e, sg = sf s, sh = sg s\<rparr>)"

definition sha_block :: "sha_state \<Rightarrow> w32 list \<Rightarrow> sha_state" where
  "sha_block s ws =
    (let w = rev (sha_extend 48 (rev ws));
         r = foldl sha_round s (zip sha_k w)
     in \<lparr>sa = sa s + sa r, sb = sb s + sb r, sc = sc s + sc r, sd = sd s + sd r,
         se = se s + se r, sf = sf s + sf r, sg = sg s + sg r, sh = sh s + sh r\<rparr>)"

fun sha_blocks :: "nat \<Rightarrow> sha_state \<Rightarrow> w32 list \<Rightarrow> sha_state" where
  "sha_blocks 0 s ws = s"
| "sha_blocks (Suc n) s ws = sha_blocks n (sha_block s (take 16 ws)) (drop 16 ws)"

definition w32_bytes :: "w32 \<Rightarrow> bytes" where
  "w32_bytes w = map (\<lambda>i. char_of (uint w div 256 ^ (3 - i) mod 256)) [0..<4]"

text \<open>\<^verbatim>\<open>sha256.Sum256\<close>: the 32 bytes of the digest.\<close>

definition sha256 :: "bytes \<Rightarrow> bytes" where
  "sha256 m =
    (let p = sha_pad m;
         s = sha_blocks (length p div 64) sha_init (sha_words p)
     in concat (map w32_bytes [sa s, sb s, sc s, sd s, se s, sf s, sg s, sh s]))"

lemma length_sha256 [simp]: "length (sha256 m) = 32"
  by (simp add: sha256_def Let_def w32_bytes_def)

subsection \<open>Hexadecimal\<close>

definition hex_digit :: "nat \<Rightarrow> char" where
  "hex_digit d = (if d < 10 then char_of (48 + d) else char_of (87 + d))"

text \<open>\<^verbatim>\<open>hex.EncodeToString\<close> and the verb \<^verbatim>\<open>%x\<close> on a byte slice.\<close>

definition hex_encode :: "bytes \<Rightarrow> string" where
  "hex_encode bs = concat (map (\<lambda>c. [hex_digit (of_char c div 16), hex_digit (of_char c mod 16)]) bs)"

lemma length_hex_encode [simp]: "length (hex_encode bs) = 2 * length bs"
  by (induction bs) (simp_all add: hex_encode_def)

definition is_hex_char :: "char \<Rightarrow> bool" where
  "is_hex_char c \<longleftrightarrow> (48 \<le> (of_char c :: nat) \<and> (of_char c :: nat) \<le> 57) \<or>
                    (97 \<le> (of_char c :: nat) \<and> (of_char c :: nat) \<le> 102)"

lemma is_hex_digit: "d < 16 \<Longrightarrow> is_hex_char (hex_digit d)"
  by (auto simp: is_hex_char_def hex_digit_def)

lemma of_char_less_256: "(of_char c :: nat) < 256"
  by (metis nat_of_char_less_256)

lemma is_hex_hex_encode: "c \<in> set (hex_encode bs) \<Longrightarrow> is_hex_char c"
proof (induction bs)
  case Nil
  then show ?case by (simp add: hex_encode_def)
next
  case (Cons b bs)
  have "(of_char b :: nat) div 16 < 16" using of_char_less_256 [of b] by (simp add: less_mult_imp_div_less)
  moreover have "(of_char b :: nat) mod 16 < 16" by simp
  ultimately show ?case
    using Cons by (auto simp: hex_encode_def is_hex_digit)
qed

text \<open>The lower-case hex SHA-256 that every identity of the program is.\<close>

definition sha256_hex :: "string \<Rightarrow> string" where
  "sha256_hex s = hex_encode (sha256 s)"

lemma length_sha256_hex [simp]: "length (sha256_hex s) = 64"
  by (simp add: sha256_hex_def)

lemma sha256_hex_chars: "c \<in> set (sha256_hex s) \<Longrightarrow> is_hex_char c"
  by (simp add: sha256_hex_def is_hex_hex_encode)

subsection \<open>UTF-8\<close>

definition cont_byte :: "char \<Rightarrow> bool" where
  "cont_byte c \<longleftrightarrow> 128 \<le> (of_char c :: nat) \<and> (of_char c :: nat) \<le> 191"

definition byte_in :: "nat \<Rightarrow> nat \<Rightarrow> char \<Rightarrow> bool" where
  "byte_in lo hi c \<longleftrightarrow> lo \<le> of_char c \<and> of_char c \<le> hi"

text \<open>
  The length of the encoded rune at the head of a byte string, 0 if there is none or if the
  bytes are not a valid encoding: the table \<^verbatim>\<open>first\<close> and the accept ranges of
  \<^verbatim>\<open>unicode/utf8\<close>.
\<close>

definition rune_need :: "nat \<Rightarrow> nat" where
  "rune_need x =
    (if x < 128 then 1
     else if 194 \<le> x \<and> x \<le> 223 then 2
     else if 224 \<le> x \<and> x \<le> 239 then 3
     else if 240 \<le> x \<and> x \<le> 244 then 4
     else 0)"

definition second_ok :: "nat \<Rightarrow> char \<Rightarrow> bool" where
  "second_ok x = byte_in (if x = 224 then 160 else if x = 240 then 144 else 128)
                         (if x = 237 then 159 else if x = 244 then 143 else 191)"

definition rune_len :: "bytes \<Rightarrow> nat" where
  "rune_len s =
    (if s = [] then 0
     else let x = of_char (hd s); n = rune_need x in
       if n = 0 \<or> length s < n then 0
       else if n = 1 then 1
       else if second_ok x (s ! 1) \<and> list_all cont_byte (take (n - 2) (drop 2 s)) then n
       else 0)"

lemma rune_need_le: "rune_need x \<le> 4"
  by (simp add: rune_need_def)

lemma rune_len_le: "rune_len s \<le> length s"
  by (auto simp: rune_len_def Let_def Suc_le_eq)

text \<open>\<^verbatim>\<open>utf8.Valid\<close>.\<close>

function utf8_valid :: "bytes \<Rightarrow> bool" where
  "utf8_valid s = (if s = [] then True
                   else if rune_len s = 0 then False
                   else utf8_valid (drop (rune_len s) s))"
  by pat_completeness auto
termination
  by (relation "measure length") (auto simp: Suc_le_eq)

declare utf8_valid.simps [simp del]

lemma utf8_valid_Nil [simp]: "utf8_valid []"
  by (simp add: utf8_valid.simps)

definition is_ascii :: "char \<Rightarrow> bool" where
  "is_ascii c \<longleftrightarrow> (of_char c :: nat) < 128"

lemma utf8_valid_ascii: "list_all is_ascii s \<Longrightarrow> utf8_valid s"
proof (induction s)
  case Nil
  then show ?case by simp
next
  case (Cons c s)
  then have "rune_len (c # s) = 1" by (simp add: rune_len_def rune_need_def is_ascii_def Suc_le_eq)
  with Cons show ?case by (simp add: utf8_valid.simps [of "c # s"])
qed

lemma rune_len_append: "0 < rune_len s \<Longrightarrow> rune_len (s @ t) = rune_len s"
proof -
  assume r: "0 < rune_len s"
  let ?n = "rune_need (of_char (hd s))"
  from r have s: "s \<noteq> []" and n: "?n \<noteq> 0" "?n \<le> length s"
    by (auto simp: rune_len_def Let_def split: if_splits)
  have "?n = 1 \<or> ((s @ t) ! 1 = s ! 1 \<and> take (?n - 2) (drop 2 (s @ t)) = take (?n - 2) (drop 2 s))"
    using n by (cases "?n = 1") (auto simp: nth_append)
  then show ?thesis
    using s n by (auto simp: rune_len_def Let_def)
qed

lemma utf8_valid_append: "utf8_valid s \<Longrightarrow> utf8_valid t \<Longrightarrow> utf8_valid (s @ t)"
proof (induction s rule: utf8_valid.induct)
  case (1 s)
  show ?case
  proof (cases "s = []")
    case True
    with 1 show ?thesis by simp
  next
    case False
    with "1.prems" have r: "rune_len s \<noteq> 0" and v: "utf8_valid (drop (rune_len s) s)"
      by (auto simp: utf8_valid.simps [of s] split: if_splits)
    have "utf8_valid (drop (rune_len s) s @ t)"
      using False r v "1.prems"(2) "1.IH" by blast
    moreover have "drop (rune_len s) (s @ t) = drop (rune_len s) s @ t"
      using rune_len_le [of s] by simp
    ultimately show ?thesis
      using False r rune_len_append [of s t] by (simp add: utf8_valid.simps [of "s @ t"])
  qed
qed

text \<open>A continuation byte never starts a valid string: a cut inside a rune is detected.\<close>

lemma utf8_invalid_continuation: "cont_byte c \<Longrightarrow> \<not> utf8_valid (c # s)"
  by (simp add: utf8_valid.simps [of "c # s"] rune_len_def rune_need_def cont_byte_def Let_def)

subsection \<open>JSON strings\<close>

text \<open>
  \<^verbatim>\<open>json.Marshal\<close> of a string (HTML escaping on, as the package default): short escapes for
  the quote, the backslash and five control bytes, \<^verbatim>\<open>\u00xx\<close> for the other control bytes and
  for \<^verbatim>\<open><\<close>, \<^verbatim>\<open>>\<close> and \<^verbatim>\<open>&\<close>, \<^verbatim>\<open>\ufffd\<close> for a byte that is not valid UTF-8 and
  \<^verbatim>\<open>\u2028\<close>, \<^verbatim>\<open>\u2029\<close> for the two line separators.
\<close>

definition json_escape_byte :: "char \<Rightarrow> string" where
  "json_escape_byte c =
    (if c = CHR 0x22 then [CHR 0x5C, CHR 0x22]
     else if c = CHR 0x5C then [CHR 0x5C, CHR 0x5C]
     else if c = CHR 0x08 then [CHR 0x5C, CHR ''b'']
     else if c = CHR 0x0C then [CHR 0x5C, CHR ''f'']
     else if c = CHR 0x0A then [CHR 0x5C, CHR ''n'']
     else if c = CHR 0x0D then [CHR 0x5C, CHR ''r'']
     else if c = CHR 0x09 then [CHR 0x5C, CHR ''t'']
     else if (of_char c :: nat) < 32 \<or> c = CHR ''<'' \<or> c = CHR ''>'' \<or> c = CHR ''&''
     then [CHR 0x5C, CHR ''u'', CHR ''0'', CHR ''0'',
           hex_digit (of_char c div 16), hex_digit (of_char c mod 16)]
     else [c])"

function json_chars :: "bytes \<Rightarrow> string" where
  "json_chars s =
    (if s = [] then []
     else if (of_char (hd s) :: nat) < 128 then json_escape_byte (hd s) @ json_chars (tl s)
     else if rune_len s = 0 then CHR 0x5C # ''ufffd'' @ json_chars (tl s)
     else if take 3 s = [CHR 0xE2, CHR 0x80, CHR 0xA8] then CHR 0x5C # ''u2028'' @ json_chars (drop 3 s)
     else if take 3 s = [CHR 0xE2, CHR 0x80, CHR 0xA9] then CHR 0x5C # ''u2029'' @ json_chars (drop 3 s)
     else take (rune_len s) s @ json_chars (drop (rune_len s) s))"
  by pat_completeness auto
termination
  by (relation "measure length") (auto simp: length_greater_0_conv)

declare json_chars.simps [simp del]

definition json_string :: "bytes \<Rightarrow> string" where
  "json_string s = CHR 0x22 # json_chars s @ [CHR 0x22]"

lemma json_string_length_ge_2: "2 \<le> length (json_string s)"
  by (simp add: json_string_def)

text \<open>Bytes the encoder copies unchanged; a hex identity is made of these only.\<close>

definition json_plain :: "char \<Rightarrow> bool" where
  "json_plain c \<longleftrightarrow> 32 \<le> (of_char c :: nat) \<and> (of_char c :: nat) < 128 \<and>
     c \<notin> {CHR 0x22, CHR 0x5C, CHR ''<'', CHR ''>'', CHR ''&''}"

lemma json_escape_plain: "json_plain c \<Longrightarrow> json_escape_byte c = [c]"
proof -
  assume p: "json_plain c"
  then have low: "\<not> (of_char c :: nat) < 32" and rest: "c \<notin> {CHR 0x22, CHR 0x5C, CHR ''<'', CHR ''>'', CHR ''&''}"
    by (simp_all only: json_plain_def not_less simp_thms)
  from low have "c \<noteq> CHR 0x08" "c \<noteq> CHR 0x0C" "c \<noteq> CHR 0x0A" "c \<noteq> CHR 0x0D" "c \<noteq> CHR 0x09"
    by auto
  with low rest show ?thesis
    by (simp only: json_escape_byte_def insert_iff empty_iff de_Morgan_disj simp_thms if_False)
qed

lemma json_chars_plain: "list_all json_plain s \<Longrightarrow> json_chars s = s"
proof (induction s)
  case Nil
  then show ?case by (simp add: json_chars.simps)
next
  case (Cons c s)
  then have "(of_char c :: nat) < 128" by (simp add: json_plain_def)
  with Cons show ?case by (simp add: json_chars.simps [of "c # s"] json_escape_plain)
qed

lemma json_string_plain: "list_all json_plain s \<Longrightarrow> json_string s = CHR 0x22 # s @ [CHR 0x22]"
  by (simp add: json_string_def json_chars_plain)

lemma hex_char_plain: "is_hex_char c \<Longrightarrow> json_plain c"
  by (auto simp: is_hex_char_def json_plain_def)

lemma json_plain_sha256_hex: "list_all json_plain (sha256_hex s)"
  by (auto simp: list_all_iff intro: hex_char_plain sha256_hex_chars)

lemma length_json_string_hex [simp]: "length (json_string (sha256_hex s)) = 66"
  by (simp add: json_string_plain [OF json_plain_sha256_hex])

end
