(* ===== verification/Messages.thy ===== *)
theory Messages
  imports Go_Std
begin

section \<open>The messages of the pipeline and the ports' data\<close>

text \<open>
  The structs of \<^verbatim>\<open>internal/domain/f2e/messages.go\<close>, \<^verbatim>\<open>completion.go\<close> and \<^verbatim>\<open>ledger.go\<close>, the
  outbound message of \<^verbatim>\<open>internal/application/port/ports.go\<close> and the process configuration
  of \<^verbatim>\<open>internal/platform/config/config.go\<close>, field for field: a Go struct is a record whose
  fields carry the Go names behind a short prefix, because record fields are global names
  here. A Go map is an association list with distinct keys, a \<^verbatim>\<open>*int64\<close> an \<^typ>\<open>int option\<close>,
  an instant a number of nanoseconds.
\<close>

subsection \<open>Objects and layouts\<close>

definition SchemaVersion :: string where "SchemaVersion = ''1''"

record FileReference =
  fref_Bucket :: string
  fref_Key :: string
  fref_VersionID :: string

record ObjectIdentity =
  oi_Bucket :: string
  oi_Key :: string
  oi_VersionID :: string
  oi_ETag :: string
  oi_Size :: int64

type_synonym DataType = string

definition DataTypeText :: DataType where "DataTypeText = ''text''"
definition DataTypeMultiLine :: DataType where "DataTypeMultiLine = ''multi-line''"
definition DataTypeJSON :: DataType where "DataTypeJSON = ''json''"

lemma data_types_distinct [simp]:
  "DataTypeText \<noteq> DataTypeMultiLine" "DataTypeText \<noteq> DataTypeJSON"
  "DataTypeMultiLine \<noteq> DataTypeText" "DataTypeMultiLine \<noteq> DataTypeJSON"
  "DataTypeJSON \<noteq> DataTypeText" "DataTypeJSON \<noteq> DataTypeMultiLine"
  by (simp_all add: DataTypeText_def DataTypeMultiLine_def DataTypeJSON_def)

record LineMatchField =
  lm_StartByte :: int
  lm_LengthBytes :: int
  lm_Value :: string

record MultiLineLayout =
  ml_BreakFields :: "LineMatchField list"
  ml_IncludeFields :: "LineMatchField list"
  ml_IgnoreFields :: "LineMatchField list"
  ml_LineSeparator :: string
  ml_MaxBytesPerRecord :: int64

record JSONArrayLayout =
  ja_FirstFieldName :: string
  ja_MaxBytesPerElement :: int64

record CorporateContext =
  cc_TransactionID :: string
  cc_CorrelationID :: string
  cc_TraceID :: string
  cc_SourceSystem :: string

record FileRequest =
  fr_Bucket :: string
  fr_Key :: string
  fr_VersionID :: string
  fr_ETag :: string
  fr_PresignedURL :: string
  fr_DataType :: DataType
  fr_MaxRecordLengthBytes :: int64
  fr_MultiLineLayout :: MultiLineLayout
  fr_JSONArrayLayout :: JSONArrayLayout
  fr_Context :: CorporateContext

text \<open>\<^verbatim>\<open>FileID\<close>: the identity of one immutable physical object version.\<close>

definition FileID :: "ObjectIdentity \<Rightarrow> string" where
  "FileID object = sha256_hex (oi_Bucket object @ ''/'' @ oi_Key object @ ''/'' @
     oi_VersionID object @ ''/'' @ oi_ETag object @ ''/'' @ format_int (oi_Size object))"

subsection \<open>Configuration\<close>

type_synonym OutputMode = string

definition OutputModeSingle :: OutputMode where "OutputModeSingle = ''single''"
definition OutputModeBundle :: OutputMode where "OutputModeBundle = ''bundle''"

record PrefixConfiguration =
  pc_Bucket :: string
  pc_Prefix :: string
  pc_DataType :: DataType
  pc_RecordsPerChunk :: int
  pc_BatchSize :: int
  pc_MaxEventBytes :: int
  pc_MaxFileBytes :: int64
  pc_MaxChunkBytes :: int64
  pc_TargetChunkBytes :: int64
  pc_MaxRecordLengthBytes :: int64
  pc_MultiLineLayout :: MultiLineLayout
  pc_JSONArrayLayout :: JSONArrayLayout
  pc_EventSchemaID :: string
  pc_EventSchemaVersion :: string
  pc_EventFormat :: string
  pc_Responsible :: string
  pc_OutputMode :: OutputMode
  pc_MaxEnvelopesPerMessage :: int
  pc_MaxMessageBytes :: int
  pc_PrefixID :: string
  pc_OutputQueueURL :: string
  pc_ChunkQueueURL :: string
  pc_AllowedSourceARNs :: "string list"

record InputTypeLimits =
  il_MaxFileBytes :: int64
  il_MaxRecordBytes :: int64

record GlobalLimits =
  gl_MaxFileBytes :: int64
  gl_MaxChunkBytes :: int64
  gl_MaxEventBytes :: int
  gl_MaxBatchSize :: int
  gl_InputTypes :: "(DataType \<times> InputTypeLimits) list"

record ConfigurationSnapshot =
  cs_Configuration :: PrefixConfiguration
  cs_ConfigHash :: string
  cs_ParameterName :: string
  cs_ParameterVersion :: int64
  cs_Responsible :: string
  cs_LoadedAt :: string
  cs_GlobalLimitsParameter :: string
  cs_GlobalLimitsVersion :: int64
  cs_GlobalLimits :: GlobalLimits

record JobConfiguration =
  jc_BatchSize :: int
  jc_MaxEventBytes :: int
  jc_MaxChunkBytes :: int64
  jc_TargetChunkBytes :: int64
  jc_EventSchemaID :: string
  jc_EventSchemaVersion :: string
  jc_EventFormat :: string
  jc_OutputMode :: OutputMode
  jc_MaxEnvelopesPerMessage :: int
  jc_MaxMessageBytes :: int
  jc_OutputQueueURL :: string
  jc_PrefixID :: string
  jc_ChunkQueueURL :: string

record OrganizerRequest =
  or_SchemaVersion :: string
  or_ExecutionID :: string
  or_Files :: "FileRequest list"

record ChunkJob =
  cj_SchemaVersion :: string
  cj_JobID :: string
  cj_FileID :: string
  cj_ChunkID :: string
  cj_Bucket :: string
  cj_Key :: string
  cj_PresignedURL :: string
  cj_ETag :: string
  cj_StartRecord :: int64
  cj_StartByte :: int64
  cj_EndByteInclusive :: int64
  cj_MaxRecordLengthBytes :: int64
  cj_TrailingPaddingBytes :: int64
  cj_DataType :: DataType
  cj_MultiLineLayout :: MultiLineLayout
  cj_JSONArrayLayout :: JSONArrayLayout
  cj_Context :: CorporateContext
  cj_VersionID :: string
  cj_FileSize :: int64
  cj_Configuration :: JobConfiguration
  cj_ConfigSnapshot :: ConfigurationSnapshot
  cj_Control :: string

text \<open>The zero values Go gives to the fields a composite literal does not name.\<close>

definition zero_MultiLineLayout :: MultiLineLayout where
  "zero_MultiLineLayout = \<lparr>ml_BreakFields = [], ml_IncludeFields = [], ml_IgnoreFields = [],
     ml_LineSeparator = [], ml_MaxBytesPerRecord = 0\<rparr>"

definition zero_JSONArrayLayout :: JSONArrayLayout where
  "zero_JSONArrayLayout = \<lparr>ja_FirstFieldName = [], ja_MaxBytesPerElement = 0\<rparr>"

definition zero_CorporateContext :: CorporateContext where
  "zero_CorporateContext = \<lparr>cc_TransactionID = [], cc_CorrelationID = [], cc_TraceID = [], cc_SourceSystem = []\<rparr>"

definition zero_PrefixConfiguration :: PrefixConfiguration where
  "zero_PrefixConfiguration = \<lparr>pc_Bucket = [], pc_Prefix = [], pc_DataType = [], pc_RecordsPerChunk = 0,
     pc_BatchSize = 0, pc_MaxEventBytes = 0, pc_MaxFileBytes = 0, pc_MaxChunkBytes = 0,
     pc_TargetChunkBytes = 0, pc_MaxRecordLengthBytes = 0, pc_MultiLineLayout = zero_MultiLineLayout,
     pc_JSONArrayLayout = zero_JSONArrayLayout, pc_EventSchemaID = [], pc_EventSchemaVersion = [],
     pc_EventFormat = [], pc_Responsible = [], pc_OutputMode = [], pc_MaxEnvelopesPerMessage = 0,
     pc_MaxMessageBytes = 0, pc_PrefixID = [], pc_OutputQueueURL = [], pc_ChunkQueueURL = [],
     pc_AllowedSourceARNs = []\<rparr>"

definition zero_GlobalLimits :: GlobalLimits where
  "zero_GlobalLimits = \<lparr>gl_MaxFileBytes = 0, gl_MaxChunkBytes = 0, gl_MaxEventBytes = 0,
     gl_MaxBatchSize = 0, gl_InputTypes = []\<rparr>"

definition zero_ConfigurationSnapshot :: ConfigurationSnapshot where
  "zero_ConfigurationSnapshot = \<lparr>cs_Configuration = zero_PrefixConfiguration, cs_ConfigHash = [],
     cs_ParameterName = [], cs_ParameterVersion = 0, cs_Responsible = [], cs_LoadedAt = [],
     cs_GlobalLimitsParameter = [], cs_GlobalLimitsVersion = 0, cs_GlobalLimits = zero_GlobalLimits\<rparr>"

definition zero_JobConfiguration :: JobConfiguration where
  "zero_JobConfiguration = \<lparr>jc_BatchSize = 0, jc_MaxEventBytes = 0, jc_MaxChunkBytes = 0,
     jc_TargetChunkBytes = 0, jc_EventSchemaID = [], jc_EventSchemaVersion = [], jc_EventFormat = [],
     jc_OutputMode = [], jc_MaxEnvelopesPerMessage = 0, jc_MaxMessageBytes = 0, jc_OutputQueueURL = [],
     jc_PrefixID = [], jc_ChunkQueueURL = []\<rparr>"

definition zero_ChunkJob :: ChunkJob where
  "zero_ChunkJob = \<lparr>cj_SchemaVersion = [], cj_JobID = [], cj_FileID = [], cj_ChunkID = [],
     cj_Bucket = [], cj_Key = [], cj_PresignedURL = [], cj_ETag = [], cj_StartRecord = 0,
     cj_StartByte = 0, cj_EndByteInclusive = 0, cj_MaxRecordLengthBytes = 0,
     cj_TrailingPaddingBytes = 0, cj_DataType = [], cj_MultiLineLayout = zero_MultiLineLayout,
     cj_JSONArrayLayout = zero_JSONArrayLayout, cj_Context = zero_CorporateContext,
     cj_VersionID = [], cj_FileSize = 0, cj_Configuration = zero_JobConfiguration,
     cj_ConfigSnapshot = zero_ConfigurationSnapshot, cj_Control = []\<rparr>"

lemmas zero_records = zero_MultiLineLayout_def zero_JSONArrayLayout_def zero_CorporateContext_def
  zero_PrefixConfiguration_def zero_GlobalLimits_def zero_ConfigurationSnapshot_def
  zero_JobConfiguration_def zero_ChunkJob_def

subsection \<open>Envelopes\<close>

record RecordPayload =
  rp_Raw :: string

record Schema =
  sc_ID :: string
  sc_Version :: string

record Metadata =
  md_EventID :: string
  md_SourceRecordID :: string
  md_Schema :: Schema
  md_Format :: string
  md_CreatedAt :: string
  md_TransactionID :: string
  md_CorrelationID :: string
  md_TraceID :: string

record Source =
  so_Type :: string
  so_System :: string
  so_Bucket :: string
  so_Key :: string
  so_VersionID :: string
  so_ETag :: string
  so_FileName :: string
  so_FileFormat :: string
  so_FileSize :: int64

record Processing =
  pr_JobID :: string
  pr_ChunkID :: string
  pr_RecordNumber :: "int64 option"
  pr_ByteOffset :: "int64 option"
  pr_ByteLength :: "int64 option"

record Envelope =
  en_Metadata :: Metadata
  en_Source :: Source
  en_Processing :: Processing
  en_Data :: RecordPayload

definition BundleSchemaVersion :: string where "BundleSchemaVersion = ''f2e-bundle/1''"

record BundleEnvelope =
  be_SchemaVersion :: string
  be_BundleID :: string
  be_JobID :: string
  be_ChunkID :: string
  be_Items :: "Envelope list"

record ErrEnvelopeTooLarge =
  tl_EventID :: string
  tl_ActualBytes :: int
  tl_LimitBytes :: int

subsection \<open>Summaries\<close>

record FileSummary =
  fs_Bucket :: string
  fs_Key :: string
  fs_SizeBytes :: int64
  fs_ChunksGenerated :: int64
  fs_ProcessingTimeMillis :: int64

record OrganizerSummary =
  os_SchemaVersion :: string
  os_StartTimeMillis :: int64
  os_EndTimeMillis :: int64
  os_ProcessingTimeMillis :: int64
  os_FilesProcessed :: int
  os_TotalChunksGenerated :: int64
  os_Files :: "FileSummary list"

subsection \<open>Outbound messages and their size\<close>

record MessageAttribute =
  ma_DataType :: string
  ma_Value :: string

record OutboundMessage =
  om_Body :: string
  om_Attributes :: "(string \<times> MessageAttribute) list"
  om_LogicalEvents :: int

definition MaxSQSMessageBytes :: int where "MaxSQSMessageBytes = 1024 * 1024"
definition DefaultMaxEventBytes :: int where "DefaultMaxEventBytes = MaxSQSMessageBytes - 4 * 1024"
definition MaxPhysicalMessageBytes :: int where "MaxPhysicalMessageBytes = MaxSQSMessageBytes"
definition MaxMultiMessageBatchBytes :: int where "MaxMultiMessageBatchBytes = MaxSQSMessageBytes"
definition MaxMessagesPerBatch :: nat where "MaxMessagesPerBatch = 10"

lemmas port_limits = MaxSQSMessageBytes_def DefaultMaxEventBytes_def MaxPhysicalMessageBytes_def
  MaxMultiMessageBatchBytes_def MaxMessagesPerBatch_def

text \<open>\<^verbatim>\<open>OutboundMessageSize\<close>: body, 64 bytes of entry overhead, and every attribute with 32 more.\<close>

definition attribute_size :: "string \<times> MessageAttribute \<Rightarrow> int" where
  "attribute_size na = int (length (fst na)) + int (length (ma_DataType (snd na)))
                       + int (length (ma_Value (snd na))) + 32"

definition OutboundMessageSize :: "OutboundMessage \<Rightarrow> int" where
  "OutboundMessageSize message = foldl (\<lambda>size na. size + attribute_size na)
     (int (length (om_Body message)) + 64) (om_Attributes message)"

lemma foldl_add_map: "foldl (\<lambda>a x. a + f x) (z::int) xs = z + sum_list (map f xs)"
  by (induction xs arbitrary: z) auto

lemma OutboundMessageSize_sum:
  "OutboundMessageSize m = int (length (om_Body m)) + 64 + sum_list (map attribute_size (om_Attributes m))"
  by (simp add: OutboundMessageSize_def foldl_add_map)

lemma attribute_size_pos: "32 \<le> attribute_size na"
  by (simp add: attribute_size_def)

lemma OutboundMessageSize_ge: "64 + int (length (om_Body m)) \<le> OutboundMessageSize m"
proof -
  have "0 \<le> attribute_size na" for na using attribute_size_pos [of na] by linarith
  then have "0 \<le> sum_list (map attribute_size (om_Attributes m))" by (rule sum_list_map_nonneg)
  then show ?thesis by (simp add: OutboundMessageSize_sum)
qed

lemma OutboundMessageSize_pos: "0 < OutboundMessageSize m"
  using OutboundMessageSize_ge [of m] by linarith

subsection \<open>Process configuration\<close>

record Config =
  cf_Endpoint :: string
  cf_Region :: string
  cf_InputBucket :: string
  cf_IntakeQueueURL :: string
  cf_ChunkQueueURL :: string
  cf_OutputQueueURL :: string
  cf_CompletionQueueURL :: string
  cf_LedgerTable :: string
  cf_Environment :: string
  cf_FileConfigPath :: string
  cf_GlobalLimitsParameter :: string
  cf_RecordsPerChunk :: int
  cf_BatchSize :: int
  cf_MaxReceiveCount :: int
  cf_LedgerRetentionDays :: int
  cf_MaxEventBytes :: int
  cf_MaxFileBytes :: int64
  cf_MaxChunkBytes :: int64
  cf_TargetChunkBytes :: int64
  cf_EventSchemaID :: string
  cf_EventSchemaVersion :: string
  cf_EventFormat :: string
  cf_OutputMode :: OutputMode
  cf_MaxEnvelopesPerMessage :: int
  cf_MaxMessageBytes :: int
  cf_PublishConcurrency :: int

definition zero_Config :: Config where
  "zero_Config = \<lparr>cf_Endpoint = [], cf_Region = [], cf_InputBucket = [], cf_IntakeQueueURL = [],
     cf_ChunkQueueURL = [], cf_OutputQueueURL = [], cf_CompletionQueueURL = [], cf_LedgerTable = [],
     cf_Environment = [], cf_FileConfigPath = [], cf_GlobalLimitsParameter = [], cf_RecordsPerChunk = 0,
     cf_BatchSize = 0, cf_MaxReceiveCount = 0, cf_LedgerRetentionDays = 0, cf_MaxEventBytes = 0,
     cf_MaxFileBytes = 0, cf_MaxChunkBytes = 0, cf_TargetChunkBytes = 0, cf_EventSchemaID = [],
     cf_EventSchemaVersion = [], cf_EventFormat = [], cf_OutputMode = [], cf_MaxEnvelopesPerMessage = 0,
     cf_MaxMessageBytes = 0, cf_PublishConcurrency = 0\<rparr>"

end
