(* ===== verification/Validation.thy ===== *)
theory Validation
  imports Messages
begin

section \<open>Validation of limits and prefix configurations\<close>

text \<open>
  \<^verbatim>\<open>internal/application/organizer/validate.go\<close>. Each function returns the first error, in the
  order of the code's checks, or \<open>None\<close>. \<^verbatim>\<open>validateMultiLineLayout\<close> ranges over a Go map,
  whose order is not determined: the order is an argument, and acceptance is shown not to
  depend on it.
\<close>

datatype config_error =
    InvalidNumericLimits
  | InvalidTypeLimits DataType
  | UnsupportedDataType DataType
  | InvalidNumbers
  | ExceedsGlobalLimits
  | InvalidJSONLayout
  | InvalidMultiLineLayout string
  | NegativeEnvelopes
  | BadMaxMessageBytes
  | UnknownOutputMode OutputMode
  | BadPrefixID char
  | BadOutputQueueURL
  | BadChunkQueueURL
  | MissingChunkQueueURL
  | BadTargetChunkBytes

fun first_type_error :: "GlobalLimits \<Rightarrow> DataType list \<Rightarrow> config_error option" where
  "first_type_error limits [] = None"
| "first_type_error limits (dataType # rest) =
    (case map_of (gl_InputTypes limits) dataType of
       None \<Rightarrow> Some (InvalidTypeLimits dataType)
     | Some limit \<Rightarrow>
         if il_MaxFileBytes limit < 1 \<or> il_MaxFileBytes limit > gl_MaxFileBytes limits
            \<or> il_MaxRecordBytes limit < 1 \<or> il_MaxRecordBytes limit > gl_MaxEventBytes limits
         then Some (InvalidTypeLimits dataType)
         else first_type_error limits rest)"

definition ValidateGlobalLimits :: "GlobalLimits \<Rightarrow> config_error option" where
  "ValidateGlobalLimits limits =
    (if gl_MaxFileBytes limits < 1024 \<or> gl_MaxChunkBytes limits < 1024
        \<or> gl_MaxFileBytes limits < gl_MaxChunkBytes limits
        \<or> gl_MaxEventBytes limits < 1024 \<or> gl_MaxEventBytes limits > MaxSQSMessageBytes
        \<or> gl_MaxBatchSize limits < 1 \<or> gl_MaxBatchSize limits > 10
     then Some InvalidNumericLimits
     else first_type_error limits [DataTypeText, DataTypeJSON, DataTypeMultiLine])"

definition field_ok :: "LineMatchField \<Rightarrow> bool" where
  "field_ok field \<longleftrightarrow> \<not> (lm_StartByte field < 0 \<or> lm_LengthBytes field < 1
                        \<or> int (length (lm_Value field)) \<noteq> lm_LengthBytes field)"

fun field_sets_error :: "(string \<times> LineMatchField list) list \<Rightarrow> string option" where
  "field_sets_error [] = None"
| "field_sets_error ((name, flds) # rest) =
    (if name = ''breakFields'' \<and> length flds = 0 then Some ''breakFields is required''
     else if length flds > 99 then Some (name @ '' has more than 99 fields'')
     else if \<not> list_all field_ok flds then Some (''invalid '' @ name @ '' field'')
     else field_sets_error rest)"

definition layout_field_sets :: "MultiLineLayout \<Rightarrow> (string \<times> LineMatchField list) list" where
  "layout_field_sets layout = [(''breakFields'', ml_BreakFields layout),
     (''includeFields'', ml_IncludeFields layout), (''ignoreFields'', ml_IgnoreFields layout)]"

type_synonym map_order = "(string \<times> LineMatchField list) list \<Rightarrow> (string \<times> LineMatchField list) list"

definition validateMultiLineLayout :: "map_order \<Rightarrow> MultiLineLayout \<Rightarrow> string option" where
  "validateMultiLineLayout ord layout =
    (case field_sets_error (ord (layout_field_sets layout)) of
       Some e \<Rightarrow> Some e
     | None \<Rightarrow> if ml_MaxBytesPerRecord layout < 1 then Some ''maxBytesPerRecord is required'' else None)"

definition prefix_id_char :: "char \<Rightarrow> bool" where
  "prefix_id_char ch \<longleftrightarrow>
     (CHR ''a'' \<le> ch \<and> ch \<le> CHR ''z'') \<or> (CHR ''A'' \<le> ch \<and> ch \<le> CHR ''Z'')
     \<or> (CHR ''0'' \<le> ch \<and> ch \<le> CHR ''9'') \<or> ch = CHR ''-'' \<or> ch = CHR ''_''"

definition queue_url_ok :: "string \<Rightarrow> bool" where
  "queue_url_ok url \<longleftrightarrow> has_prefix url ''https://sqs.'' \<or> has_prefix url ''http://''"

text \<open>The checks that need no case analysis, each as one boolean of the code.\<close>

definition bad_numbers :: "PrefixConfiguration \<Rightarrow> bool" where
  "bad_numbers c \<longleftrightarrow>
     pc_RecordsPerChunk c < 1 \<or> pc_BatchSize c < 1 \<or> pc_BatchSize c > 10
     \<or> pc_MaxEventBytes c < 1024 \<or> pc_MaxEventBytes c > MaxSQSMessageBytes \<or> pc_MaxChunkBytes c < 1024
     \<or> pc_MaxFileBytes c < pc_MaxChunkBytes c
     \<or> pc_EventSchemaID c = [] \<or> pc_EventSchemaVersion c = [] \<or> pc_EventFormat c = []"

definition exceeds_limits :: "PrefixConfiguration \<Rightarrow> GlobalLimits \<Rightarrow> InputTypeLimits \<Rightarrow> bool" where
  "exceeds_limits c limits typeLimits \<longleftrightarrow>
     pc_MaxFileBytes c > gl_MaxFileBytes limits \<or> pc_MaxFileBytes c > il_MaxFileBytes typeLimits
     \<or> pc_MaxChunkBytes c > gl_MaxChunkBytes limits \<or> pc_MaxEventBytes c > gl_MaxEventBytes limits
     \<or> pc_BatchSize c > gl_MaxBatchSize limits
     \<or> pc_MaxRecordLengthBytes c > il_MaxRecordBytes typeLimits
     \<or> ml_MaxBytesPerRecord (pc_MultiLineLayout c) > il_MaxRecordBytes typeLimits
     \<or> ja_MaxBytesPerElement (pc_JSONArrayLayout c) > il_MaxRecordBytes typeLimits"

definition layout_error :: "map_order \<Rightarrow> PrefixConfiguration \<Rightarrow> config_error option" where
  "layout_error ord c =
    (if pc_DataType c = DataTypeJSON \<and> (ja_FirstFieldName (pc_JSONArrayLayout c) = []
         \<or> ja_MaxBytesPerElement (pc_JSONArrayLayout c) < 1) then Some InvalidJSONLayout
     else if pc_DataType c = DataTypeMultiLine then
       (case validateMultiLineLayout ord (pc_MultiLineLayout c) of
          Some e \<Rightarrow> Some (InvalidMultiLineLayout e) | None \<Rightarrow> None)
     else None)"

definition output_mode_error :: "PrefixConfiguration \<Rightarrow> config_error option" where
  "output_mode_error c =
    (if pc_OutputMode c = [] \<or> pc_OutputMode c = OutputModeSingle then None
     else if pc_OutputMode c = OutputModeBundle then
       (if pc_MaxEnvelopesPerMessage c < 0 then Some NegativeEnvelopes
        else if pc_MaxMessageBytes c \<noteq> 0 \<and> (pc_MaxMessageBytes c < 1024 \<or> pc_MaxMessageBytes c > pc_MaxEventBytes c)
        then Some BadMaxMessageBytes else None)
     else Some (UnknownOutputMode (pc_OutputMode c)))"

definition routing_error :: "PrefixConfiguration \<Rightarrow> config_error option" where
  "routing_error c =
    (case find (\<lambda>ch. \<not> prefix_id_char ch) (pc_PrefixID c) of
       Some ch \<Rightarrow> Some (BadPrefixID ch)
     | None \<Rightarrow>
         if pc_OutputQueueURL c \<noteq> [] \<and> \<not> queue_url_ok (pc_OutputQueueURL c) then Some BadOutputQueueURL
         else if pc_ChunkQueueURL c \<noteq> [] \<and> \<not> queue_url_ok (pc_ChunkQueueURL c) then Some BadChunkQueueURL
         else if pc_PrefixID c \<noteq> [] \<and> pc_ChunkQueueURL c = [] then Some MissingChunkQueueURL
         else if pc_TargetChunkBytes c \<noteq> 0 \<and>
                 (pc_TargetChunkBytes c < 5 * 1024 * 1024 \<or> pc_TargetChunkBytes c > 100 * 1024 * 1024
                  \<or> pc_TargetChunkBytes c > pc_MaxChunkBytes c) then Some BadTargetChunkBytes
         else None)"

definition ValidatePrefixConfiguration ::
  "map_order \<Rightarrow> PrefixConfiguration \<Rightarrow> GlobalLimits \<Rightarrow> config_error option" where
  "ValidatePrefixConfiguration ord c limits =
    (if pc_DataType c \<noteq> DataTypeText \<and> pc_DataType c \<noteq> DataTypeJSON \<and> pc_DataType c \<noteq> DataTypeMultiLine
     then Some (UnsupportedDataType (pc_DataType c))
     else if bad_numbers c then Some InvalidNumbers
     else (case map_of (gl_InputTypes limits) (pc_DataType c) of
         None \<Rightarrow> Some ExceedsGlobalLimits
       | Some typeLimits \<Rightarrow>
           if exceeds_limits c limits typeLimits then Some ExceedsGlobalLimits
           else (case layout_error ord c of
               Some e \<Rightarrow> Some e
             | None \<Rightarrow> (case output_mode_error c of
                   Some e \<Rightarrow> Some e
                 | None \<Rightarrow> routing_error c))))"

subsection \<open>What an accepted document guarantees\<close>

lemma first_type_error_None:
  "first_type_error limits ts = None \<longleftrightarrow>
   (\<forall>t\<in>set ts. \<exists>l. map_of (gl_InputTypes limits) t = Some l \<and> 1 \<le> il_MaxFileBytes l
      \<and> il_MaxFileBytes l \<le> gl_MaxFileBytes limits \<and> 1 \<le> il_MaxRecordBytes l
      \<and> il_MaxRecordBytes l \<le> gl_MaxEventBytes limits)"
  by (induction limits ts rule: first_type_error.induct) (auto split: option.splits)

lemma field_sets_error_None:
  "field_sets_error sets = None \<longleftrightarrow>
   (\<forall>(name, flds)\<in>set sets. (name = ''breakFields'' \<longrightarrow> flds \<noteq> []) \<and> length flds \<le> 99 \<and> list_all field_ok flds)"
  by (induction sets rule: field_sets_error.induct) (auto simp: not_less)

text \<open>Acceptance of a layout does not depend on the iteration order of the map.\<close>

lemma validateMultiLineLayout_None:
  assumes "set (ord (layout_field_sets layout)) = set (layout_field_sets layout)"
  shows "validateMultiLineLayout ord layout = None \<longleftrightarrow>
    ml_BreakFields layout \<noteq> [] \<and> length (ml_BreakFields layout) \<le> 99
    \<and> length (ml_IncludeFields layout) \<le> 99 \<and> length (ml_IgnoreFields layout) \<le> 99
    \<and> list_all field_ok (ml_BreakFields layout @ ml_IncludeFields layout @ ml_IgnoreFields layout)
    \<and> 1 \<le> ml_MaxBytesPerRecord layout"
proof -
  have "field_sets_error (ord (layout_field_sets layout)) = None \<longleftrightarrow>
        field_sets_error (layout_field_sets layout) = None"
    by (simp only: field_sets_error_None assms)
  then show ?thesis
    by (auto simp: validateMultiLineLayout_def layout_field_sets_def not_less split: option.splits)
qed

lemma validated_numbers:
  assumes "ValidatePrefixConfiguration ord c limits = None"
  shows "\<not> bad_numbers c \<and> layout_error ord c = None \<and> output_mode_error c = None \<and> routing_error c = None
    \<and> (\<exists>t. map_of (gl_InputTypes limits) (pc_DataType c) = Some t \<and> \<not> exceeds_limits c limits t)
    \<and> pc_DataType c \<in> {DataTypeText, DataTypeJSON, DataTypeMultiLine}"
  using assms
  by (auto simp: ValidatePrefixConfiguration_def split: if_splits option.splits)

lemma ValidateGlobalLimits_None:
  "ValidateGlobalLimits limits = None \<Longrightarrow>
     1024 \<le> gl_MaxChunkBytes limits \<and> gl_MaxChunkBytes limits \<le> gl_MaxFileBytes limits
     \<and> 1024 \<le> gl_MaxEventBytes limits \<and> gl_MaxEventBytes limits \<le> MaxSQSMessageBytes
     \<and> 1 \<le> gl_MaxBatchSize limits \<and> gl_MaxBatchSize limits \<le> 10"
  by (auto simp: ValidateGlobalLimits_def split: if_splits)

end
