(* ===== verification/Line_IO.thy ===== *)
theory Line_IO
  imports Go_Std
begin

section \<open>The line reader\<close>

text \<open>
  \<^verbatim>\<open>internal/domain/lineio/reader.go\<close>. The reader is the bytes it will deliver and how it
  ends (\<open>EOF\<close> or a read error); \<open>ctx it\<close> is what \<^verbatim>\<open>ctx.Err()\<close> returns at iteration \<open>it\<close> of
  the loop. The callback works on a state of its own and may fail; its effects before a
  failure stay, as they do in the program (a record already handed to the sender is sent).

  The second half is the specification: the physical lines of a byte string, and the proof
  that the reader delivers exactly these, for every input and on every error path.
\<close>

datatype read_end = EOF | ReadErr string

datatype 'e line_error =
    MaxLineTooSmall
  | CtxError string
  | NoTerminator int
  | ReadError int string
  | LineTooLong int int
  | InvalidUTF8 int
  | CallbackError 'e

type_synonym ('e, 's) line_fn = "int \<Rightarrow> int \<Rightarrow> string \<Rightarrow> 's \<Rightarrow> 'e option \<times> 's"

text \<open>The local variables of \<^verbatim>\<open>ReadLines\<close>.\<close>

record line_state =
  ls_buf :: bytes
  ls_physOffset :: int
  ls_lineStart :: int
  ls_published :: int
  ls_seen :: int

definition line_state0 :: line_state where
  "line_state0 = \<lparr>ls_buf = [], ls_physOffset = 0, ls_lineStart = 0, ls_published = 0, ls_seen = 0\<rparr>"

definition emitLine ::
  "bytes \<Rightarrow> bool \<Rightarrow> ('e, 's) line_fn \<Rightarrow> line_state \<Rightarrow> 's \<Rightarrow> 'e line_error option \<times> line_state \<times> 's" where
  "emitLine content skipFirst fn st s =
    (if \<not> utf8_valid content then (Some (InvalidUTF8 (ls_lineStart st)), st, s)
     else if skipFirst \<and> ls_seen st = 0 then (None, st\<lparr>ls_seen := ls_seen st + 1\<rparr>, s)
     else (case fn (ls_published st) (ls_lineStart st) content s of
             (Some e, s') \<Rightarrow> (Some (CallbackError e), st, s')
           | (None, s') \<Rightarrow> (None, st\<lparr>ls_published := ls_published st + 1, ls_seen := ls_seen st + 1\<rparr>, s')))"

text \<open>
  The physical length of the terminator at the head: CRLF is one terminator of two bytes,
  CR alone and LF are one byte; the byte read after a CR may fail to arrive.
\<close>

definition terminator_len :: "read_end \<Rightarrow> bytes \<Rightarrow> string + nat" where
  "terminator_len re bs =
    (case bs of
       b # nxt # _ \<Rightarrow> if b = CR \<and> nxt = LF then Inr 2 else Inr 1
     | [b] \<Rightarrow> (case re of ReadErr e \<Rightarrow> if b = CR then Inl e else Inr 1 | EOF \<Rightarrow> Inr 1)
     | [] \<Rightarrow> Inr 1)"

lemma terminator_len_pos: "terminator_len re bs = Inr k \<Longrightarrow> 0 < k"
  by (auto simp: terminator_len_def split: list.splits read_end.splits if_splits)

definition next_line_state :: "line_state \<Rightarrow> nat \<Rightarrow> line_state" where
  "next_line_state st k =
    (let p = ls_physOffset st + int (length (ls_buf st)) + int k
     in st\<lparr>ls_physOffset := p, ls_lineStart := p, ls_buf := []\<rparr>)"

function read_loop ::
  "(nat \<Rightarrow> string option) \<Rightarrow> read_end \<Rightarrow> int64 \<Rightarrow> bool \<Rightarrow> ('e, 's) line_fn \<Rightarrow> nat \<Rightarrow> bytes \<Rightarrow> line_state \<Rightarrow> 's
     \<Rightarrow> 'e line_error option \<times> 's" where
  "read_loop ctx re maxLineBytes skipFirst fn it bs st s =
    (case ctx it of
       Some e \<Rightarrow> (Some (CtxError e), s)
     | None \<Rightarrow>
       (case bs of
          [] \<Rightarrow> (case re of
                  EOF \<Rightarrow> if ls_buf st \<noteq> [] then (Some (NoTerminator (ls_lineStart st)), s) else (None, s)
                | ReadErr e \<Rightarrow> (Some (ReadError (ls_physOffset st + int (length (ls_buf st))) e), s))
        | b # rest \<Rightarrow>
            if b = CR \<or> b = LF then
              (case terminator_len re bs of
                 Inl e \<Rightarrow> (Some (ReadError (ls_physOffset st + int (length (ls_buf st)) + 1) e), s)
               | Inr k \<Rightarrow>
                   (case emitLine (ls_buf st) skipFirst fn st s of
                      (Some e, st', s') \<Rightarrow> (Some e, s')
                    | (None, st', s') \<Rightarrow>
                        read_loop ctx re maxLineBytes skipFirst fn (Suc it) (drop k bs) (next_line_state st' k) s'))
            else if int (length (ls_buf st)) \<ge> maxLineBytes then
              (Some (LineTooLong maxLineBytes (ls_lineStart st)), s)
            else read_loop ctx re maxLineBytes skipFirst fn (Suc it) rest (st\<lparr>ls_buf := ls_buf st @ [b]\<rparr>) s))"
  by pat_completeness auto
termination
  by (relation "measure (\<lambda>(ctx, re, m, sk, fn, it, bs, st, s). length bs)")
     (auto dest: terminator_len_pos)

declare read_loop.simps [simp del]

definition ReadLines ::
  "(nat \<Rightarrow> string option) \<Rightarrow> bytes \<Rightarrow> read_end \<Rightarrow> int64 \<Rightarrow> bool \<Rightarrow> ('e, 's) line_fn \<Rightarrow> 's
     \<Rightarrow> 'e line_error option \<times> 's" where
  "ReadLines ctx bs re maxLineBytes skipFirst fn s =
    (if maxLineBytes < 1 then (Some MaxLineTooSmall, s)
     else read_loop ctx re maxLineBytes skipFirst fn 0 bs line_state0 s)"

text \<open>A context that is never cancelled.\<close>

definition no_cancel :: "nat \<Rightarrow> string option" where
  "no_cancel it = None"

subsection \<open>The physical lines of a byte string\<close>

definition is_term :: "char \<Rightarrow> bool" where
  "is_term b \<longleftrightarrow> b = CR \<or> b = LF"

definition line_head :: "bytes \<Rightarrow> bytes" where
  "line_head bs = takeWhile (\<lambda>b. \<not> is_term b) bs"

text \<open>The bytes from the terminator of the first line on.\<close>

definition line_rest :: "bytes \<Rightarrow> bytes" where
  "line_rest bs = dropWhile (\<lambda>b. \<not> is_term b) bs"

definition term_len :: "bytes \<Rightarrow> nat" where
  "term_len bs = (if take 2 bs = [CR, LF] then 2 else 1)"

lemma line_head_rest: "line_head bs @ line_rest bs = bs"
  by (simp add: line_head_def line_rest_def)

lemma line_rest_hd: "line_rest bs \<noteq> [] \<Longrightarrow> is_term (hd (line_rest bs))"
  unfolding line_rest_def using hd_dropWhile [of "\<lambda>b. \<not> is_term b" bs] by simp

lemma line_rest_length: "length (line_rest bs) \<le> length bs"
  by (simp add: line_rest_def length_dropWhile_le)

lemma line_head_no_term: "b \<in> set (line_head bs) \<Longrightarrow> \<not> is_term b"
  unfolding line_head_def by (metis set_takeWhileD)

lemma term_len_cases: "term_len bs = 1 \<or> term_len bs = 2"
  by (simp add: term_len_def)

lemma term_len_pos [simp]: "0 < term_len bs"
  by (simp add: term_len_def)

lemma terminator_len_EOF: "bs \<noteq> [] \<Longrightarrow> terminator_len EOF bs = Inr (term_len bs)"
  unfolding terminator_len_def term_len_def numeral_2_eq_2
  by (cases bs; cases "tl bs") simp_all

lemma term_len_2: "term_len bs = 2 \<longleftrightarrow> (\<exists>r. bs = CR # LF # r)"
  by (cases bs; cases "tl bs") (auto simp: term_len_def)

lemma term_len_le: "bs \<noteq> [] \<Longrightarrow> term_len bs \<le> length bs"
  by (cases bs; cases "tl bs") (auto simp: term_len_def)

lemma line_rest_drop_less:
  "line_rest bs \<noteq> [] \<Longrightarrow> length (drop (term_len (line_rest bs)) (line_rest bs)) < length bs"
proof -
  assume "line_rest bs \<noteq> []"
  then have "0 < length (line_rest bs)" by simp
  with line_rest_length [of bs] term_len_pos [of "line_rest bs"] show ?thesis
    unfolding length_drop by linarith
qed

text \<open>The terminated lines with the offsets of their first bytes, and the unterminated tail.\<close>

function phys_lines :: "int \<Rightarrow> bytes \<Rightarrow> (int \<times> bytes) list" where
  "phys_lines off bs =
    (if line_rest bs = [] then []
     else (off, line_head bs) #
          phys_lines (off + int (length (line_head bs)) + int (term_len (line_rest bs)))
                     (drop (term_len (line_rest bs)) (line_rest bs)))"
  by pat_completeness auto
termination
  by (relation "measure (\<lambda>(off, bs). length bs)") (use line_rest_drop_less in auto)

declare phys_lines.simps [simp del]

function line_tail :: "int \<Rightarrow> bytes \<Rightarrow> int \<times> bytes" where
  "line_tail off bs =
    (if line_rest bs = [] then (off, bs)
     else line_tail (off + int (length (line_head bs)) + int (term_len (line_rest bs)))
                    (drop (term_len (line_rest bs)) (line_rest bs)))"
  by pat_completeness auto
termination
  by (relation "measure (\<lambda>(off, bs). length bs)") (use line_rest_drop_less in auto)

declare line_tail.simps [simp del]

text \<open>What the reader does with the lines, line by line instead of byte by byte.\<close>

fun run_lines ::
  "int64 \<Rightarrow> bool \<Rightarrow> ('e, 's) line_fn \<Rightarrow> (int \<times> bytes) list \<Rightarrow> int \<times> bytes \<Rightarrow> int \<Rightarrow> int \<Rightarrow> 's
     \<Rightarrow> 'e line_error option \<times> 's" where
  "run_lines mx skipFirst fn [] tail published seen s =
    (if int (length (snd tail)) > mx then (Some (LineTooLong mx (fst tail)), s)
     else if snd tail \<noteq> [] then (Some (NoTerminator (fst tail)), s)
     else (None, s))"
| "run_lines mx skipFirst fn ((off, content) # ls) tail published seen s =
    (if int (length content) > mx then (Some (LineTooLong mx off), s)
     else if \<not> utf8_valid content then (Some (InvalidUTF8 off), s)
     else if skipFirst \<and> seen = 0 then run_lines mx skipFirst fn ls tail published (seen + 1) s
     else (case fn published off content s of
             (Some e, s') \<Rightarrow> (Some (CallbackError e), s')
           | (None, s') \<Rightarrow> run_lines mx skipFirst fn ls tail (published + 1) (seen + 1) s'))"

subsection \<open>The reader delivers the physical lines\<close>

text \<open>
  One line of the loop: from a state whose buffer holds the start of the line, the bytes up
  to the terminator (or the end) are consumed, and the loop is back at a line boundary.
\<close>

lemma read_loop_scan:
  assumes "int (length (ls_buf st)) \<le> mx"
  shows "read_loop no_cancel EOF mx skipFirst fn it bs st s =
    (let c = ls_buf st @ line_head bs; r = line_rest bs in
     if int (length c) > mx then (Some (LineTooLong mx (ls_lineStart st)), s)
     else if r = [] then (if c \<noteq> [] then (Some (NoTerminator (ls_lineStart st)), s) else (None, s))
     else (case emitLine c skipFirst fn (st\<lparr>ls_buf := c\<rparr>) s of
             (Some e, st', s') \<Rightarrow> (Some e, s')
           | (None, st', s') \<Rightarrow>
               read_loop no_cancel EOF mx skipFirst fn (it + Suc (length (line_head bs)))
                 (drop (term_len r) r) (next_line_state st' (term_len r)) s'))"
  using assms
proof (induction bs arbitrary: it st)
  case Nil
  then show ?case
    by (simp add: read_loop.simps no_cancel_def line_head_def line_rest_def)
next
  case (Cons b bs)
  show ?case
  proof (cases "is_term b")
    case True
    have rest: "line_rest (b # bs) = b # bs" and head: "line_head (b # bs) = []"
      using True by (simp_all add: line_rest_def line_head_def)
    have "terminator_len EOF (b # bs) = Inr (term_len (b # bs))"
      by (rule terminator_len_EOF) simp
    with Cons.prems True rest head show ?thesis
      by (simp add: read_loop.simps [of _ _ _ _ _ it] Let_def no_cancel_def [abs_def] is_term_def
               split: prod.splits option.splits)
  next
    case False
    have rest: "line_rest (b # bs) = line_rest bs" and head: "line_head (b # bs) = b # line_head bs"
      using False by (simp_all add: line_rest_def line_head_def)
    show ?thesis
    proof (cases "int (length (ls_buf st)) \<ge> mx")
      case True
      with False Cons.prems rest head show ?thesis
        by (simp add: read_loop.simps [of _ _ _ _ _ it] no_cancel_def is_term_def)
    next
      case small: False
      have "read_loop no_cancel EOF mx skipFirst fn it (b # bs) st s =
            read_loop no_cancel EOF mx skipFirst fn (Suc it) bs (st\<lparr>ls_buf := ls_buf st @ [b]\<rparr>) s"
        using False small by (simp add: read_loop.simps [of _ _ _ _ _ it] no_cancel_def is_term_def)
      also note Cons.IH [of "st\<lparr>ls_buf := ls_buf st @ [b]\<rparr>" "Suc it"]
      finally show ?thesis
        using small rest head
        by (simp add: Let_def cong del: option.case_cong_weak prod.case_cong_weak)
    qed
  qed
qed

lemma emitLine_state:
  "emitLine c sk fn st s = (e, st', s') \<Longrightarrow> ls_buf st' = ls_buf st \<and> ls_physOffset st' = ls_physOffset st"
  by (auto simp: emitLine_def split: if_splits prod.splits option.splits)

lemma read_loop_run_lines:
  assumes "ls_buf st = []" "ls_physOffset st = off" "ls_lineStart st = off" "0 \<le> mx"
  shows "read_loop no_cancel EOF mx skipFirst fn it bs st s =
         run_lines mx skipFirst fn (phys_lines off bs) (line_tail off bs) (ls_published st) (ls_seen st) s"
  using assms
proof (induction off bs arbitrary: it st s skipFirst rule: phys_lines.induct)
  case (1 off bs)
  note scan = read_loop_scan [of st mx skipFirst fn it bs s]
  show ?case
  proof (cases "line_rest bs = []")
    case True
    then have "line_head bs = bs" using line_head_rest [of bs] by simp
    with True 1 scan show ?thesis
      by (simp add: phys_lines.simps [of off bs] line_tail.simps [of off bs])
  next
    case False
    let ?c = "line_head bs" and ?r = "line_rest bs"
    let ?k = "term_len ?r"
    let ?off' = "off + int (length ?c) + int ?k"
    have IH: "read_loop no_cancel EOF mx sk fn it' (drop ?k ?r) st' s' =
              run_lines mx sk fn (phys_lines ?off' (drop ?k ?r)) (line_tail ?off' (drop ?k ?r))
                (ls_published st') (ls_seen st') s'"
      if "ls_buf st' = []" "ls_physOffset st' = ?off'" "ls_lineStart st' = ?off'" for it' st' s' sk
      using "1.IH" [OF False] that "1.prems"(4) by blast
    have lines: "phys_lines off bs = (off, ?c) # phys_lines ?off' (drop ?k ?r)"
      and tail: "line_tail off bs = line_tail ?off' (drop ?k ?r)"
      using False by (simp_all add: phys_lines.simps [of off bs] line_tail.simps [of off bs])
    show ?thesis
      unfolding scan [unfolded "1.prems"(1), simplified, OF "1.prems"(4)] lines tail
      using False "1.prems"
      by (auto simp: emitLine_def IH next_line_state_def Let_def split: prod.splits option.splits)
  qed
qed

text \<open>Functional correctness of \<^verbatim>\<open>ReadLines\<close>, errors included.\<close>

lemma ReadLines_eq_run_lines:
  assumes "1 \<le> mx"
  shows "ReadLines no_cancel bs EOF mx skipFirst fn s =
         run_lines mx skipFirst fn (phys_lines 0 bs) (line_tail 0 bs) 0 0 s"
  using assms read_loop_run_lines [of line_state0 0 mx skipFirst fn 0 bs s]
  by (simp add: ReadLines_def line_state0_def)

subsection \<open>Line starts, by position\<close>

text \<open>
  A position starts a line if it is 0 or comes right after a terminator (not between the CR
  and the LF of one CRLF). This depends on two bytes only, which is what makes the lines of
  a window of a file agree with the lines of the file.
\<close>

definition line_start :: "bytes \<Rightarrow> nat \<Rightarrow> bool" where
  "line_start bs p \<longleftrightarrow> p = 0 \<or> (is_term (bs ! (p - 1)) \<and> \<not> (bs ! (p - 1) = CR \<and> bs ! p = LF))"

definition line_positions :: "bytes \<Rightarrow> nat list" where
  "line_positions bs = filter (\<lambda>p. line_start bs p \<and> line_rest (drop p bs) \<noteq> []) [0..<length bs]"

lemma line_rest_Nil_iff: "line_rest bs = [] \<longleftrightarrow> (\<forall>b\<in>set bs. \<not> is_term b)"
  by (simp add: line_rest_def)

lemma length_head_rest: "length (line_head bs) + length (line_rest bs) = length bs"
  by (metis length_append line_head_rest)

lemma line_rest_nth: "i < length (line_rest bs) \<Longrightarrow> line_rest bs ! i = bs ! (length (line_head bs) + i)"
  by (metis line_head_rest nth_append_length_plus)

lemma line_head_nth: "i < length (line_head bs) \<Longrightarrow> line_head bs ! i = bs ! i"
  by (metis line_head_rest nth_append)

lemma line_rest_eq_drop: "line_rest bs = drop (length (line_head bs)) bs"
  by (metis append_eq_conv_conj line_head_rest)

text \<open>The position where the next line starts.\<close>

definition next_start :: "bytes \<Rightarrow> nat" where
  "next_start bs = length (line_head bs) + term_len (line_rest bs)"

lemma next_start_le: "line_rest bs \<noteq> [] \<Longrightarrow> next_start bs \<le> length bs"
  using term_len_le [of "line_rest bs"] length_head_rest [of bs] by (simp add: next_start_def)

lemma next_start_pos: "0 < next_start bs"
  by (simp add: next_start_def)

lemma drop_next_start: "drop (term_len (line_rest bs)) (line_rest bs) = drop (next_start bs) bs"
  by (simp add: next_start_def line_rest_eq_drop [of bs] add.commute)

lemma no_line_start_inside:
  assumes "line_rest bs \<noteq> []" "0 < p" "p < next_start bs"
  shows "\<not> line_start bs p"
proof (cases "p \<le> length (line_head bs)")
  case True
  with assms have "p - 1 < length (line_head bs)" by simp
  then have "\<not> is_term (bs ! (p - 1))"
    using line_head_no_term [of "line_head bs ! (p - 1)" bs] line_head_nth [of "p - 1" bs] by simp
  with assms show ?thesis by (simp add: line_start_def)
next
  case False
  with assms have p: "p = length (line_head bs) + 1" and two: "term_len (line_rest bs) = 2"
    using term_len_cases [of "line_rest bs"] by (auto simp: next_start_def)
  then obtain r where "line_rest bs = CR # LF # r" by (auto simp: term_len_2)
  with p line_rest_nth [of 0 bs] line_rest_nth [of 1 bs]
  have "bs ! (p - 1) = CR" "bs ! p = LF" by simp_all
  with p show ?thesis by (simp add: line_start_def)
qed

lemma line_start_shift:
  assumes "line_rest bs \<noteq> []" "q < length bs - next_start bs"
  shows "line_start bs (next_start bs + q) \<longleftrightarrow> line_start (drop (next_start bs) bs) q"
proof (cases "q = 0")
  case False
  with next_start_le [OF assms(1)] show ?thesis
    by (auto simp: line_start_def nth_append)
next
  case True
  let ?h = "length (line_head bs)"
  have le: "next_start bs \<le> length bs" by (rule next_start_le) (rule assms)
  have first: "is_term (bs ! ?h)"
    using line_rest_hd [OF assms(1)] line_rest_nth [of 0 bs] assms(1) by (simp add: hd_conv_nth)
  have "line_start bs (next_start bs)"
  proof (cases "term_len (line_rest bs) = 2")
    case True
    then obtain r where r: "line_rest bs = CR # LF # r" by (auto simp: term_len_2)
    with line_rest_nth [of 1 bs] have "bs ! Suc ?h = LF" by simp
    with True show ?thesis by (simp add: line_start_def next_start_def is_term_def)
  next
    case False
    then have n: "next_start bs = Suc ?h" using term_len_cases [of "line_rest bs"] by (simp add: next_start_def)
    have "\<not> (bs ! ?h = CR \<and> bs ! Suc ?h = LF)"
    proof
      assume h: "bs ! ?h = CR \<and> bs ! Suc ?h = LF"
      have l: "1 < length (line_rest bs)"
        using assms(2) n length_head_rest [of bs] by simp
      then obtain x y r where xy: "line_rest bs = x # y # r"
        by (cases "line_rest bs"; cases "tl (line_rest bs)") auto
      with h line_rest_nth [of 0 bs] line_rest_nth [of 1 bs] have "x = CR" "y = LF" by simp_all
      with xy False show False by (auto simp: term_len_2)
    qed
    with first n show ?thesis by (simp add: line_start_def)
  qed
  with True show ?thesis by (simp add: line_start_def)
qed

lemma upt_split3:
  assumes "0 < n" "n \<le> (m::nat)"
  shows "[0..<m] = 0 # [1..<n] @ map (\<lambda>q. n + q) [0..<m - n]"
proof -
  have "[0..<m] = [0..<n] @ [n..<m]" using upt_add_eq_append [of 0 n "m - n"] assms by simp
  moreover have "[0..<n] = 0 # [1..<n]" using assms by (simp add: upt_conv_Cons)
  moreover have "[n..<m] = map (\<lambda>q. n + q) [0..<m - n]"
    using assms by (intro nth_equalityI) simp_all
  ultimately show ?thesis by simp
qed

lemma line_positions_unfold:
  assumes "line_rest bs \<noteq> []"
  shows "line_positions bs = 0 # map (\<lambda>q. next_start bs + q) (line_positions (drop (next_start bs) bs))"
proof -
  let ?n = "next_start bs"
  let ?P = "\<lambda>p. line_start bs p \<and> line_rest (drop p bs) \<noteq> []"
  have le: "?n \<le> length bs" by (rule next_start_le) (rule assms)
  have "filter ?P [1..<?n] = []"
    using no_line_start_inside [OF assms] by (auto simp: filter_empty_conv)
  moreover have "?P 0" using assms by (simp add: line_start_def)
  moreover have "filter ?P (map (\<lambda>q. ?n + q) [0..<length bs - ?n]) =
        map (\<lambda>q. ?n + q) (filter (\<lambda>q. line_start (drop ?n bs) q \<and> line_rest (drop q (drop ?n bs)) \<noteq> []) [0..<length bs - ?n])"
    unfolding filter_map o_def
    by (intro arg_cong [where f = "map _"] filter_cong)
       (simp_all add: line_start_shift [OF assms] drop_drop add.commute [of _ ?n])
  ultimately show ?thesis
    unfolding line_positions_def upt_split3 [OF next_start_pos le]
    by simp
qed

text \<open>The lines of the reader are exactly the terminated line starts, in order.\<close>

lemma phys_lines_positions:
  "phys_lines off bs = map (\<lambda>p. (off + int p, line_head (drop p bs))) (line_positions bs)"
proof (induction off bs rule: phys_lines.induct)
  case (1 off bs)
  show ?case
  proof (cases "line_rest bs = []")
    case True
    have "line_rest (drop p bs) = []" for p
      using True by (auto simp: line_rest_Nil_iff dest: in_set_dropD)
    with True show ?thesis by (simp add: phys_lines.simps [of off bs] line_positions_def)
  next
    case False
    from "1.IH" [OF False] show ?thesis
      using False unfolding drop_next_start
      by (simp add: phys_lines.simps [of off bs] line_positions_unfold drop_next_start
            next_start_def add.commute add.left_commute)
  qed
qed

lemma sorted_line_positions: "sorted_wrt (<) (line_positions bs)"
  unfolding line_positions_def by (rule sorted_wrt_filter) (simp add: sorted_wrt_upt)

lemma phys_lines_increasing: "sorted_wrt (\<lambda>a b. fst a < fst b) (phys_lines off bs)"
  using sorted_line_positions [of bs] by (simp add: phys_lines_positions sorted_wrt_map)

subsection \<open>Windows of a file\<close>

text \<open>
  A Worker reads a window of the object. If the window ends at the end of the file or right
  after a terminator byte, its lines after the first position are the lines of the file.
\<close>

definition window :: "bytes \<Rightarrow> nat \<Rightarrow> nat \<Rightarrow> bytes" where
  "window file a k = take k (drop a file)"

lemma length_window [simp]: "a + k \<le> length file \<Longrightarrow> length (window file a k) = k"
  by (simp add: window_def)

lemma nth_window: "a + k \<le> length file \<Longrightarrow> i < k \<Longrightarrow> window file a k ! i = file ! (a + i)"
  by (simp add: window_def)

lemma line_start_window:
  "a + k \<le> length file \<Longrightarrow> 0 < q \<Longrightarrow> q < k \<Longrightarrow> line_start (window file a k) q \<longleftrightarrow> line_start file (a + q)"
  by (simp add: line_start_def nth_window)

lemma line_head_prefix:
  assumes "line_rest xs \<noteq> []"
  shows "line_head (xs @ ys) = line_head xs \<and> line_rest (xs @ ys) \<noteq> []"
proof -
  have "\<exists>x\<in>set xs. is_term x" using assms by (auto simp: line_rest_Nil_iff)
  then show ?thesis
    by (auto simp: line_head_def line_rest_Nil_iff takeWhile_append1)
qed

definition good_end :: "bytes \<Rightarrow> nat \<Rightarrow> bool" where
  "good_end file e \<longleftrightarrow> e = length file \<or> (0 < e \<and> e < length file \<and> is_term (file ! (e - 1)))"

lemma line_rest_window:
  assumes "a + k \<le> length file" "q < k" "good_end file (a + k)"
  shows "line_head (drop q (window file a k)) = line_head (drop (a + q) file)
       \<and> (line_rest (drop q (window file a k)) \<noteq> [] \<longleftrightarrow> line_rest (drop (a + q) file) \<noteq> [])"
proof -
  have w: "drop q (window file a k) = take (k - q) (drop (a + q) file)"
    by (simp add: window_def drop_take add.commute)
  show ?thesis
  proof (cases "a + k = length file")
    case True
    with assms(2) have "take (k - q) (drop (a + q) file) = drop (a + q) file" by simp
    with w show ?thesis by simp
  next
    case False
    with assms have t: "is_term (file ! (a + k - 1))" by (auto simp: good_end_def)
    have "take (k - q) (drop (a + q) file) ! (k - q - 1) = file ! (a + k - 1)"
      using assms by (simp add: add.commute)
    moreover have "k - q - 1 < length (take (k - q) (drop (a + q) file))" using assms by simp
    ultimately have "\<exists>b\<in>set (take (k - q) (drop (a + q) file)). is_term b"
      using t by (metis nth_mem)
    then have r: "line_rest (take (k - q) (drop (a + q) file)) \<noteq> []"
      by (auto simp: line_rest_Nil_iff)
    from line_head_prefix [OF r, of "drop (k - q) (drop (a + q) file)"] r w show ?thesis
      by (simp only: append_take_drop_id)
  qed
qed

lemma filter_upt_window:
  "a + k \<le> (n::nat) \<Longrightarrow> filter (\<lambda>p. a < p \<and> p < a + k) [0..<n] = map ((+) a) (filter ((<) 0) [0..<k])"
proof -
  assume le: "a + k \<le> n"
  have "[0..<n] = [0..<a] @ [a..<a + k] @ [a + k..<n]"
    using upt_add_eq_append [of 0 a "n - a"] upt_add_eq_append [of a "a + k" "n - (a + k)"] le by simp
  moreover have "[a..<a + k] = map ((+) a) [0..<k]" by (intro nth_equalityI) simp_all
  moreover have "filter (\<lambda>x. 0 < x \<and> x < k) [0..<k] = filter ((<) 0) [0..<k]"
    by (rule filter_cong) auto
  ultimately show ?thesis
    by (auto simp: filter_map o_def filter_empty_conv)
qed

lemma window_positions:
  assumes "a + k \<le> length file" "good_end file (a + k)"
  shows "map ((+) a) (filter ((<) 0) (line_positions (window file a k)))
       = filter (\<lambda>p. a < p \<and> p < a + k) (line_positions file)"
proof -
  let ?P = "\<lambda>p. line_start file p \<and> line_rest (drop p file) \<noteq> []"
  let ?Q = "\<lambda>q. line_start (window file a k) q \<and> line_rest (drop q (window file a k)) \<noteq> []"
  have "filter (\<lambda>p. a < p \<and> p < a + k) (line_positions file)
      = filter ?P (filter (\<lambda>p. a < p \<and> p < a + k) [0..<length file])"
    by (simp add: line_positions_def conj_commute)
  also have "\<dots> = map ((+) a) (filter (\<lambda>q. ?P (a + q)) (filter ((<) 0) [0..<k]))"
    by (simp add: filter_upt_window [OF assms(1)] filter_map o_def)
  also have "filter (\<lambda>q. ?P (a + q)) (filter ((<) 0) [0..<k]) = filter ?Q (filter ((<) 0) [0..<k])"
    using line_start_window [OF assms(1)] line_rest_window [OF assms(1) _ assms(2)]
    by (intro filter_cong) auto
  also have "\<dots> = filter ((<) 0) (line_positions (window file a k))"
    using assms(1) by (simp add: line_positions_def conj_commute)
  finally show ?thesis by simp
qed

lemma window_lines:
  assumes "a + k \<le> length file" "good_end file (a + k)"
  shows "filter (\<lambda>l. int a < fst l) (phys_lines (int a) (window file a k))
       = filter (\<lambda>l. int a < fst l \<and> fst l < int (a + k)) (phys_lines 0 file)"
proof -
  have "filter (\<lambda>l. int a < fst l) (phys_lines (int a) (window file a k))
      = map (\<lambda>q. (int a + int q, line_head (drop q (window file a k)))) (filter ((<) 0) (line_positions (window file a k)))"
    by (simp add: phys_lines_positions filter_map o_def)
  also have "\<dots> = map (\<lambda>q. (int (a + q), line_head (drop (a + q) file))) (filter ((<) 0) (line_positions (window file a k)))"
    using line_rest_window [OF assms(1) _ assms(2)] assms(1)
    by (intro map_cong) (auto simp: line_positions_def)
  also have "\<dots> = map (\<lambda>p. (int p, line_head (drop p file))) (map ((+) a) (filter ((<) 0) (line_positions (window file a k))))"
    by simp
  also have "\<dots> = filter (\<lambda>l. int a < fst l \<and> fst l < int (a + k)) (phys_lines 0 file)"
    unfolding window_positions [OF assms]
    by (simp add: phys_lines_positions filter_map o_def of_nat_add [symmetric] del: of_nat_add)
  finally show ?thesis .
qed

text \<open>From the start of the file no line is lost, position 0 included.\<close>

lemma window_lines_0:
  assumes "k \<le> length file" "good_end file k" "0 < k"
  shows "phys_lines 0 (window file 0 k) = filter (\<lambda>l. fst l < int k) (phys_lines 0 file)"
proof -
  have a: "0 + k \<le> length file" and g: "good_end file (0 + k)" using assms by simp_all
  let ?W = "window file 0 k"
  have P: "line_start ?W q \<and> line_rest (drop q ?W) \<noteq> [] \<longleftrightarrow> line_start file q \<and> line_rest (drop q file) \<noteq> []"
    if "q < k" for q
    using line_start_window [OF a, of q] line_rest_window [OF a that g] that
    by (cases "q = 0") (auto simp: line_start_def)
  have "filter (\<lambda>p. p < k) (line_positions file)
      = filter (\<lambda>p. line_start file p \<and> line_rest (drop p file) \<noteq> []) (filter (\<lambda>p. p < k) [0..<length file])"
    by (simp add: line_positions_def conj_commute)
  also have "filter (\<lambda>p. p < k) [0..<length file] = [0..<k]"
    using upt_add_eq_append [of 0 k "length file - k"] assms(1) by (auto simp: filter_empty_conv)
  also have "filter (\<lambda>p. line_start file p \<and> line_rest (drop p file) \<noteq> []) [0..<k] = line_positions ?W"
    unfolding line_positions_def using P assms(1) by (intro filter_cong) auto
  finally have pos: "line_positions ?W = filter (\<lambda>p. p < k) (line_positions file)" by simp
  show ?thesis
    using line_rest_window [OF a _ g]
    by (auto simp: phys_lines_positions pos filter_map o_def intro!: map_cong)
qed

lemma phys_lines_hd:
  "phys_lines off bs \<noteq> [] \<Longrightarrow> fst (hd (phys_lines off bs)) = off"
  by (auto simp: phys_lines.simps [of off bs])

lemma phys_lines_tl: "tl (phys_lines off bs) = filter (\<lambda>l. off < fst l) (phys_lines off bs)"
proof (cases "phys_lines off bs")
  case (Cons l ls)
  with phys_lines_hd [of off bs] phys_lines_increasing [of off bs]
  have "fst l = off" "\<forall>x\<in>set ls. off < fst x" by auto
  with Cons show ?thesis by (simp add: filter_id_conv)
qed simp

lemma phys_lines_Nil_iff: "phys_lines off bs = [] \<longleftrightarrow> line_rest bs = []"
  by (simp add: phys_lines.simps [of off bs])

subsection \<open>Clean input\<close>

fun run_callbacks :: "('e, 's) line_fn \<Rightarrow> (int \<times> bytes) list \<Rightarrow> int \<Rightarrow> 's \<Rightarrow> 'e option \<times> 's" where
  "run_callbacks fn [] n s = (None, s)"
| "run_callbacks fn ((off, content) # ls) n s =
     (case fn n off content s of
        (Some e, s') \<Rightarrow> (Some e, s')
      | (None, s') \<Rightarrow> run_callbacks fn ls (n + 1) s')"

definition clean_line :: "int64 \<Rightarrow> int \<times> bytes \<Rightarrow> bool" where
  "clean_line mx l \<longleftrightarrow> int (length (snd l)) \<le> mx \<and> utf8_valid (snd l)"

lemma run_lines_clean:
  assumes "list_all (clean_line mx) ls" "snd tail = []" "0 \<le> mx" "\<not> (skipFirst \<and> seen = 0)" "0 \<le> seen"
  shows "run_lines mx skipFirst fn ls tail n seen s
       = map_prod (map_option CallbackError) id (run_callbacks fn ls n s)"
  using assms
proof (induction ls arbitrary: n seen s)
  case (Cons l ls)
  obtain off c where l: "l = (off, c)" by (cases l)
  have "\<not> (skipFirst \<and> seen + 1 = 0)" using Cons.prems(5) by simp
  with Cons l show ?case
    by (auto simp: clean_line_def split: prod.splits option.splits)
qed simp

lemma run_lines_clean_skip:
  assumes "list_all (clean_line mx) ls" "snd tail = []" "0 \<le> mx"
  shows "run_lines mx True fn ls tail n 0 s
       = map_prod (map_option CallbackError) id (run_callbacks fn (tl ls) n s)"
proof (cases ls)
  case Nil
  with assms show ?thesis by simp
next
  case (Cons l ls')
  obtain off c where l: "l = (off, c)" by (cases l)
  show ?thesis
    using assms run_lines_clean [of mx ls' tail True 1 fn n s] Cons l
    by (auto simp: clean_line_def)
qed

text \<open>An unterminated tail that is not empty is an error, whatever the callback does with the lines before it.\<close>

lemma run_lines_tail_error:
  assumes "snd tail \<noteq> []"
  shows "fst (run_lines mx skipFirst fn ls tail n seen s) \<noteq> None"
  using assms
  by (induction mx skipFirst fn ls tail n seen s rule: run_lines.induct)
     (auto split: prod.splits option.splits)

lemma line_tail_snd: "line_rest bs = [] \<Longrightarrow> snd (line_tail off bs) = bs"
  by (simp add: line_tail.simps [of off bs])

lemma line_tail_Nil_iff: "snd (line_tail off bs) = [] \<longleftrightarrow> bs = [] \<or> is_term (last bs)"
proof (induction off bs rule: line_tail.induct)
  case (1 off bs)
  show ?case
  proof (cases "line_rest bs = []")
    case True
    have "bs = [] \<or> last bs \<in> set bs" by (metis last_in_set)
    with True show ?thesis by (auto simp: line_tail_snd line_rest_Nil_iff)
  next
    case False
    let ?d = "drop (next_start bs) bs"
    have tail: "snd (line_tail off bs) = [] \<longleftrightarrow> ?d = [] \<or> is_term (last ?d)"
      using "1.IH" [OF False] False by (simp add: line_tail.simps [of off bs] drop_next_start)
    show ?thesis
    proof (cases "?d = []")
      case True
      then have n: "next_start bs = length bs" using next_start_le [OF False] by simp
      obtain p r where r: "line_rest bs = p @ r" "length p = term_len (line_rest bs)"
        using term_len_le [OF False] by (metis append_take_drop_id length_take min.absorb2)
      have "line_rest bs = take (term_len (line_rest bs)) (line_rest bs)"
        using True drop_next_start [of bs] by (metis append_Nil2 append_take_drop_id)
      then have "is_term (last (line_rest bs))"
        using term_len_cases [of "line_rest bs"] line_rest_hd [OF False] False
        by (cases "line_rest bs"; cases "tl (line_rest bs)")
           (auto simp: term_len_def is_term_def split: if_splits)
      moreover have "last bs = last (line_rest bs)"
        using False line_head_rest [of bs] by (metis last_appendR)
      ultimately show ?thesis using tail True False by auto
    next
      case ne: False
      then have "last ?d = last bs" by (simp add: last_drop)
      with tail ne show ?thesis by auto
    qed
  qed
qed

end
