(* ===== verification/Multi_Line.thy ===== *)
theory Multi_Line
  imports Line_IO Messages
begin

section \<open>Multi-line records\<close>

text \<open>
  \<^verbatim>\<open>internal/domain/multiline/multiline.go\<close>: physical lines are grouped into logical records.
  The variables the closures of \<^verbatim>\<open>ReadMultiLineLayoutWithStats\<close> share (\<^verbatim>\<open>recordNum\<close>,
  \<^verbatim>\<open>recStart\<close>, \<^verbatim>\<open>recLines\<close>, \<^verbatim>\<open>stats\<close>) are a record threaded through the callback, next to the
  state of the caller's callback.
\<close>

definition DefaultLineSeparator :: string where "DefaultLineSeparator = [CHR 0x1C]"

record Stats =
  st_HeaderLinesIgnored :: int
  st_TrailerLinesIgnored :: int

text \<open>
  One field against a line. \<^verbatim>\<open>StartByte+LengthBytes\<close> is 64-bit arithmetic; the slice
  \<^verbatim>\<open>line[a:a+n]\<close> is only taken after the bounds have been checked.
\<close>

definition field_matches :: "bytes \<Rightarrow> LineMatchField \<Rightarrow> bool" where
  "field_matches line f \<longleftrightarrow>
     \<not> (lm_StartByte f < 0 \<or> lm_LengthBytes f < 1 \<or> int (length (lm_Value f)) \<noteq> lm_LengthBytes f
        \<or> wrap64 (lm_StartByte f + lm_LengthBytes f) > int (length line)
        \<or> take (nat (lm_LengthBytes f)) (drop (nat (lm_StartByte f)) line) \<noteq> lm_Value f)"

definition Matches :: "bytes \<Rightarrow> LineMatchField list \<Rightarrow> bool" where
  "Matches line flds = (if length flds = 0 then False else list_all (field_matches line) flds)"

record group_state =
  gs_recordNum :: int
  gs_recStart :: int
  gs_recLines :: "string list"
  gs_stats :: Stats

definition group_state0 :: group_state where
  "group_state0 = \<lparr>gs_recordNum = 0, gs_recStart = 0, gs_recLines = [],
                   gs_stats = \<lparr>st_HeaderLinesIgnored = 0, st_TrailerLinesIgnored = 0\<rparr>\<rparr>"

text \<open>The closure \<^verbatim>\<open>emit\<close>; \<^verbatim>\<open>recLines\<close> is cleared before the callback runs.\<close>

definition emit_record ::
  "string \<Rightarrow> ('e, 's) line_fn \<Rightarrow> group_state \<times> 's \<Rightarrow> 'e option \<times> group_state \<times> 's" where
  "emit_record sep fn gss =
    (let (g, s) = gss in
     if gs_recLines g = [] then (None, g, s)
     else let raw = join_with sep (gs_recLines g); g' = g\<lparr>gs_recLines := []\<rparr> in
       (case fn (gs_recordNum g) (gs_recStart g) raw s of
          (Some e, s') \<Rightarrow> (Some e, g', s')
        | (None, s') \<Rightarrow> (None, g'\<lparr>gs_recordNum := gs_recordNum g + 1\<rparr>, s')))"

definition count_header :: "group_state \<Rightarrow> group_state" where
  "count_header g = g\<lparr>gs_stats := (gs_stats g)\<lparr>st_HeaderLinesIgnored := st_HeaderLinesIgnored (gs_stats g) + 1\<rparr>\<rparr>"

definition count_trailer :: "group_state \<Rightarrow> group_state" where
  "count_trailer g = g\<lparr>gs_stats := (gs_stats g)\<lparr>st_TrailerLinesIgnored := st_TrailerLinesIgnored (gs_stats g) + 1\<rparr>\<rparr>"

text \<open>The callback given to \<^verbatim>\<open>ReadLines\<close>: the \<^verbatim>\<open>switch\<close>, case by case in its order.\<close>

definition group_line ::
  "MultiLineLayout \<Rightarrow> string \<Rightarrow> ('e, 's) line_fn \<Rightarrow> ('e, group_state \<times> 's) line_fn" where
  "group_line layout sep fn _ off line gss =
    (if Matches line (ml_BreakFields layout) then
       (case emit_record sep fn gss of
          (Some e, g, s) \<Rightarrow> (Some e, g, s)
        | (None, g, s) \<Rightarrow> (None, g\<lparr>gs_recStart := off, gs_recLines := gs_recLines g @ [line]\<rparr>, s))
     else let (g, s) = gss in
       if length (gs_recLines g) > 0 \<and> Matches line (ml_IncludeFields layout) then
         (None, g\<lparr>gs_recLines := gs_recLines g @ [line]\<rparr>, s)
       else if Matches line (ml_IgnoreFields layout) then
         (None, (if length (gs_recLines g) > 0 then count_trailer g else count_header g), s)
       else if length (gs_recLines g) > 0 then (None, count_trailer g, s)
       else (None, count_header g, s))"

definition layout_separator :: "MultiLineLayout \<Rightarrow> string" where
  "layout_separator layout =
     (if ml_LineSeparator layout = [] then DefaultLineSeparator else ml_LineSeparator layout)"

definition ReadMultiLineLayoutWithStats ::
  "(nat \<Rightarrow> string option) \<Rightarrow> bytes \<Rightarrow> read_end \<Rightarrow> MultiLineLayout \<Rightarrow> ('e, 's) line_fn \<Rightarrow> 's
     \<Rightarrow> 'e line_error option \<times> Stats \<times> 's" where
  "ReadMultiLineLayoutWithStats ctx bs re layout fn s =
    (let sep = layout_separator layout in
     case ReadLines ctx bs re (ml_MaxBytesPerRecord layout) False (group_line layout sep fn) (group_state0, s) of
       (Some e, g, s') \<Rightarrow> (Some e, gs_stats g, s')
     | (None, g, s') \<Rightarrow>
         (case emit_record sep fn (g, s') of
            (Some e, g', s'') \<Rightarrow> (Some (CallbackError e), gs_stats g, s'')
          | (None, g', s'') \<Rightarrow> (None, gs_stats g, s'')))"

definition ReadMultiLineLayout ::
  "(nat \<Rightarrow> string option) \<Rightarrow> bytes \<Rightarrow> read_end \<Rightarrow> MultiLineLayout \<Rightarrow> ('e, 's) line_fn \<Rightarrow> 's
     \<Rightarrow> 'e line_error option \<times> 's" where
  "ReadMultiLineLayout ctx bs re layout fn s =
    (case ReadMultiLineLayoutWithStats ctx bs re layout fn s of (e, stats, s') \<Rightarrow> (e, s'))"

subsection \<open>What matching means\<close>

lemma field_matches_iff:
  assumes "int (length line) \<le> max_int64"
      and "in_int64 (lm_StartByte f)" "in_int64 (lm_LengthBytes f)"
    and fits: "lm_StartByte f + lm_LengthBytes f \<le> max_int64"
  shows "field_matches line f \<longleftrightarrow>
     0 \<le> lm_StartByte f \<and> 1 \<le> lm_LengthBytes f \<and> int (length (lm_Value f)) = lm_LengthBytes f
     \<and> (\<exists>pre post. line = pre @ lm_Value f @ post \<and> int (length pre) = lm_StartByte f)"
proof (cases "0 \<le> lm_StartByte f \<and> 1 \<le> lm_LengthBytes f \<and> int (length (lm_Value f)) = lm_LengthBytes f")
  case False
  then show ?thesis by (auto simp: field_matches_def)
next
  case True
  let ?a = "nat (lm_StartByte f)" and ?n = "nat (lm_LengthBytes f)"
  have w: "wrap64 (lm_StartByte f + lm_LengthBytes f) = int (?a + ?n)"
    using True fits by (simp add: wrap64_nonneg)
  have "field_matches line f \<longleftrightarrow> ?a + ?n \<le> length line \<and> take ?n (drop ?a line) = lm_Value f"
    using True w by (auto simp: field_matches_def)
  also have "\<dots> \<longleftrightarrow> (\<exists>pre post. line = pre @ lm_Value f @ post \<and> length pre = ?a)"
  proof
    assume h: "?a + ?n \<le> length line \<and> take ?n (drop ?a line) = lm_Value f"
    have "line = take ?a line @ take ?n (drop ?a line) @ drop ?n (drop ?a line)"
      by (metis append_take_drop_id)
    with h show "\<exists>pre post. line = pre @ lm_Value f @ post \<and> length pre = ?a"
      by (metis add_leD1 length_take min.absorb2)
  next
    assume "\<exists>pre post. line = pre @ lm_Value f @ post \<and> length pre = ?a"
    with True show "?a + ?n \<le> length line \<and> take ?n (drop ?a line) = lm_Value f" by auto
  qed
  finally show ?thesis using True by auto
qed

lemma Matches_short: "Matches line flds \<Longrightarrow> f \<in> set flds \<Longrightarrow>
    0 \<le> lm_StartByte f \<Longrightarrow> lm_StartByte f + lm_LengthBytes f \<le> max_int64 \<Longrightarrow>
    lm_StartByte f + lm_LengthBytes f \<le> int (length line)"
proof -
  assume m: "Matches line flds" "f \<in> set flds" and b: "0 \<le> lm_StartByte f"
    "lm_StartByte f + lm_LengthBytes f \<le> max_int64"
  then have "field_matches line f" by (auto simp: Matches_def list_all_iff split: if_splits)
  with b show ?thesis by (auto simp: field_matches_def wrap64_nonneg)
qed

lemma Matches_nonempty: "Matches line flds \<Longrightarrow> flds \<noteq> []"
  by (auto simp: Matches_def)

subsection \<open>Grouping, as a function of the list of lines\<close>

text \<open>
  The specification: a record is a break line and the include lines up to the next break
  line; every other line is ignored, as a header line before the first record and as a
  trailer line after it.
\<close>

definition is_break :: "MultiLineLayout \<Rightarrow> int \<times> bytes \<Rightarrow> bool" where
  "is_break layout l \<longleftrightarrow> Matches (snd l) (ml_BreakFields layout)"

definition is_include :: "MultiLineLayout \<Rightarrow> int \<times> bytes \<Rightarrow> bool" where
  "is_include layout l \<longleftrightarrow> Matches (snd l) (ml_IncludeFields layout)"

function records_of :: "MultiLineLayout \<Rightarrow> (int \<times> bytes) list \<Rightarrow> (int \<times> string list) list" where
  "records_of layout ls =
    (case dropWhile (\<lambda>l. \<not> is_break layout l) ls of
       [] \<Rightarrow> []
     | b # ls' \<Rightarrow>
         (fst b, snd b # map snd (filter (is_include layout) (takeWhile (\<lambda>l. \<not> is_break layout l) ls')))
         # records_of layout (dropWhile (\<lambda>l. \<not> is_break layout l) ls'))"
  by pat_completeness auto
termination
proof (relation "measure (length \<circ> snd)", goal_cases)
  case (2 layout ls b ls')
  have "length (b # ls') \<le> length ls" unfolding "2" [symmetric] by (rule length_dropWhile_le)
  moreover have "length (dropWhile (\<lambda>l. \<not> is_break layout l) ls') \<le> length ls'" by (rule length_dropWhile_le)
  ultimately show ?case by simp
qed simp

declare records_of.simps [simp del]

text \<open>The state of the grouping after some lines, and the records already complete.\<close>

fun group_run :: "MultiLineLayout \<Rightarrow> (int \<times> bytes) list \<Rightarrow> (int \<times> string list) option \<Rightarrow> (int \<times> string list) list" where
  "group_run layout [] cur = (case cur of None \<Rightarrow> [] | Some r \<Rightarrow> [r])"
| "group_run layout (l # ls) cur =
    (if is_break layout l then
       (case cur of None \<Rightarrow> [] | Some r \<Rightarrow> [r]) @ group_run layout ls (Some (fst l, [snd l]))
     else (case cur of
             None \<Rightarrow> group_run layout ls None
           | Some (o', xs) \<Rightarrow>
               group_run layout ls (Some (o', if is_include layout l then xs @ [snd l] else xs))))"

lemma group_run_Some:
  "group_run layout ls (Some (o', xs)) =
     (o', xs @ map snd (filter (is_include layout) (takeWhile (\<lambda>l. \<not> is_break layout l) ls)))
     # group_run layout (dropWhile (\<lambda>l. \<not> is_break layout l) ls) None"
  by (induction ls arbitrary: xs) auto

lemma group_run_None: "group_run layout ls None = group_run layout (dropWhile (\<lambda>l. \<not> is_break layout l) ls) None"
  by (induction ls) auto

lemma group_run_records_of: "group_run layout ls None = records_of layout ls"
proof (induction layout ls rule: records_of.induct)
  case (1 layout ls)
  show ?case
  proof (cases "dropWhile (\<lambda>l. \<not> is_break layout l) ls")
    case Nil
    then have "records_of layout ls = []" by (subst records_of.simps) (simp only: list.case)
    moreover have "group_run layout ls None = []" using group_run_None [of layout ls] Nil by (simp only: group_run.simps option.case)
    ultimately show ?thesis by simp
  next
    case (Cons b ls')
    then have "is_break layout b" using hd_dropWhile [of "\<lambda>l. \<not> is_break layout l" ls] by auto
    with Cons have "group_run layout ls None = group_run layout ls' (Some (fst b, [snd b]))"
      using group_run_None [of layout ls] by simp
    with "1.IH" [OF Cons] Cons show ?thesis
      by (simp add: records_of.simps [of layout ls] group_run_Some)
  qed
qed

subsection \<open>The reader groups exactly so\<close>

text \<open>The calls of the caller's callback, in order, for a list of records.\<close>

definition record_calls :: "string \<Rightarrow> (int \<times> string list) list \<Rightarrow> (int \<times> bytes) list" where
  "record_calls sep rs = map (\<lambda>(off, xs). (off, join_with sep xs)) rs"

definition open_record :: "group_state \<Rightarrow> (int \<times> string list) option" where
  "open_record g = (if gs_recLines g = [] then None else Some (gs_recStart g, gs_recLines g))"

lemma group_lines_run:
  fixes fn :: "('e, 's) line_fn"
  shows "(case run_callbacks (group_line layout sep fn) ls n (g, s) of
            (Some e, g', s') \<Rightarrow> (Some e, s')
          | (None, g', s') \<Rightarrow> (case emit_record sep fn (g', s') of (e, g'', s'') \<Rightarrow> (e, s'')))
       = run_callbacks fn (record_calls sep (group_run layout ls (open_record g))) (gs_recordNum g) s"
proof (induction ls arbitrary: n g s)
  case Nil
  then show ?case
    by (auto simp: emit_record_def open_record_def record_calls_def split: prod.splits option.splits)
next
  case (Cons l ls)
  obtain off line where l: "l = (off, line)" by (cases l)
  show ?case
  proof (cases "is_break layout l")
    case False
    have "\<exists>g'. group_line layout sep fn n off line (g, s) = (None, g', s)"
      using False l by (simp add: group_line_def is_break_def)
    then obtain g' where step: "group_line layout sep fn n off line (g, s) = (None, g', s)" by blast
    then have num: "gs_recordNum g' = gs_recordNum g"
      using False l by (auto simp: group_line_def is_break_def count_header_def count_trailer_def split: if_splits)
    have "group_run layout (l # ls) (open_record g) = group_run layout ls (open_record g')"
      using False l step
      by (auto simp: group_line_def is_break_def is_include_def open_record_def
            count_header_def count_trailer_def split: if_splits)
    with Cons.IH [of "n + 1" g' s] step num l show ?thesis
      by simp
  next
    case True
    then have brk: "Matches line (ml_BreakFields layout)" using l by (simp add: is_break_def)
    show ?thesis
    proof (cases "gs_recLines g = []")
      case empty: True
      let ?g' = "g\<lparr>gs_recStart := off, gs_recLines := [line]\<rparr>"
      have "group_line layout sep fn n off line (g, s) = (None, ?g', s)"
        using brk empty by (simp add: group_line_def emit_record_def)
      with Cons.IH [of "n + 1" ?g' s] True l empty show ?thesis
        by (simp add: open_record_def)
    next
      case False
      let ?raw = "join_with sep (gs_recLines g)"
      show ?thesis
      proof (cases "fn (gs_recordNum g) (gs_recStart g) ?raw s")
        case (Pair eo s')
        let ?g' = "g\<lparr>gs_recLines := [line], gs_recordNum := gs_recordNum g + 1, gs_recStart := off\<rparr>"
        show ?thesis
        proof (cases eo)
          case None
          have "group_line layout sep fn n off line (g, s) = (None, ?g', s')"
            using brk False Pair None by (simp add: group_line_def emit_record_def)
          with Cons.IH [of "n + 1" ?g' s'] True l False Pair None show ?thesis
            by (simp add: open_record_def record_calls_def)
        next
          case (Some e)
          with True l False Pair brk show ?thesis
            by (simp add: open_record_def record_calls_def group_line_def emit_record_def)
        qed
      qed
    qed
  qed
qed

text \<open>
  On clean input the caller's callback is called once per record of the specification, in
  order, numbered from 0, with the offset of its break line and its lines joined.
\<close>

lemma ReadMultiLine_records:
  assumes "1 \<le> ml_MaxBytesPerRecord layout"
    and "list_all (clean_line (ml_MaxBytesPerRecord layout)) (phys_lines 0 bs)"
    and "bs = [] \<or> is_term (last bs)"
  shows "ReadMultiLineLayout no_cancel bs EOF layout fn s
       = map_prod (map_option CallbackError) id
           (run_callbacks fn (record_calls (layout_separator layout) (records_of layout (phys_lines 0 bs))) 0 s)"
proof -
  let ?sep = "layout_separator layout" and ?ls = "phys_lines 0 bs"
  have tail: "snd (line_tail 0 bs) = []" using assms(3) by (simp add: line_tail_Nil_iff)
  have run: "ReadLines no_cancel bs EOF (ml_MaxBytesPerRecord layout) False (group_line layout ?sep fn) (group_state0, s)
      = map_prod (map_option CallbackError) id (run_callbacks (group_line layout ?sep fn) ?ls 0 (group_state0, s))"
    using assms(1,2) tail by (simp add: ReadLines_eq_run_lines run_lines_clean)
  have g: "group_run layout ?ls (open_record group_state0) = records_of layout ?ls" "gs_recordNum group_state0 = 0"
    by (simp_all add: open_record_def group_state0_def group_run_records_of)
  obtain eo g' s' where r: "run_callbacks (group_line layout ?sep fn) ?ls 0 (group_state0, s) = (eo, g', s')"
    by (metis prod_cases3)
  show ?thesis
    using group_lines_run [where layout = layout and sep = ?sep and fn = fn and ls = ?ls and n = 0
        and g = group_state0 and s = s, symmetric] run r
    by (cases eo)
       (auto simp: g ReadMultiLineLayout_def ReadMultiLineLayoutWithStats_def Let_def split: prod.splits option.splits)
qed

subsection \<open>No physical line is lost\<close>

text \<open>Lines held in the open record, counted as ignored, or delivered: all of them.\<close>

definition ignored_lines :: "Stats \<Rightarrow> int" where
  "ignored_lines st = st_HeaderLinesIgnored st + st_TrailerLinesIgnored st"

lemma group_line_counts:
  assumes "\<And>n off raw s. fst (fn n off raw s) = None"
    and "run_callbacks (group_line layout sep fn) ls n (g, s) = (None, g', s')"
  shows "int (length (gs_recLines g)) + int (length ls) + ignored_lines (gs_stats g)
       = ignored_lines (gs_stats g')
         + int (sum_list (map (length \<circ> snd) (group_run layout ls (open_record g))))"
  using assms(2)
proof (induction ls arbitrary: n g s)
  case Nil
  then show ?case by (auto simp: open_record_def)
next
  case (Cons l ls)
  obtain off line where l: "l = (off, line)" by (cases l)
  obtain g1 s1 where step: "group_line layout sep fn n off line (g, s) = (None, g1, s1)"
    and rest: "run_callbacks (group_line layout sep fn) ls (n + 1) (g1, s1) = (None, g', s')"
    using Cons.prems l by (auto split: prod.splits option.splits)
  have acc: "fn n' off' raw' s2 = (None, snd (fn n' off' raw' s2))" for n' off' raw' s2
    using assms(1) [of n' off' raw' s2] by (simp add: prod_eq_iff)
  show ?case
  proof (cases "is_break layout l")
    case True
    then have brk: "Matches line (ml_BreakFields layout)" using l by (simp add: is_break_def)
    have g1: "gs_stats g1 = gs_stats g" "gs_recLines g1 = [line]" "gs_recStart g1 = off"
      using step brk acc [of "gs_recordNum g" "gs_recStart g" "join_with sep (gs_recLines g)" s]
      by (auto simp: group_line_def emit_record_def Let_def split: if_splits prod.splits option.splits)
    from Cons.IH [OF rest] g1 True l show ?thesis by (auto simp: open_record_def)
  next
    case False
    then have nb: "\<not> Matches line (ml_BreakFields layout)" using l by (simp add: is_break_def)
    show ?thesis
    proof (cases "gs_recLines g \<noteq> [] \<and> is_include layout l")
      case inc: True
      then have "g1 = g\<lparr>gs_recLines := gs_recLines g @ [line]\<rparr>"
        using step nb l by (auto simp: group_line_def is_include_def)
      with Cons.IH [OF rest] False inc l show ?thesis by (auto simp: open_record_def)
    next
      case ninc: False
      then have "gs_recLines g1 = gs_recLines g" "gs_recStart g1 = gs_recStart g"
        and "ignored_lines (gs_stats g1) = ignored_lines (gs_stats g) + 1"
        using step nb l
        by (auto simp: group_line_def is_include_def count_header_def count_trailer_def ignored_lines_def
                 split: if_splits)
      with Cons.IH [OF rest] False ninc l show ?thesis by (auto simp: open_record_def)
    qed
  qed
qed

end
