(* ===== verification/Job_States.thy ===== *)
theory Job_States
  imports Messages
begin

section \<open>Identities and the state machines of jobs and chunks\<close>

text \<open>
  \<^verbatim>\<open>internal/domain/f2e/states.go\<close>, \<^verbatim>\<open>ledger.go\<close> and \<^verbatim>\<open>completion.go\<close>: the identities of
  records and completion events, the two transition tables and the aggregate views. A
  status is a Go string, so the statuses are strings here and every other string is an
  unknown status, exactly as in the map lookups of the code.
\<close>

subsection \<open>Identities\<close>

definition hashIdentity :: "string \<Rightarrow> string" where
  "hashIdentity s = sha256_hex s"

definition SourceRecordID :: "string \<Rightarrow> int64 \<Rightarrow> string" where
  "SourceRecordID fileID byteOffset = hashIdentity (fileID @ ''/'' @ format_int byteOffset)"

definition SourceRecordIDV1 :: "string \<Rightarrow> string \<Rightarrow> int64 \<Rightarrow> string \<Rightarrow> string \<Rightarrow> string" where
  "SourceRecordIDV1 fileID chunkID recordNumber schemaID schemaVersion =
     hashIdentity (fileID @ ''/'' @ chunkID @ ''/'' @ format_int recordNumber @ ''/'' @
                   schemaID @ ''/'' @ schemaVersion)"

text \<open>
  The text hashed for a record identity determines the offset: two records of one file get
  different texts, so their identities differ unless SHA-256 itself collides.
\<close>

lemma record_identity_text_inject:
  assumes "0 \<le> a" "0 \<le> b"
  shows "fileID @ ''/'' @ format_int a = fileID @ ''/'' @ format_int b \<longleftrightarrow> a = b"
  using format_int_inject_nonneg [OF assms] by simp

subsection \<open>The transition tables\<close>

type_synonym JobStatus = string
type_synonym ChunkStatus = string

definition JobStateReceived :: JobStatus where "JobStateReceived = ''RECEIVED''"
definition JobStateValidating :: JobStatus where "JobStateValidating = ''VALIDATING''"
definition JobStatePlanning :: JobStatus where "JobStatePlanning = ''PLANNING''"
definition JobStateProcessing :: JobStatus where "JobStateProcessing = ''PROCESSING''"
definition JobStateCompleted :: JobStatus where "JobStateCompleted = ''COMPLETED''"
definition JobStateFailed :: JobStatus where "JobStateFailed = ''FAILED''"
definition JobStateRejected :: JobStatus where "JobStateRejected = ''REJECTED''"

definition JobPending :: JobStatus where "JobPending = ''PENDING''"
definition JobScheduled :: JobStatus where "JobScheduled = ''SCHEDULED''"
definition JobSchedulingFailed :: JobStatus where "JobSchedulingFailed = ''SCHEDULING_FAILED''"
definition JobRunning :: JobStatus where "JobRunning = ''RUNNING''"
definition JobCompleted :: JobStatus where "JobCompleted = ''COMPLETED''"
definition JobFailed :: JobStatus where "JobFailed = ''FAILED''"

definition ChunkStatePending :: ChunkStatus where "ChunkStatePending = ''PENDING''"
definition ChunkStateRunning :: ChunkStatus where "ChunkStateRunning = ''RUNNING''"
definition ChunkStateRetryPending :: ChunkStatus where "ChunkStateRetryPending = ''RETRY_PENDING''"
definition ChunkStateCompleted :: ChunkStatus where "ChunkStateCompleted = ''COMPLETED''"
definition ChunkStateFailed :: ChunkStatus where "ChunkStateFailed = ''FAILED''"

lemmas job_status_defs = JobStateReceived_def JobStateValidating_def JobStatePlanning_def
  JobStateProcessing_def JobStateCompleted_def JobStateFailed_def JobStateRejected_def
  JobPending_def JobScheduled_def JobSchedulingFailed_def JobRunning_def JobCompleted_def JobFailed_def

lemmas chunk_status_defs = ChunkStatePending_def ChunkStateRunning_def ChunkStateRetryPending_def
  ChunkStateCompleted_def ChunkStateFailed_def

text \<open>
  Legacy and canonical constants that are the same string, and the twelve strings that are
  pairwise different: with these two bundles the proofs treat a status as a constant and
  never look at its characters.
\<close>

lemma status_synonyms [simp]:
  "JobCompleted = JobStateCompleted" "JobFailed = JobStateFailed"
  "ChunkStatePending = JobPending" "ChunkStateRunning = JobRunning"
  "ChunkStateCompleted = JobStateCompleted" "ChunkStateFailed = JobStateFailed"
  by (simp_all add: job_status_defs chunk_status_defs)

definition all_statuses :: "string list" where
  "all_statuses = [JobStateReceived, JobStateValidating, JobStatePlanning, JobStateProcessing,
     JobStateCompleted, JobStateFailed, JobStateRejected, JobPending, JobScheduled,
     JobSchedulingFailed, JobRunning, ChunkStateRetryPending]"

lemma status_distinct: "distinct all_statuses"
  by (simp add: all_statuses_def job_status_defs chunk_status_defs)

lemma status_distinct_rev: "distinct (rev all_statuses)"
  using status_distinct by simp

lemmas status_neq [simp] =
  status_distinct [unfolded all_statuses_def distinct.simps list.set insert_iff empty_iff de_Morgan_disj simp_thms]
  status_distinct_rev [unfolded all_statuses_def rev.simps append.simps distinct.simps
                     list.set insert_iff empty_iff de_Morgan_disj simp_thms]

lemma status_nonempty [simp]:
  "JobStateReceived \<noteq> []" "JobStateValidating \<noteq> []" "JobStatePlanning \<noteq> []"
  "JobStateCompleted \<noteq> []" "JobStateFailed \<noteq> []" "JobStateRejected \<noteq> []" "JobPending \<noteq> []"
  "JobScheduled \<noteq> []" "JobSchedulingFailed \<noteq> []" "JobRunning \<noteq> []" "ChunkStateRetryPending \<noteq> []"
  by (simp_all add: job_status_defs chunk_status_defs)

definition jobTransitions :: "(JobStatus \<times> JobStatus list) list" where
  "jobTransitions =
   [(JobStateReceived, [JobStateValidating, JobStateRejected, JobStateFailed]),
    (JobStateValidating, [JobStatePlanning, JobStateRejected, JobStateFailed]),
    (JobStatePlanning, [JobStateProcessing, JobStateCompleted, JobStateRejected, JobStateFailed]),
    (JobStateProcessing, [JobStateCompleted, JobStateFailed]),
    (JobStateCompleted, []),
    (JobStateFailed, []),
    (JobStateRejected, [])]"

definition chunkTransitions :: "(ChunkStatus \<times> ChunkStatus list) list" where
  "chunkTransitions =
   [(ChunkStatePending, [ChunkStateRunning]),
    (ChunkStateRunning, [ChunkStateCompleted, ChunkStateRetryPending, ChunkStateFailed]),
    (ChunkStateRetryPending, [ChunkStateRunning]),
    (ChunkStateCompleted, []),
    (ChunkStateFailed, [])]"

text \<open>Ranging over the missing entry of a Go map ranges over nothing.\<close>

definition table_row :: "('s \<times> 's list) list \<Rightarrow> 's \<Rightarrow> 's list" where
  "table_row tbl s = (case map_of tbl s of None \<Rightarrow> [] | Some ts \<Rightarrow> ts)"

definition JobCanTransitionTo :: "JobStatus \<Rightarrow> JobStatus \<Rightarrow> bool" where
  "JobCanTransitionTo s next = list_ex (\<lambda>allowed. allowed = next) (table_row jobTransitions s)"

definition JobTerminal :: "JobStatus \<Rightarrow> bool" where
  "JobTerminal s = (case map_of jobTransitions s of None \<Rightarrow> False | Some ts \<Rightarrow> length ts = 0)"

definition ChunkCanTransitionTo :: "ChunkStatus \<Rightarrow> ChunkStatus \<Rightarrow> bool" where
  "ChunkCanTransitionTo s next = list_ex (\<lambda>allowed. allowed = next) (table_row chunkTransitions s)"

definition ChunkTerminal :: "ChunkStatus \<Rightarrow> bool" where
  "ChunkTerminal s = (case map_of chunkTransitions s of None \<Rightarrow> False | Some ts \<Rightarrow> length ts = 0)"

subsection \<open>What a transition table promises\<close>

text \<open>
  Both machines are used through \<^verbatim>\<open>CanTransitionTo\<close> and \<^verbatim>\<open>Terminal\<close>. The contract: a
  terminal state has no successor, and every successor of a state is a state of the table.
\<close>

locale state_machine =
  fixes can :: "'s \<Rightarrow> 's \<Rightarrow> bool"
    and terminal :: "'s \<Rightarrow> bool"
    and known :: "'s set"
  assumes terminal_stuck: "terminal s \<Longrightarrow> \<not> can s t"
    and can_closed: "can s t \<Longrightarrow> s \<in> known \<and> t \<in> known"
    and terminal_known: "terminal s \<Longrightarrow> s \<in> known"
    and progress: "s \<in> known \<Longrightarrow> \<not> terminal s \<Longrightarrow> \<exists>t. can s t"
begin

lemma terminal_path: "can\<^sup>*\<^sup>* s t \<Longrightarrow> terminal s \<Longrightarrow> t = s"
  by (induction rule: converse_rtranclp_induct) (auto dest: terminal_stuck)

lemma path_known: "can\<^sup>*\<^sup>* s t \<Longrightarrow> s \<in> known \<Longrightarrow> t \<in> known"
  by (induction rule: rtranclp_induct) (auto dest: can_closed)

lemma path_to_terminal_unique:
  assumes "can\<^sup>*\<^sup>* s t" "can\<^sup>*\<^sup>* t u" "terminal t"
  shows "u = t"
  using assms terminal_path by blast

end

text \<open>A machine without cycles: every step lowers a rank, so a run has bounded length.\<close>

locale ranked_machine = state_machine +
  fixes rank :: "'a \<Rightarrow> nat"
  assumes can_rank: "can s t \<Longrightarrow> rank t < rank s"
begin

lemma path_rank: "(can ^^ n) s t \<Longrightarrow> rank t + n \<le> rank s"
proof (induction n arbitrary: t)
  case 0
  then show ?case by simp
next
  case (Suc n)
  then obtain u where "(can ^^ n) s u" "can u t" by auto
  with Suc.IH [of u] can_rank [of u t] show ?case by simp
qed

lemma no_cycle: "can\<^sup>+\<^sup>+ s t \<Longrightarrow> t \<noteq> s"
proof -
  assume "can\<^sup>+\<^sup>+ s t"
  then have "rank t < rank s"
    by (induction rule: tranclp_induct) (auto dest: can_rank)
  then show ?thesis by auto
qed

lemma reaches_terminal: "s \<in> known \<Longrightarrow> \<exists>t. can\<^sup>*\<^sup>* s t \<and> terminal t"
proof (induction "rank s" arbitrary: s rule: less_induct)
  case less
  show ?case
  proof (cases "terminal s")
    case False
    with less.prems obtain u where u: "can s u" using progress by blast
    then obtain t where "can\<^sup>*\<^sup>* u t" "terminal t"
      using less.hyps [of u] can_rank [of s u] can_closed [of s u] by blast
    with u show ?thesis by (meson converse_rtranclp_into_rtranclp)
  qed auto
qed

end

subsection \<open>The two machines keep the contract\<close>

definition job_states :: "JobStatus set" where
  "job_states = {JobStateReceived, JobStateValidating, JobStatePlanning, JobStateProcessing,
                 JobStateCompleted, JobStateFailed, JobStateRejected}"

definition chunk_states :: "ChunkStatus set" where
  "chunk_states = {ChunkStatePending, ChunkStateRunning, ChunkStateRetryPending,
                   ChunkStateCompleted, ChunkStateFailed}"

definition job_rank :: "JobStatus \<Rightarrow> nat" where
  "job_rank s = (if s = JobStateReceived then 4 else if s = JobStateValidating then 3
     else if s = JobStatePlanning then 2 else if s = JobStateProcessing then 1 else 0)"

lemma JobCan_iff: "JobCanTransitionTo s t \<longleftrightarrow>
    (s = JobStateReceived \<and> t \<in> {JobStateValidating, JobStateRejected, JobStateFailed}) \<or>
    (s = JobStateValidating \<and> t \<in> {JobStatePlanning, JobStateRejected, JobStateFailed}) \<or>
    (s = JobStatePlanning \<and> t \<in> {JobStateProcessing, JobStateCompleted, JobStateRejected, JobStateFailed}) \<or>
    (s = JobStateProcessing \<and> t \<in> {JobStateCompleted, JobStateFailed})"
  by (auto simp: JobCanTransitionTo_def table_row_def jobTransitions_def split: if_splits)

lemma JobTerminal_iff: "JobTerminal s \<longleftrightarrow> s \<in> {JobStateCompleted, JobStateFailed, JobStateRejected}"
  by (simp add: JobTerminal_def jobTransitions_def)

lemma ChunkCan_iff: "ChunkCanTransitionTo s t \<longleftrightarrow>
    (s = ChunkStatePending \<and> t = ChunkStateRunning) \<or>
    (s = ChunkStateRunning \<and> t \<in> {ChunkStateCompleted, ChunkStateRetryPending, ChunkStateFailed}) \<or>
    (s = ChunkStateRetryPending \<and> t = ChunkStateRunning)"
  by (auto simp: ChunkCanTransitionTo_def table_row_def chunkTransitions_def split: if_splits)

lemma ChunkTerminal_iff: "ChunkTerminal s \<longleftrightarrow> s \<in> {ChunkStateCompleted, ChunkStateFailed}"
  by (simp add: ChunkTerminal_def chunkTransitions_def)

interpretation job_machine: ranked_machine JobCanTransitionTo JobTerminal job_states job_rank
proof (unfold_locales, goal_cases)
  case (1 s t)
  then show ?case by (auto simp: JobTerminal_iff JobCan_iff)
next
  case (2 s t)
  then show ?case by (auto simp: JobCan_iff job_states_def)
next
  case (3 s)
  then show ?case by (auto simp: JobTerminal_iff job_states_def)
next
  case (4 s)
  then show ?case by (auto simp: JobTerminal_iff JobCan_iff job_states_def)
next
  case (5 s t)
  then show ?case by (auto simp: JobCan_iff job_rank_def)
qed

interpretation chunk_machine: state_machine ChunkCanTransitionTo ChunkTerminal chunk_states
proof (unfold_locales, goal_cases)
  case (1 s t)
  then show ?case by (auto simp: ChunkTerminal_iff ChunkCan_iff)
next
  case (2 s t)
  then show ?case by (auto simp: ChunkCan_iff chunk_states_def)
next
  case (3 s)
  then show ?case by (auto simp: ChunkTerminal_iff chunk_states_def)
next
  case (4 s)
  then show ?case by (auto simp: ChunkTerminal_iff ChunkCan_iff chunk_states_def)
qed

lemma job_relpow_bound: "(JobCanTransitionTo ^^ n) s t \<Longrightarrow> n \<le> 4"
  using job_machine.path_rank [of n s t] by (simp add: job_rank_def split: if_splits)

subsection \<open>Counters, reasons and aggregate views\<close>

type_synonym JobResult = string

definition JobResultSuccess :: JobResult where "JobResultSuccess = ''SUCCESS''"
definition JobResultWithRejections :: JobResult where "JobResultWithRejections = ''WITH_REJECTIONS''"

datatype AcquisitionResult = Acquired | AlreadyCompleted | Busy

type_synonym RejectionReason = string

definition RejectionMessageTooLarge :: RejectionReason where "RejectionMessageTooLarge = ''MESSAGE_TOO_LARGE''"
definition IgnoreMultiLineHeader :: RejectionReason where "IgnoreMultiLineHeader = ''MULTILINE_HEADER''"
definition IgnoreMultiLineTrailer :: RejectionReason where "IgnoreMultiLineTrailer = ''MULTILINE_TRAILER''"

record Counts =
  co_RecordsRead :: int64
  co_RecordsPublished :: int64
  co_RecordsRejected :: int64
  co_RecordsIgnored :: int64
  co_MessagesPublished :: int64
  co_SendMessageBatchCalls :: int64
  co_PhysicalLinesIgnored :: int64
  co_Reasons :: "(RejectionReason \<times> int64) list"
  co_CountsComplete :: bool

definition zero_Counts :: Counts where
  "zero_Counts = \<lparr>co_RecordsRead = 0, co_RecordsPublished = 0, co_RecordsRejected = 0,
     co_RecordsIgnored = 0, co_MessagesPublished = 0, co_SendMessageBatchCalls = 0,
     co_PhysicalLinesIgnored = 0, co_Reasons = [], co_CountsComplete = False\<rparr>"

record Rejection =
  rj_RecordID :: string
  rj_Reason :: RejectionReason
  rj_Detail :: string

record Receipt =
  rc_ReceiptID :: string
  rc_FileID :: string
  rc_Source :: ObjectIdentity
  rc_Environment :: string
  rc_ReceivedAt :: int
  rc_ConfigSnapshot :: ConfigurationSnapshot
  rc_PrefixID :: string

record JobPlan =
  jp_JobID :: string
  jp_FileID :: string
  jp_Bucket :: string
  jp_Key :: string
  jp_VersionID :: string
  jp_ETag :: string
  jp_FileSize :: int64
  jp_ExpectedChunks :: int
  jp_CreatedAt :: int
  jp_ConfigSnapshot :: ConfigurationSnapshot

record ChunkResult =
  cr_JobID :: string
  cr_ChunkID :: string
  cr_Attempt :: int
  cr_RecordsProduced :: int64
  cr_BytesProcessed :: int64
  cr_Error :: string
  cr_OccurredAt :: int
  cr_Counts :: Counts

subsection \<open>Completion events\<close>

definition CompletionEventVersion :: string where "CompletionEventVersion = ''f2e-completion/1''"

record CompletionSource =
  ce_SBucket :: string
  ce_SKey :: string
  ce_SVersionID :: string
  ce_SETag :: string
  ce_SFileSize :: int64

record CompletionConfig =
  ce_ConfigID :: string
  ce_ParameterName :: string
  ce_ParameterVersion :: int64

record CompletionCounts =
  ce_RecordsRead :: int64
  ce_RecordsPublished :: int64
  ce_RecordsRejected :: int64
  ce_RecordsIgnored :: int64
  ce_CountsComplete :: bool

record CompletionEvent =
  ce_SchemaVersion :: string
  ce_EventID :: string
  ce_JobID :: string
  ce_FileID :: string
  ce_PrefixID :: string
  ce_Source :: CompletionSource
  ce_Config :: CompletionConfig
  ce_Status :: JobStatus
  ce_Result :: JobResult
  ce_Counts :: CompletionCounts
  ce_ReceivedAt :: "int option"
  ce_CompletedAt :: int

record CompletionIntent =
  ci_JobID :: string
  ci_Version :: int64
  ci_Status :: JobStatus
  ci_Event :: CompletionEvent
  ci_CreatedAt :: int

text \<open>
  \<^verbatim>\<open>itoa64\<close>, the package's own decimal formatter: the loop prepends \<^verbatim>\<open>digits[n%10]\<close> while \<open>n\<close>
  is positive, so a negative number gives the empty string.
\<close>

function itoa64_loop :: "int \<Rightarrow> string \<Rightarrow> string" where
  "itoa64_loop n buf = (if n > 0 then itoa64_loop (n div 10) (digit_char (nat (n mod 10)) # buf) else buf)"
  by pat_completeness auto
termination
  by (relation "measure (\<lambda>(n, buf). nat n)") auto

declare itoa64_loop.simps [simp del]

definition itoa64 :: "int64 \<Rightarrow> string" where
  "itoa64 n = (if n = 0 then ''0'' else itoa64_loop n [])"

definition CompletionEventID :: "string \<Rightarrow> int64 \<Rightarrow> string" where
  "CompletionEventID jobID version = sha256_hex (jobID @ ''/completion/'' @ itoa64 version)"

lemma itoa64_loop_append: "0 < n \<Longrightarrow> itoa64_loop n buf = dec_nat (nat n) @ buf"
proof (induction n buf rule: itoa64_loop.induct)
  case (1 n buf)
  let ?c = "digit_char (nat (n mod 10))"
  have m: "nat (n mod 10) = nat n mod 10" "nat (n div 10) = nat n div 10"
    using "1.prems" by (simp_all add: nat_mod_distrib nat_div_distrib)
  show ?case
  proof (cases "n < 10")
    case True
    with "1.prems" show ?thesis
      by (simp add: itoa64_loop.simps [of n] itoa64_loop.simps [of 0] dec_nat.simps [of "nat n"])
  next
    case False
    then have "0 < n div 10" by simp
    with "1.IH" "1.prems" have "itoa64_loop (n div 10) (?c # buf) = dec_nat (nat (n div 10)) @ ?c # buf"
      by simp
    with False "1.prems" m show ?thesis
      by (simp add: itoa64_loop.simps [of n] dec_nat.simps [of "nat n"])
  qed
qed

lemma itoa64_format: "0 \<le> n \<Longrightarrow> itoa64 n = format_int n"
  by (auto simp: itoa64_def format_int_def itoa64_loop_append dec_nat.simps [of 0])

lemma itoa64_negative: "n < 0 \<Longrightarrow> itoa64 n = []"
  by (simp add: itoa64_def itoa64_loop.simps)

end
