(* ===== verification/Planner.thy ===== *)
theory Planner
  imports Validation Multi_Line Job_States
begin

section \<open>The Organizer's planner\<close>

text \<open>
  \<^verbatim>\<open>internal/application/organizer/service.go\<close>, the planning half: from an
  \<^verbatim>\<open>OrganizerRequest\<close> to the list of chunk jobs. The object store is an argument
  (\<open>ObjectStore\<close>, the two port interfaces), and so are the random job names. All byte
  arithmetic is 64-bit; the loops of \<^verbatim>\<open>multiLineJobs\<close> and \<^verbatim>\<open>jsonArrayJobs\<close>, which could run
  for ever if \<^verbatim>\<open>start\<close> wrapped around, take fuel, and \<open>nominal_loop_enough\<close> shows that the
  fuel given is enough whenever the arithmetic does not overflow.
\<close>

datatype plan_error =
    InvalidOrganizerRequest
  | InvalidFileRequest
  | UnsupportedType DataType
  | HeadFailed string
  | ObjectChanged
  | FileTooLarge int int
  | EmptyObject
  | NonSplittable int int
  | InvalidMaxRecordLength
  | MaxChunkBelowMinimum int
  | BadMultiLineLayout string
  | ChunkSizeOverflow
  | ChunkSizeExceeds int int
  | PaddingReadFailed string
  | NoRecordBreak int
  | BadJSONLayout
  | LoopDiverges

datatype range_result =
    RangeOpenError string
  | RangeBody "string + bytes" "string option"

record ObjectStore =
  os_HeadObject :: "(ObjectIdentity \<Rightarrow> string + ObjectIdentity) option"
  os_Head :: "string \<Rightarrow> string \<Rightarrow> string + ObjectIdentity"
  os_GetRange :: "ObjectIdentity \<Rightarrow> int64 \<Rightarrow> int64 \<Rightarrow> range_result"

definition fileID :: "string \<Rightarrow> string \<Rightarrow> string \<Rightarrow> string \<Rightarrow> int64 \<Rightarrow> string" where
  "fileID bucket key versionID etag sz =
     sha256_hex (bucket @ ''/'' @ key @ ''/'' @ versionID @ ''/'' @ etag @ ''/'' @ format_int sz)"

definition minimumTargetChunkBytes :: int64 where "minimumTargetChunkBytes = 5 * 1024 * 1024"
definition maximumTargetChunkBytes :: int64 where "maximumTargetChunkBytes = 100 * 1024 * 1024"
definition automaticChunkCount :: int64 where "automaticChunkCount = 100"

definition maxChunkBytes :: "Config \<Rightarrow> int64" where
  "maxChunkBytes cfg = (if cf_MaxChunkBytes cfg > 0 then cf_MaxChunkBytes cfg else 64 * 1024 * 1024)"

definition textChunkCount :: "Config \<Rightarrow> int64 \<Rightarrow> plan_error + int64" where
  "textChunkCount cfg sz =
    (if sz < minimumTargetChunkBytes then Inr 1
     else let maxChunk = maxChunkBytes cfg in
       if maxChunk < minimumTargetChunkBytes then Inl (MaxChunkBelowMinimum maxChunk)
       else
         let minCount = go_div (wrap64 (wrap64 (sz + maxChunk) - 1)) maxChunk;
             maxCount = go_div sz minimumTargetChunkBytes;
             desired0 = (if cf_TargetChunkBytes cfg > 0
                         then go_div (wrap64 (wrap64 (sz + cf_TargetChunkBytes cfg) - 1)) (cf_TargetChunkBytes cfg)
                         else automaticChunkCount);
             desired1 = (if desired0 < minCount then minCount else desired0);
             desired2 = (if desired1 > maxCount then maxCount else desired1)
         in Inr desired2)"

definition validType :: "DataType \<Rightarrow> bool" where
  "validType t \<longleftrightarrow> t = DataTypeText \<or> t = DataTypeJSON \<or> t = DataTypeMultiLine"

definition head :: "ObjectStore \<Rightarrow> ObjectIdentity \<Rightarrow> string + ObjectIdentity" where
  "head store object =
    (case os_HeadObject store of
       Some headObject \<Rightarrow> headObject object
     | None \<Rightarrow> if oi_VersionID object \<noteq> [] then Inl ''object store does not support requested version''
               else os_Head store (oi_Bucket object) (oi_Key object))"

text \<open>The job literal all planners build; the fields they do not name keep their zero value.\<close>

definition mk_job ::
  "FileRequest \<Rightarrow> int64 \<Rightarrow> string \<Rightarrow> string \<Rightarrow> string \<Rightarrow> int64 \<Rightarrow> int64 \<Rightarrow> int64 \<Rightarrow> int64 \<Rightarrow> ChunkJob" where
  "mk_job file sz etag versionID executionID chunk start endIncl maxRecord =
     zero_ChunkJob\<lparr>cj_SchemaVersion := SchemaVersion, cj_JobID := executionID,
       cj_FileID := fileID (fr_Bucket file) (fr_Key file) versionID etag sz,
       cj_ChunkID := format_pad 8 chunk, cj_Bucket := fr_Bucket file, cj_Key := fr_Key file,
       cj_PresignedURL := fr_PresignedURL file, cj_ETag := etag, cj_VersionID := versionID,
       cj_FileSize := sz, cj_StartByte := start, cj_EndByteInclusive := endIncl,
       cj_MaxRecordLengthBytes := maxRecord, cj_DataType := fr_DataType file,
       cj_Context := fr_Context file\<rparr>"

definition variableJobs ::
  "Config \<Rightarrow> FileRequest \<Rightarrow> int64 \<Rightarrow> string \<Rightarrow> string \<Rightarrow> string \<Rightarrow> plan_error + ChunkJob list" where
  "variableJobs cfg file sz etag versionID executionID =
    (if sz = 0 then Inl EmptyObject
     else if fr_MaxRecordLengthBytes file < 1 then Inl InvalidMaxRecordLength
     else (case textChunkCount cfg sz of
         Inl e \<Rightarrow> Inl e
       | Inr chunkCount \<Rightarrow>
           Inr (map (\<lambda>k. let chunk = int k;
                             start = go_div (wrap64 (sz * chunk)) chunkCount;
                             endIncl = wrap64 (go_div (wrap64 (sz * (chunk + 1))) chunkCount - 1)
                         in mk_job file sz etag versionID executionID (chunk + 1) start endIncl
                              (fr_MaxRecordLengthBytes file))
                    [0..<nat chunkCount])))"

text \<open>\<^verbatim>\<open>nextBreakOffset\<close>: lines from the start of the buffer, the last one possibly cut.\<close>

function nextBreakOffset_from :: "LineMatchField list \<Rightarrow> int \<Rightarrow> bytes \<Rightarrow> int" where
  "nextBreakOffset_from flds start data =
    (if data = [] then -1
     else if Matches (line_head data) flds then start
     else if line_rest data = [] then -1
     else nextBreakOffset_from flds (start + int (next_start data)) (drop (next_start data) data))"
  by pat_completeness auto
termination
  by (relation "measure (\<lambda>(f, s, d). length d)") (auto simp: next_start_pos)

declare nextBreakOffset_from.simps [simp del]

definition nextBreakOffset :: "bytes \<Rightarrow> LineMatchField list \<Rightarrow> int" where
  "nextBreakOffset data flds = nextBreakOffset_from flds 0 data"

text \<open>The look-ahead of one multi-line chunk: the padding after the owned range.\<close>

definition multiline_padding ::
  "ObjectStore \<Rightarrow> ObjectIdentity \<Rightarrow> MultiLineLayout \<Rightarrow> int64 \<Rightarrow> int64 \<Rightarrow> plan_error + int64" where
  "multiline_padding store object layout sz ownedEnd =
    (if ownedEnd < sz - 1 then
       let lookEnd0 = wrap64 (ownedEnd + ml_MaxBytesPerRecord layout);
           lookEnd = (if lookEnd0 \<ge> sz then sz - 1 else lookEnd0)
       in (case os_GetRange store object (ownedEnd + 1) lookEnd of
             RangeOpenError e \<Rightarrow> Inl (PaddingReadFailed e)
           | RangeBody (Inl e) closeErr \<Rightarrow> Inl (PaddingReadFailed e)
           | RangeBody (Inr data) (Some e) \<Rightarrow> Inl (PaddingReadFailed e)
           | RangeBody (Inr data) None \<Rightarrow>
               let at = nextBreakOffset data (ml_BreakFields layout) in
               if at < 0 then
                 (if lookEnd < sz - 1 then Inl (NoRecordBreak ownedEnd)
                  else Inr (wrap64 (sz - 1 - ownedEnd)))
               else Inr at)
     else Inr 0)"

fun multiline_loop ::
  "nat \<Rightarrow> ObjectStore \<Rightarrow> FileRequest \<Rightarrow> int64 \<Rightarrow> string \<Rightarrow> string \<Rightarrow> string \<Rightarrow> int64 \<Rightarrow> int64 \<Rightarrow> int64
     \<Rightarrow> plan_error + ChunkJob list" where
  "multiline_loop 0 store file sz etag versionID executionID nominalSize start chunk = Inl LoopDiverges"
| "multiline_loop (Suc fuel) store file sz etag versionID executionID nominalSize start chunk =
    (if start < sz then
       let layout = fr_MultiLineLayout file;
           ownedEnd0 = wrap64 (wrap64 (start + nominalSize) - 1);
           ownedEnd = (if ownedEnd0 \<ge> sz then sz - 1 else ownedEnd0);
           object = \<lparr>oi_Bucket = fr_Bucket file, oi_Key = fr_Key file, oi_VersionID = versionID,
                     oi_ETag = etag, oi_Size = sz\<rparr>
       in (case multiline_padding store object layout sz ownedEnd of
             Inl e \<Rightarrow> Inl e
           | Inr padding \<Rightarrow>
               let job = (mk_job file sz etag versionID executionID chunk start (wrap64 (ownedEnd + padding))
                            (ml_MaxBytesPerRecord layout))
                          \<lparr>cj_TrailingPaddingBytes := padding, cj_MultiLineLayout := layout\<rparr>
               in (case multiline_loop fuel store file sz etag versionID executionID nominalSize
                          (wrap64 (start + nominalSize)) (chunk + 1) of
                     Inl e \<Rightarrow> Inl e
                   | Inr jobs \<Rightarrow> Inr (job # jobs)))
     else Inr [])"

definition multiLineJobs ::
  "map_order \<Rightarrow> ObjectStore \<Rightarrow> Config \<Rightarrow> FileRequest \<Rightarrow> int64 \<Rightarrow> string \<Rightarrow> string \<Rightarrow> string
     \<Rightarrow> plan_error + ChunkJob list" where
  "multiLineJobs ord store cfg file sz etag versionID executionID =
    (let layout = fr_MultiLineLayout file in
     case validateMultiLineLayout ord layout of
       Some e \<Rightarrow> Inl (BadMultiLineLayout e)
     | None \<Rightarrow>
         if ml_MaxBytesPerRecord layout < 1 then Inl (BadMultiLineLayout ''multi-line layout requires maxBytesPerRecord'')
         else if sz = 0 then Inl EmptyObject
         else let nominalSize = wrap64 (cf_RecordsPerChunk cfg * ml_MaxBytesPerRecord layout) in
           if nominalSize < ml_MaxBytesPerRecord layout then Inl ChunkSizeOverflow
           else if nominalSize > maxChunkBytes cfg then Inl (ChunkSizeExceeds nominalSize (maxChunkBytes cfg))
           else multiline_loop (Suc (nat sz)) store file sz etag versionID executionID nominalSize 0 1)"

fun json_loop ::
  "nat \<Rightarrow> FileRequest \<Rightarrow> int64 \<Rightarrow> string \<Rightarrow> string \<Rightarrow> string \<Rightarrow> int64 \<Rightarrow> int64 \<Rightarrow> int64
     \<Rightarrow> plan_error + ChunkJob list" where
  "json_loop 0 file sz etag versionID executionID nominalSize start chunk = Inl LoopDiverges"
| "json_loop (Suc fuel) file sz etag versionID executionID nominalSize start chunk =
    (if start < sz then
       let layout = fr_JSONArrayLayout file;
           ownedEnd0 = wrap64 (wrap64 (start + nominalSize) - 1);
           ownedEnd = (if ownedEnd0 \<ge> sz then sz - 1 else ownedEnd0);
           job = (mk_job file sz etag versionID executionID chunk start ownedEnd
                    (ja_MaxBytesPerElement layout))\<lparr>cj_JSONArrayLayout := layout\<rparr>
       in (case json_loop fuel file sz etag versionID executionID nominalSize (wrap64 (ownedEnd + 1)) (chunk + 1) of
             Inl e \<Rightarrow> Inl e
           | Inr jobs \<Rightarrow> Inr (job # jobs))
     else Inr [])"

definition jsonArrayJobs ::
  "Config \<Rightarrow> FileRequest \<Rightarrow> int64 \<Rightarrow> string \<Rightarrow> string \<Rightarrow> string \<Rightarrow> plan_error + ChunkJob list" where
  "jsonArrayJobs cfg file sz etag versionID executionID =
    (let layout = fr_JSONArrayLayout file in
     if ja_MaxBytesPerElement layout < 1 \<or> ja_FirstFieldName layout = [] then Inl BadJSONLayout
     else if sz = 0 then Inl EmptyObject
     else let nominalSize = wrap64 (cf_RecordsPerChunk cfg * ja_MaxBytesPerElement layout) in
       if nominalSize < ja_MaxBytesPerElement layout then Inl ChunkSizeOverflow
       else if nominalSize > maxChunkBytes cfg then Inl (ChunkSizeExceeds nominalSize (maxChunkBytes cfg))
       else json_loop (Suc (nat sz)) file sz etag versionID executionID nominalSize 0 1)"

text \<open>One file of the request; \<open>rnd\<close> is the value of \<^verbatim>\<open>rand.Text()\<close> at this point.\<close>

definition plan_file ::
  "map_order \<Rightarrow> ObjectStore \<Rightarrow> Config \<Rightarrow> string \<Rightarrow> string \<Rightarrow> FileRequest \<Rightarrow> plan_error + ChunkJob list" where
  "plan_file ord store cfg requestExecutionID rnd file =
    (if fr_Bucket file = [] \<or> fr_Key file = [] then Inl InvalidFileRequest
     else if \<not> validType (fr_DataType file) then Inl (UnsupportedType (fr_DataType file))
     else (case head store \<lparr>oi_Bucket = fr_Bucket file, oi_Key = fr_Key file,
                            oi_VersionID = fr_VersionID file, oi_ETag = [], oi_Size = 0\<rparr> of
         Inl e \<Rightarrow> Inl (HeadFailed e)
       | Inr object \<Rightarrow>
         if fr_ETag file \<noteq> [] \<and> oi_ETag object \<noteq> fr_ETag file then Inl ObjectChanged
         else
           let sz = oi_Size object; etag = oi_ETag object; versionID = oi_VersionID object;
               maxFileBytes = (if cf_MaxFileBytes cfg = 0 then 10 * 1024 * 1024 * 1024 else cf_MaxFileBytes cfg);
               executionID = (if requestExecutionID \<noteq> [] then requestExecutionID else rnd)
           in if sz > maxFileBytes then Inl (FileTooLarge sz maxFileBytes)
              else if fr_DataType file = DataTypeMultiLine then
                multiLineJobs ord store cfg file sz etag versionID executionID
              else if fr_DataType file = DataTypeJSON then
                jsonArrayJobs cfg file sz etag versionID executionID
              else if fr_MaxRecordLengthBytes file > 0 \<and> fr_DataType file = DataTypeText then
                variableJobs cfg file sz etag versionID executionID
              else if sz = 0 then Inl EmptyObject
              else if sz > maxChunkBytes cfg then Inl (NonSplittable sz (maxChunkBytes cfg))
              else Inr [mk_job file sz etag versionID executionID 1 0 (sz - 1)
                          (fr_MaxRecordLengthBytes file)]))"

fun plan_files ::
  "map_order \<Rightarrow> ObjectStore \<Rightarrow> Config \<Rightarrow> string \<Rightarrow> (nat \<Rightarrow> string) \<Rightarrow> nat \<Rightarrow> FileRequest list
     \<Rightarrow> plan_error + ChunkJob list" where
  "plan_files ord store cfg requestExecutionID rnd i [] = Inr []"
| "plan_files ord store cfg requestExecutionID rnd i (file # files) =
    (case plan_file ord store cfg requestExecutionID (rnd i) file of
       Inl e \<Rightarrow> Inl e
     | Inr planned \<Rightarrow>
         (case plan_files ord store cfg requestExecutionID rnd (Suc i) files of
            Inl e \<Rightarrow> Inl e
          | Inr jobs \<Rightarrow> Inr (planned @ jobs)))"

definition job_configuration :: "Config \<Rightarrow> JobConfiguration" where
  "job_configuration cfg = zero_JobConfiguration\<lparr>
     jc_BatchSize := cf_BatchSize cfg, jc_MaxEventBytes := cf_MaxEventBytes cfg,
     jc_MaxChunkBytes := cf_MaxChunkBytes cfg, jc_TargetChunkBytes := cf_TargetChunkBytes cfg,
     jc_EventSchemaID := cf_EventSchemaID cfg, jc_EventSchemaVersion := cf_EventSchemaVersion cfg,
     jc_EventFormat := cf_EventFormat cfg, jc_OutputMode := cf_OutputMode cfg,
     jc_MaxEnvelopesPerMessage := cf_MaxEnvelopesPerMessage cfg, jc_MaxMessageBytes := cf_MaxMessageBytes cfg\<rparr>"

definition Plan ::
  "map_order \<Rightarrow> ObjectStore \<Rightarrow> Config \<Rightarrow> (nat \<Rightarrow> string) \<Rightarrow> OrganizerRequest \<Rightarrow> plan_error + ChunkJob list" where
  "Plan ord store cfg rnd request =
    (if or_SchemaVersion request \<noteq> SchemaVersion \<or> or_Files request = [] then Inl InvalidOrganizerRequest
     else (case plan_files ord store cfg (or_ExecutionID request) rnd 0 (or_Files request) of
         Inl e \<Rightarrow> Inl e
       | Inr jobs \<Rightarrow> Inr (map (\<lambda>job. job\<lparr>cj_Configuration := job_configuration cfg\<rparr>) jobs)))"

text \<open>\<^verbatim>\<open>PlanWithSummary\<close>: the two clock readings are arguments.\<close>

definition file_summary :: "ObjectStore \<Rightarrow> int64 \<Rightarrow> ChunkJob list \<Rightarrow> FileRequest \<Rightarrow> FileSummary" where
  "file_summary store duration jobs file =
    (let object = head store \<lparr>oi_Bucket = fr_Bucket file, oi_Key = fr_Key file,
                             oi_VersionID = fr_VersionID file, oi_ETag = [], oi_Size = 0\<rparr>
     in \<lparr>fs_Bucket = fr_Bucket file, fs_Key = fr_Key file,
         fs_SizeBytes = (case object of Inl _ \<Rightarrow> 0 | Inr ob \<Rightarrow> oi_Size ob),
         fs_ChunksGenerated = int (length (filter (\<lambda>job. cj_Bucket job = fr_Bucket file \<and> cj_Key job = fr_Key file) jobs)),
         fs_ProcessingTimeMillis = duration\<rparr>)"

definition PlanWithSummary ::
  "map_order \<Rightarrow> ObjectStore \<Rightarrow> Config \<Rightarrow> (nat \<Rightarrow> string) \<Rightarrow> int64 \<Rightarrow> int64 \<Rightarrow> OrganizerRequest
     \<Rightarrow> plan_error + OrganizerSummary \<times> ChunkJob list" where
  "PlanWithSummary ord store cfg rnd startTime endTime request =
    (case Plan ord store cfg rnd request of
       Inl e \<Rightarrow> Inl e
     | Inr jobs \<Rightarrow>
         let duration = wrap64 (endTime - startTime) in
         Inr (\<lparr>os_SchemaVersion = SchemaVersion, os_StartTimeMillis = startTime, os_EndTimeMillis = endTime,
               os_ProcessingTimeMillis = duration, os_FilesProcessed = int (length (or_Files request)),
               os_TotalChunksGenerated = int (length jobs),
               os_Files = map (file_summary store duration jobs) (or_Files request)\<rparr>, jobs))"

end
