(* ===== verification/Tiling.thy ===== *)
theory Tiling
  imports F2E_Prelude
begin

section \<open>Byte ranges that tile an object\<close>

text \<open>
  The contract between the planner and the Workers. A plan is a list of inclusive byte
  ranges; a Worker publishes the records that start inside its range. If the ranges tile
  the object, every record is published by exactly one chunk. The interface is a locale:
  the planners provide it (theory \<open>Planner_Props\<close>), the Worker's theorems use it.
\<close>

text \<open>\<open>tiles a b rs\<close>: the non-empty ranges \<open>rs\<close> follow each other from \<open>a\<close> to just before \<open>b\<close>.\<close>

fun tiles :: "int \<Rightarrow> int \<Rightarrow> (int \<times> int) list \<Rightarrow> bool" where
  "tiles a b [] \<longleftrightarrow> a = b"
| "tiles a b ((s, e) # rs) \<longleftrightarrow> s = a \<and> s \<le> e \<and> e < b \<and> tiles (e + 1) b rs"

definition in_range :: "int \<Rightarrow> int \<times> int \<Rightarrow> bool" where
  "in_range p r \<longleftrightarrow> fst r \<le> p \<and> p \<le> snd r"

definition range_len :: "int \<times> int \<Rightarrow> int" where
  "range_len r = snd r - fst r + 1"

lemma tiles_le: "tiles a b rs \<Longrightarrow> a \<le> b"
  by (induction a b rs rule: tiles.induct) auto

lemma tiles_append: "tiles a b rs \<Longrightarrow> tiles b c ss \<Longrightarrow> tiles a c (rs @ ss)"
  by (induction a b rs rule: tiles.induct) (auto dest: tiles_le)

lemma tiles_bounds: "tiles a b rs \<Longrightarrow> r \<in> set rs \<Longrightarrow> a \<le> fst r \<and> fst r \<le> snd r \<and> snd r < b"
  by (induction a b rs rule: tiles.induct) (auto dest: tiles_le)

lemma tiles_sum: "tiles a b rs \<Longrightarrow> sum_list (map range_len rs) = b - a"
  by (induction a b rs rule: tiles.induct) (auto simp: range_len_def)

lemma tiles_none_before: "tiles a b rs \<Longrightarrow> p < a \<Longrightarrow> filter (in_range p) rs = []"
  by (auto simp: filter_empty_conv in_range_def dest: tiles_bounds)

lemma tiles_once: "tiles a b rs \<Longrightarrow> a \<le> p \<Longrightarrow> p < b \<Longrightarrow> length (filter (in_range p) rs) = 1"
proof (induction a b rs rule: tiles.induct)
  case (2 a b s e rs)
  show ?case
  proof (cases "p \<le> e")
    case True
    with 2 have "in_range p (s, e)" "filter (in_range p) rs = []"
      using tiles_none_before [of "e + 1" b rs p] by (auto simp: in_range_def)
    then show ?thesis by simp
  next
    case False
    with 2 show ?thesis by (simp add: in_range_def)
  qed
qed simp

lemma tiles_step:
  assumes "\<And>k. k < m \<Longrightarrow> (f k :: int) < f (Suc k)"
  shows "tiles (f 0) (f m) (map (\<lambda>k. (f k, f (Suc k) - 1)) [0..<m])"
  using assms
proof (induction m)
  case (Suc m)
  then have "tiles (f 0) (f m) (map (\<lambda>k. (f k, f (Suc k) - 1)) [0..<m])" by simp
  moreover have "tiles (f m) (f (Suc m)) [(f m, f (Suc m) - 1)]" using Suc.prems [of m] by simp
  ultimately show ?case using tiles_append by fastforce
qed simp

text \<open>
  Selecting the members of a strictly increasing list range by range gives back the list:
  nothing is lost, nothing is duplicated, the order is kept.
\<close>

lemma tiles_partition:
  assumes "tiles a b rs" "sorted_wrt (\<lambda>x y. f x < (f y :: int)) xs" "\<forall>x\<in>set xs. a \<le> f x \<and> f x < b"
  shows "concat (map (\<lambda>r. filter (\<lambda>x. in_range (f x) r) xs) rs) = xs"
  using assms
proof (induction a b rs arbitrary: xs rule: tiles.induct)
  case (1 a b)
  then show ?case by (cases xs) auto
next
  case (2 a b s e rs)
  let ?low = "filter (\<lambda>x. f x \<le> e) xs" and ?high = "filter (\<lambda>x. e + 1 \<le> f x) xs"
  have split: "xs = ?low @ ?high"
    using "2.prems"(2)
  proof (induction xs)
    case (Cons x xs)
    show ?case
    proof (cases "f x \<le> e")
      case False
      with Cons.prems have "\<forall>y\<in>set xs. e < f y" by fastforce
      then have "filter (\<lambda>x. f x \<le> e) xs = []" "filter (\<lambda>x. e + 1 \<le> f x) xs = xs"
        by (auto simp: filter_empty_conv filter_id_conv)
      with False show ?thesis by simp
    qed (use Cons in auto)
  qed simp
  have rest: "filter (\<lambda>x. in_range (f x) r) xs = filter (\<lambda>x. in_range (f x) r) ?high" if "r \<in> set rs" for r
    using "2.prems"(1) that tiles_bounds [of "e + 1" b rs r] by (auto simp: in_range_def intro!: filter_cong)
  have first: "filter (\<lambda>x. in_range (f x) (s, e)) xs = ?low"
    using "2.prems" by (auto simp: in_range_def intro!: filter_cong)
  have "concat (map (\<lambda>r. filter (\<lambda>x. in_range (f x) r) ?high) rs) = ?high"
    using "2.prems" by (intro "2.IH") (auto intro: sorted_wrt_filter)
  then have "concat (map (\<lambda>r. filter (\<lambda>x. in_range (f x) r) xs) rs) = ?high"
    using rest by (simp cong: map_cong)
  with first split show ?case by simp
qed

subsection \<open>The interface of a planner\<close>

locale chunk_planner =
  fixes accepts :: "'c \<Rightarrow> int \<Rightarrow> bool"
    and ranges :: "'c \<Rightarrow> int \<Rightarrow> (int \<times> int) list"
  assumes tiling: "accepts c n \<Longrightarrow> tiles 0 n (ranges c n)"
begin

lemma covers_once: "accepts c n \<Longrightarrow> 0 \<le> p \<Longrightarrow> p < n \<Longrightarrow> length (filter (in_range p) (ranges c n)) = 1"
  using tiling tiles_once by blast

lemma total_bytes: "accepts c n \<Longrightarrow> sum_list (map range_len (ranges c n)) = n"
  using tiles_sum [OF tiling] by simp

lemma range_inside: "accepts c n \<Longrightarrow> r \<in> set (ranges c n) \<Longrightarrow> 0 \<le> fst r \<and> fst r \<le> snd r \<and> snd r < n"
  using tiles_bounds [OF tiling] by blast

lemma selects_all:
  "accepts c n \<Longrightarrow> sorted_wrt (\<lambda>x y. f x < f y) xs \<Longrightarrow> \<forall>x\<in>set xs. 0 \<le> f x \<and> f x < n
    \<Longrightarrow> concat (map (\<lambda>r. filter (\<lambda>x. in_range (f x) r) xs) (ranges c n)) = xs"
  using tiles_partition [OF tiling] by blast

end

text \<open>A planner that also keeps every range within a limit.\<close>

locale bounded_planner = chunk_planner accepts ranges
  for accepts :: "'c \<Rightarrow> int \<Rightarrow> bool" and ranges :: "'c \<Rightarrow> int \<Rightarrow> (int \<times> int) list" +
  fixes limit :: "'c \<Rightarrow> int"
  assumes bounded: "accepts c n \<Longrightarrow> r \<in> set (ranges c n) \<Longrightarrow> range_len r \<le> limit c"
begin

lemma enough_chunks: "accepts c n \<Longrightarrow> n \<le> limit c * int (length (ranges c n))"
proof -
  assume a: "accepts c n"
  then have "\<forall>r\<in>set (ranges c n). range_len r \<le> limit c" using bounded by blast
  then have "sum_list (map range_len (ranges c n)) \<le> limit c * int (length (ranges c n))"
    using sum_list_mono [of "ranges c n" range_len "\<lambda>_. limit c"]
    by (simp add: sum_list_triv mult.commute)
  with total_bytes [OF a] show ?thesis by simp
qed

end

end
