(* ===== verification/Planner_Props.thy ===== *)
theory Planner_Props
  imports Planner Tiling
begin

section \<open>The planners tile the object\<close>

text \<open>
  The three planners keep the contract of \<open>chunk_planner\<close>: text chunks are balanced and
  within the configured chunk size, multi-line and JSON chunks own fixed-size ranges. Here
  too: the bounds under which no 64-bit operation of the planners wraps, and the inputs for
  which a planned chunk exceeds the size the Worker accepts.
\<close>

text \<open>The range of record starts a Worker owns: the chunk without its trailing padding.\<close>

definition owned_range :: "ChunkJob \<Rightarrow> int \<times> int" where
  "owned_range j = (cj_StartByte j, wrap64 (cj_EndByteInclusive j - cj_TrailingPaddingBytes j))"

definition max_object_size :: int where
  "max_object_size = 5 * 1024 * 1024 * 1024 * 1024"

text \<open>Limits below $2^{62}$: sums of two of them and an object size do not wrap.\<close>

definition sane_config :: "Config \<Rightarrow> bool" where
  "sane_config cfg \<longleftrightarrow> cf_MaxChunkBytes cfg \<le> 2 ^ 62 \<and> cf_TargetChunkBytes cfg \<le> 2 ^ 62"

lemmas size_consts = max_object_size_def minimumTargetChunkBytes_def automaticChunkCount_def max_int64_def

subsection \<open>The number of text chunks\<close>

definition ceil_div :: "int \<Rightarrow> int \<Rightarrow> int" where
  "ceil_div a b = (a + b - 1) div b"

lemma ceil_div_ge: "0 < b \<Longrightarrow> a \<le> b * ceil_div a b"
proof -
  assume b: "0 < b"
  have "b * ((a + b - 1) div b) = a + b - 1 - (a + b - 1) mod b"
    by (simp add: minus_mod_eq_mult_div [symmetric])
  moreover have "(a + b - 1) mod b < b" using b by simp
  ultimately show ?thesis unfolding ceil_div_def by linarith
qed

lemma int_div_less: "0 < b \<Longrightarrow> a < k * b \<Longrightarrow> a div b < (k :: int)"
proof -
  assume b: "0 < b" and a: "a < k * b"
  have "b * (a div b) \<le> a" using b by (simp add: minus_mod_eq_mult_div [symmetric])
  with a have "b * (a div b) < b * k" by (simp add: mult.commute)
  with b show ?thesis by simp
qed

lemma ceil_div_pos: "0 < a \<Longrightarrow> 0 < b \<Longrightarrow> 1 \<le> ceil_div a b"
  using zdiv_mono1 [of b "a + b - 1" b] by (simp add: ceil_div_def)

lemma go_ceil: "0 \<le> a \<Longrightarrow> a \<le> max_object_size \<Longrightarrow> 0 < b \<Longrightarrow> b \<le> 2 ^ 62 \<Longrightarrow>
    go_div (wrap64 (wrap64 (a + b) - 1)) b = ceil_div a b"
  by (simp add: wrap64_nonneg go_div_nonneg ceil_div_def size_consts)

text \<open>The count is the desired one, raised to what the chunk limit needs, lowered to what 5 MiB allow.\<close>

lemma textChunkCount_eq:
  assumes "minimumTargetChunkBytes \<le> n" "n \<le> max_object_size" "sane_config cfg"
    and "minimumTargetChunkBytes \<le> maxChunkBytes cfg"
  shows "textChunkCount cfg n =
    Inr (min (max (if cf_TargetChunkBytes cfg > 0 then ceil_div n (cf_TargetChunkBytes cfg) else 100)
                  (ceil_div n (maxChunkBytes cfg)))
             (n div minimumTargetChunkBytes))"
proof -
  have n: "0 \<le> n" using assms(1) by (simp add: size_consts)
  have m: "0 < maxChunkBytes cfg" "maxChunkBytes cfg \<le> 2 ^ 62"
    using assms(3,4) by (auto simp: sane_config_def maxChunkBytes_def size_consts)
  have c1: "go_div (wrap64 (wrap64 (n + maxChunkBytes cfg) - 1)) (maxChunkBytes cfg) = ceil_div n (maxChunkBytes cfg)"
    using n assms(2) m by (rule go_ceil)
  have c2: "go_div (wrap64 (wrap64 (n + cf_TargetChunkBytes cfg) - 1)) (cf_TargetChunkBytes cfg)
            = ceil_div n (cf_TargetChunkBytes cfg)" if "0 < cf_TargetChunkBytes cfg"
    using n assms(2,3) that by (intro go_ceil) (auto simp: sane_config_def)
  have c3: "go_div n minimumTargetChunkBytes = n div minimumTargetChunkBytes"
    using n assms(2) by (intro go_div_nonneg) (auto simp: size_consts)
  show ?thesis
    using assms(1,4) c1 c2 c3
    by (auto simp: textChunkCount_def Let_def automaticChunkCount_def max_def min_def)
qed

lemma textChunkCount_bounds:
  assumes "textChunkCount cfg n = Inr c" "0 < n" "n \<le> max_object_size" "sane_config cfg"
  shows "1 \<le> c \<and> c \<le> n \<and> c \<le> max 1 (n div minimumTargetChunkBytes)"
proof (cases "n < minimumTargetChunkBytes")
  case True
  with assms show ?thesis by (simp add: textChunkCount_def)
next
  case False
  then have m: "minimumTargetChunkBytes \<le> maxChunkBytes cfg"
    using assms(1) by (auto simp: textChunkCount_def Let_def split: if_splits)
  have pos: "0 < maxChunkBytes cfg" using m by (simp add: size_consts)
  have q: "1 \<le> n div minimumTargetChunkBytes"
    using False by (simp add: size_consts)
  have "n div minimumTargetChunkBytes \<le> n"
    using zdiv_mono2 [of n 1 minimumTargetChunkBytes] assms(2) by (simp add: size_consts)
  moreover have "1 \<le> ceil_div n (maxChunkBytes cfg)" by (rule ceil_div_pos [OF assms(2) pos])
  ultimately show ?thesis
    using textChunkCount_eq [of n cfg] assms False m q by (auto simp: max_def min_def)
qed

lemma textChunkCount_limit:
  assumes "textChunkCount cfg n = Inr c" "minimumTargetChunkBytes \<le> n" "n \<le> max_object_size"
    and "sane_config cfg" "2 * minimumTargetChunkBytes \<le> maxChunkBytes cfg"
  shows "n \<le> c * maxChunkBytes cfg"
proof -
  let ?L = "maxChunkBytes cfg" and ?m = "minimumTargetChunkBytes"
  have L: "0 < ?L" and mL: "?m \<le> ?L" and m0: "0 < ?m" using assms(5) by (auto simp: size_consts)
  have "ceil_div n ?L \<le> n div ?m"
  proof (cases "n \<le> ?L")
    case True
    then have "ceil_div n ?L < 2"
      unfolding ceil_div_def using L by (intro int_div_less) auto
    then have "ceil_div n ?L \<le> 1" by simp
    also have "1 \<le> n div ?m" using assms(2) m0 by (simp add: pos_imp_zdiv_pos_iff int_one_le_iff_zero_less)
    finally show ?thesis .
  next
    case False
    have "ceil_div n ?L = (n - 1) div ?L + 1"
      using L div_add_self2 [of ?L "n - 1"] by (simp add: ceil_div_def algebra_simps)
    also have "(n - 1) div ?L \<le> (n - 1) div (2 * ?m)"
      using assms(2,5) m0 by (intro zdiv_mono2) auto
    also have "(n - 1) div (2 * ?m) + 1 \<le> n div ?m"
    proof -
      let ?q = "(n - 1) div (2 * ?m)"
      have "1 \<le> ?q" using False assms(5) m0 zdiv_mono1 [of "2 * ?m" "n - 1" "2 * ?m"] by simp
      moreover have "?q * (2 * ?m) \<le> n - 1"
        using m0 by (metis add_le_cancel_left div_mult_mod_eq le_add_same_cancel1 mult_pos_pos pos_mod_sign zero_less_numeral)
      ultimately have "(?q + 1) * ?m \<le> n"
        using m0 by (smt (verit, ccfv_SIG) distrib_right mult.assoc mult.commute mult_cancel_right1 mult_le_cancel_right)
      then have "(?q + 1) * ?m div ?m \<le> n div ?m" using m0 by (intro zdiv_mono1)
      with m0 show ?thesis by simp
    qed
    finally show ?thesis by simp
  qed
  then have "ceil_div n ?L \<le> c"
    using assms textChunkCount_eq [of n cfg] mL by (auto simp: max_def min_def split: if_splits)
  moreover have "n \<le> ?L * ceil_div n ?L" using L by (rule ceil_div_ge)
  ultimately show ?thesis
    using L by (metis mult.commute mult_le_cancel_left_pos order_trans)
qed

subsection \<open>Text chunks\<close>

definition balanced_start :: "int \<Rightarrow> int \<Rightarrow> nat \<Rightarrow> int" where
  "balanced_start n c k = n * int k div c"

lemma balanced_step:
  assumes "1 \<le> c" "c \<le> n"
  shows "balanced_start n c k < balanced_start n c (Suc k)"
proof -
  have "(n * int k + c) div c \<le> (n * int k + n) div c"
    using assms by (intro zdiv_mono1) auto
  moreover have "(n * int k + c) div c = n * int k div c + 1"
    using assms div_add_self2 [of c "n * int k"] by simp
  ultimately show ?thesis by (simp add: balanced_start_def distrib_left add.commute)
qed

lemma balanced_len:
  assumes "1 \<le> c" "n \<le> c * L"
  shows "balanced_start n c (Suc k) - balanced_start n c k \<le> L"
proof -
  have "(n * int k + n) div c \<le> (n * int k + c * L) div c"
    using assms by (intro zdiv_mono1) auto
  with assms show ?thesis by (simp add: balanced_start_def algebra_simps)
qed

text \<open>No product of the planner leaves 64 bits for an object S3 can hold.\<close>

lemma product_bound:
  assumes "0 < n" "n \<le> max_object_size" "1 \<le> c" "c \<le> max 1 (n div minimumTargetChunkBytes)" "0 \<le> k" "k \<le> c"
  shows "0 \<le> n * k \<and> n * k \<le> max_int64"
proof -
  have "n div minimumTargetChunkBytes \<le> max_object_size div minimumTargetChunkBytes"
    using assms(2) by (intro zdiv_mono1) (simp_all add: size_consts)
  then have "c \<le> 1048576" using assms(4) by (simp add: size_consts)
  with assms have "n * k \<le> max_object_size * 1048576"
    by (intro mult_mono) (auto simp: size_consts)
  also have "\<dots> \<le> max_int64" by (simp add: size_consts)
  finally show ?thesis using assms by simp
qed

lemma variableJobs_ranges:
  assumes "variableJobs cfg fl n etag ver ex = Inr jobs" "0 < n" "n \<le> max_object_size" "sane_config cfg"
  obtains c where "textChunkCount cfg n = Inr c" "1 \<le> c" "c \<le> n"
    and "map owned_range jobs = map (\<lambda>k. (balanced_start n c k, balanced_start n c (Suc k) - 1)) [0..<nat c]"
    and "map (\<lambda>j. (cj_StartByte j, cj_EndByteInclusive j)) jobs = map owned_range jobs"
proof -
  obtain c where c: "textChunkCount cfg n = Inr c"
    using assms(1) by (auto simp: variableJobs_def split: if_splits sum.splits)
  from textChunkCount_bounds [OF c assms(2-4)]
  have b: "1 \<le> c" "c \<le> n" "c \<le> max 1 (n div minimumTargetChunkBytes)" by auto
  have small: "0 \<le> balanced_start n c k \<and> balanced_start n c k \<le> n
      \<and> go_div (wrap64 (n * int k)) c = balanced_start n c k" if "int k \<le> c" for k
  proof -
    have p: "0 \<le> n * int k" "n * int k \<le> max_int64"
      using product_bound [OF assms(2,3) b(1,3), of "int k"] that by auto
    have "n * int k div c \<le> n * c div c" using b that assms(2) by (intro zdiv_mono1 mult_left_mono) auto
    moreover have "0 \<le> n * int k div c" using b p by (simp add: pos_imp_zdiv_nonneg_iff)
    ultimately show ?thesis using b p by (simp add: balanced_start_def wrap64_nonneg go_div_nonneg)
  qed
  have pos: "1 \<le> balanced_start n c (Suc k)" if "int k < c" for k
    using balanced_step [OF b(1,2), of k] small [of k] that by simp
  have w: "wrap64 (balanced_start n c (Suc k) - 1) = balanced_start n c (Suc k) - 1" if "int k < c" for k
    using pos [OF that] small [of "Suc k"] that assms(3) by (intro wrap64_nonneg) (auto simp: size_consts)
  have step: "int (Suc k) = int k + 1" for k by simp
  define mk where "mk k = mk_job fl n etag ver ex (int k + 1) (go_div (wrap64 (n * int k)) c)
      (wrap64 (go_div (wrap64 (n * (int k + 1))) c - 1)) (fr_MaxRecordLengthBytes fl)" for k
  have jobs: "jobs = map mk [0..<nat c]"
    using assms(1) c by (auto simp: variableJobs_def Let_def mk_def split: if_splits)
  have r: "cj_StartByte (mk k) = balanced_start n c k" "cj_EndByteInclusive (mk k) = balanced_start n c (Suc k) - 1"
      "cj_TrailingPaddingBytes (mk k) = 0" if "int k < c" for k
    using small [of k] small [of "Suc k"] w [OF that] that
    by (simp_all add: mk_def mk_job_def zero_records step [symmetric] del: of_nat_Suc)
  show ?thesis
  proof (rule that [OF c b(1,2)])
    show "map owned_range jobs = map (\<lambda>k. (balanced_start n c k, balanced_start n c (Suc k) - 1)) [0..<nat c]"
      unfolding jobs map_map by (intro map_cong) (auto simp: owned_range_def r w)
    show "map (\<lambda>j. (cj_StartByte j, cj_EndByteInclusive j)) jobs = map owned_range jobs"
      unfolding jobs map_map by (intro map_cong) (auto simp: owned_range_def r w)
  qed
qed

text \<open>The arguments of a planner besides the object size.\<close>

type_synonym plan_args = "Config \<times> FileRequest \<times> string \<times> string \<times> string"

definition text_plan :: "plan_args \<Rightarrow> int \<Rightarrow> plan_error + ChunkJob list" where
  "text_plan a n = (case a of (cfg, file, etag, ver, ex) \<Rightarrow> variableJobs cfg file n etag ver ex)"

definition plan_ranges :: "plan_error + ChunkJob list \<Rightarrow> (int \<times> int) list" where
  "plan_ranges r = (case r of Inr jobs \<Rightarrow> map owned_range jobs | Inl _ \<Rightarrow> [])"

definition accepted :: "plan_error + ChunkJob list \<Rightarrow> bool" where
  "accepted r = (case r of Inr _ \<Rightarrow> True | Inl _ \<Rightarrow> False)"

definition text_accepts :: "plan_args \<Rightarrow> int \<Rightarrow> bool" where
  "text_accepts a n \<longleftrightarrow> accepted (text_plan a n) \<and> 0 < n \<and> n \<le> max_object_size \<and> sane_config (fst a)"

definition text_accepts_bounded :: "plan_args \<Rightarrow> int \<Rightarrow> bool" where
  "text_accepts_bounded a n \<longleftrightarrow> text_accepts a n \<and> 2 * minimumTargetChunkBytes \<le> maxChunkBytes (fst a)"

lemma text_acceptsE:
  assumes "text_accepts a n"
  obtains cfg fl etag ver ex jobs where "a = (cfg, fl, etag, ver, ex)"
    "variableJobs cfg fl n etag ver ex = Inr jobs" "0 < n" "n \<le> max_object_size" "sane_config cfg"
    "plan_ranges (text_plan a n) = map owned_range jobs"
  using assms that
  by (cases a) (auto simp: text_accepts_def accepted_def text_plan_def plan_ranges_def split: sum.splits)

lemma text_tiles: "text_accepts a n \<Longrightarrow> tiles 0 n (plan_ranges (text_plan a n))"
proof (elim text_acceptsE)
  fix cfg fl etag ver ex jobs
  assume *: "variableJobs cfg fl n etag ver ex = Inr jobs" "0 < n" "n \<le> max_object_size" "sane_config cfg"
    and r: "plan_ranges (text_plan a n) = map owned_range jobs"
  obtain c where "textChunkCount cfg n = Inr c" and c: "1 \<le> c" "c \<le> n"
    "map owned_range jobs = map (\<lambda>k. (balanced_start n c k, balanced_start n c (Suc k) - 1)) [0..<nat c]"
    and "map (\<lambda>j. (cj_StartByte j, cj_EndByteInclusive j)) jobs = map owned_range jobs"
    by (rule variableJobs_ranges [OF *])
  have "tiles (balanced_start n c 0) (balanced_start n c (nat c)) (map owned_range jobs)"
    unfolding c(3) by (rule tiles_step) (rule balanced_step [OF c(1,2)])
  with c r show ?thesis by (simp add: balanced_start_def)
qed

lemma text_bounded:
  assumes "text_accepts_bounded a n" "r \<in> set (plan_ranges (text_plan a n))"
  shows "range_len r \<le> maxChunkBytes (fst a)"
proof -
  from assms(1) have acc: "text_accepts a n" and big: "2 * minimumTargetChunkBytes \<le> maxChunkBytes (fst a)"
    by (auto simp: text_accepts_bounded_def)
  from acc obtain cfg fl etag ver ex jobs where *: "a = (cfg, fl, etag, ver, ex)"
    "variableJobs cfg fl n etag ver ex = Inr jobs" "0 < n" "n \<le> max_object_size" "sane_config cfg"
    "plan_ranges (text_plan a n) = map owned_range jobs" by (rule text_acceptsE)
  obtain c where c: "textChunkCount cfg n = Inr c" "1 \<le> c" and "c \<le> n"
    and ranges: "map owned_range jobs = map (\<lambda>k. (balanced_start n c k, balanced_start n c (Suc k) - 1)) [0..<nat c]"
    and "map (\<lambda>j. (cj_StartByte j, cj_EndByteInclusive j)) jobs = map owned_range jobs"
    by (rule variableJobs_ranges [OF *(2-5)])
  have "n \<le> c * maxChunkBytes cfg"
  proof (cases "n < minimumTargetChunkBytes")
    case True
    with c(1) have "c = 1" by (simp add: textChunkCount_def)
    with True big * show ?thesis by (simp add: size_consts)
  next
    case False
    with textChunkCount_limit [OF c(1)] * big show ?thesis by simp
  qed
  with balanced_len [OF c(2)] assms(2) *(6) ranges * show ?thesis by (auto simp: range_len_def)
qed

interpretation text_planner: bounded_planner text_accepts_bounded "\<lambda>a n. plan_ranges (text_plan a n)" "\<lambda>a. maxChunkBytes (fst a)"
proof unfold_locales
  show "tiles 0 n (plan_ranges (text_plan a n))" if "text_accepts_bounded a n" for a n
    using that text_tiles by (simp add: text_accepts_bounded_def)
  show "range_len r \<le> maxChunkBytes (fst a)" if "text_accepts_bounded a n" "r \<in> set (plan_ranges (text_plan a n))" for a n r
    using that by (rule text_bounded)
qed


subsection \<open>Multi-line and JSON chunks: ranges of one fixed size\<close>

lemma wrap64_cancel: "wrap64 (wrap64 (a + p) - p) = wrap64 a"
proof -
  obtain k where "wrap64 (a + p) = a + p - k * 18446744073709551616" using wrap64_eq_minus by blast
  then have "wrap64 (a + p) - p + 9223372036854775808 = (a + 9223372036854775808) + (- k) * 18446744073709551616"
    by simp
  then show ?thesis unfolding wrap64_def [of "wrap64 (a + p) - p"] by (simp only: mod_mult_self1) (simp add: wrap64_def)
qed

text \<open>The end of the range of starts a fixed-size chunk owns.\<close>

lemma owned_end:
  assumes "1 \<le> N" "0 \<le> start" "start < n" "n + N \<le> max_int64"
  shows "wrap64 (start + N) = start + N"
    and "(if wrap64 (start + N - 1) \<ge> n then n - 1 else wrap64 (start + N - 1)) = min (start + N) n - 1"
  using assms by (auto simp: wrap64_nonneg)

lemma owned_range_padded:
  "0 \<le> e \<Longrightarrow> e \<le> max_int64 \<Longrightarrow>
   owned_range (mk_job fl n etag ver ex ch s (wrap64 (e + p)) m\<lparr>cj_TrailingPaddingBytes := p, cj_MultiLineLayout := l\<rparr>) = (s, e)"
  by (simp add: owned_range_def mk_job_def zero_records wrap64_cancel wrap64_nonneg)

lemma owned_range_exact:
  "0 \<le> e \<Longrightarrow> e \<le> max_int64 \<Longrightarrow>
   owned_range (mk_job fl n etag ver ex ch s e m\<lparr>cj_JSONArrayLayout := l\<rparr>) = (s, e)"
  by (simp add: owned_range_def mk_job_def zero_records wrap64_nonneg)

lemma multiline_loop_tiles:
  assumes "multiline_loop fuel store fl n etag ver ex N start ch = Inr jobs"
    and N: "1 \<le> N" "n + N \<le> max_int64" and "0 \<le> start"
  shows "tiles (min start n) n (map owned_range jobs) \<and> (\<forall>j\<in>set jobs. range_len (owned_range j) \<le> N)"
  using assms(1,4)
proof (induction fuel arbitrary: start ch jobs)
  case (Suc fuel)
  show ?case
  proof (cases "start < n")
    case False
    with Suc.prems show ?thesis by (simp add: min_def)
  next
    case True
    let ?E = "min (start + N) n - 1"
    obtain p js where js: "multiline_loop fuel store fl n etag ver ex N (start + N) (ch + 1) = Inr js"
      and jobs: "jobs = mk_job fl n etag ver ex ch start (wrap64 (?E + p)) (ml_MaxBytesPerRecord (fr_MultiLineLayout fl))
          \<lparr>cj_TrailingPaddingBytes := p, cj_MultiLineLayout := fr_MultiLineLayout fl\<rparr> # js"
      using Suc.prems(1) True unfolding multiline_loop.simps Let_def owned_end [OF N(1) Suc.prems(2) True N(2)]
      by (auto split: sum.splits)
    have E: "0 \<le> ?E" "?E \<le> max_int64" using True N Suc.prems(2) by auto
    have "tiles (min (start + N) n) n (map owned_range js) \<and> (\<forall>j\<in>set js. range_len (owned_range j) \<le> N)"
      using js N Suc.prems(2) by (intro Suc.IH) auto
    then show ?thesis
      using True N(1) by (auto simp: jobs owned_range_padded [OF E] range_len_def)
  qed
qed simp

lemma json_loop_tiles:
  assumes "json_loop fuel fl n etag ver ex N start ch = Inr jobs"
    and N: "1 \<le> N" "n + N \<le> max_int64" and "0 \<le> start" "start \<le> n"
  shows "tiles start n (map owned_range jobs) \<and> (\<forall>j\<in>set jobs. range_len (owned_range j) \<le> N)"
  using assms(1,4,5)
proof (induction fuel arbitrary: start ch jobs)
  case (Suc fuel)
  show ?case
  proof (cases "start < n")
    case False
    with Suc.prems show ?thesis by simp
  next
    case True
    let ?E = "min (start + N) n - 1"
    have E: "0 \<le> ?E" "?E \<le> max_int64" using True N Suc.prems(2) by auto
    have w: "wrap64 (?E + 1) = min (start + N) n" using True N Suc.prems(2) by (simp add: wrap64_nonneg)
    obtain js where js: "json_loop fuel fl n etag ver ex N (min (start + N) n) (ch + 1) = Inr js"
      and jobs: "jobs = mk_job fl n etag ver ex ch start ?E (ja_MaxBytesPerElement (fr_JSONArrayLayout fl))
          \<lparr>cj_JSONArrayLayout := fr_JSONArrayLayout fl\<rparr> # js"
      using Suc.prems(1) True unfolding json_loop.simps Let_def owned_end [OF N(1) Suc.prems(2) True N(2)] w
      by (auto split: sum.splits)
    have "tiles (min (start + N) n) n (map owned_range js) \<and> (\<forall>j\<in>set js. range_len (owned_range j) \<le> N)"
      using js N Suc.prems(2) True by (intro Suc.IH) auto
    then show ?thesis
      using True N(1) by (auto simp: jobs owned_range_exact [OF E] range_len_def)
  qed
qed simp

text \<open>The loops end: each round advances, so one unit of fuel per byte is enough.\<close>

lemma padding_not_diverges: "multiline_padding store object layout n e \<noteq> Inl LoopDiverges"
  by (auto simp: multiline_padding_def Let_def split: range_result.splits sum.splits option.splits)

lemma nominal_loop_enough:
  assumes "1 \<le> N" "n + N \<le> max_int64" "0 \<le> start" "nat (n - start) < fuel"
  shows "multiline_loop fuel store fl n etag ver ex N start ch \<noteq> Inl LoopDiverges"
  using assms(3,4)
proof (induction fuel arbitrary: start ch)
  case (Suc fuel)
  show ?case
  proof (cases "start < n")
    case True
    have "multiline_loop fuel store fl n etag ver ex N (start + N) (ch + 1) \<noteq> Inl LoopDiverges"
      using Suc.prems assms(1) True by (intro Suc.IH) auto
    with True show ?thesis
      unfolding multiline_loop.simps Let_def owned_end [OF assms(1) Suc.prems(1) True assms(2)]
      using padding_not_diverges by (auto split: sum.splits)
  qed simp
qed simp

lemma json_loop_enough:
  assumes "1 \<le> N" "n + N \<le> max_int64" "0 \<le> start" "nat (n - start) < fuel"
  shows "json_loop fuel fl n etag ver ex N start ch \<noteq> Inl LoopDiverges"
  using assms(3,4)
proof (induction fuel arbitrary: start ch)
  case (Suc fuel)
  show ?case
  proof (cases "start < n")
    case True
    have w: "wrap64 (min (start + N) n - 1 + 1) = min (start + N) n"
      using True assms Suc.prems by (simp add: wrap64_nonneg)
    have "json_loop fuel fl n etag ver ex N (min (start + N) n) (ch + 1) \<noteq> Inl LoopDiverges"
      using Suc.prems assms(1) True by (intro Suc.IH) auto
    with True show ?thesis
      unfolding json_loop.simps Let_def owned_end [OF assms(1) Suc.prems(1) True assms(2)] w
      by (auto split: sum.splits)
  qed simp
qed simp

subsection \<open>The two planners as chunk planners\<close>

definition ml_plan :: "map_order \<times> ObjectStore \<times> plan_args \<Rightarrow> int \<Rightarrow> plan_error + ChunkJob list" where
  "ml_plan a n = (case a of (ord, store, cfg, fl, etag, ver, ex) \<Rightarrow> multiLineJobs ord store cfg fl n etag ver ex)"

definition json_plan :: "plan_args \<Rightarrow> int \<Rightarrow> plan_error + ChunkJob list" where
  "json_plan a n = (case a of (cfg, fl, etag, ver, ex) \<Rightarrow> jsonArrayJobs cfg fl n etag ver ex)"

definition ml_accepts :: "map_order \<times> ObjectStore \<times> plan_args \<Rightarrow> int \<Rightarrow> bool" where
  "ml_accepts a n \<longleftrightarrow> accepted (ml_plan a n) \<and> 0 < n \<and> n \<le> max_object_size \<and> sane_config (fst (snd (snd a)))"

definition json_accepts :: "plan_args \<Rightarrow> int \<Rightarrow> bool" where
  "json_accepts a n \<longleftrightarrow> accepted (json_plan a n) \<and> 0 < n \<and> n \<le> max_object_size \<and> sane_config (fst a)"

lemma sane_sum: "sane_config cfg \<Longrightarrow> n \<le> max_object_size \<Longrightarrow> N \<le> maxChunkBytes cfg \<Longrightarrow> n + N \<le> max_int64"
  by (auto simp: sane_config_def maxChunkBytes_def size_consts split: if_splits)

lemma ml_plan_ranges:
  assumes "ml_accepts a n"
  shows "tiles 0 n (plan_ranges (ml_plan a n))
    \<and> (\<forall>r\<in>set (plan_ranges (ml_plan a n)). range_len r \<le> maxChunkBytes (fst (snd (snd a))))"
proof -
  obtain ord store cfg fl etag ver ex where a: "a = (ord, store, cfg, fl, etag, ver, ex)"
    by (cases a) auto
  let ?N = "wrap64 (cf_RecordsPerChunk cfg * ml_MaxBytesPerRecord (fr_MultiLineLayout fl))"
  obtain jobs where jobs: "multiLineJobs ord store cfg fl n etag ver ex = Inr jobs"
    and n: "0 < n" "n \<le> max_object_size" "sane_config cfg" "ml_plan a n = Inr jobs"
    using assms by (auto simp: a ml_accepts_def ml_plan_def accepted_def split: sum.splits)
  then have l: "multiline_loop (Suc (nat n)) store fl n etag ver ex ?N 0 1 = Inr jobs"
    and N: "1 \<le> ?N" "?N \<le> maxChunkBytes cfg"
    by (auto simp: multiLineJobs_def Let_def simp del: multiline_loop.simps split: if_splits option.splits)
  from multiline_loop_tiles [OF l N(1) sane_sum [OF n(3,2) N(2)]] n N(2) show ?thesis
    by (fastforce simp: a plan_ranges_def)
qed

lemma json_plan_ranges:
  assumes "json_accepts a n"
  shows "tiles 0 n (plan_ranges (json_plan a n))
    \<and> (\<forall>r\<in>set (plan_ranges (json_plan a n)). range_len r \<le> maxChunkBytes (fst a))"
proof -
  obtain cfg fl etag ver ex where a: "a = (cfg, fl, etag, ver, ex)"
    by (cases a) auto
  let ?N = "wrap64 (cf_RecordsPerChunk cfg * ja_MaxBytesPerElement (fr_JSONArrayLayout fl))"
  obtain jobs where jobs: "jsonArrayJobs cfg fl n etag ver ex = Inr jobs"
    and n: "0 < n" "n \<le> max_object_size" "sane_config cfg" "json_plan a n = Inr jobs"
    using assms by (auto simp: a json_accepts_def json_plan_def accepted_def split: sum.splits)
  then have l: "json_loop (Suc (nat n)) fl n etag ver ex ?N 0 1 = Inr jobs"
    and N: "1 \<le> ?N" "?N \<le> maxChunkBytes cfg"
    by (auto simp: jsonArrayJobs_def Let_def simp del: json_loop.simps split: if_splits)
  from json_loop_tiles [OF l N(1) sane_sum [OF n(3,2) N(2)]] n N(2) show ?thesis
    by (fastforce simp: a plan_ranges_def)
qed

interpretation ml_planner: bounded_planner ml_accepts "\<lambda>a n. plan_ranges (ml_plan a n)"
  "\<lambda>a. maxChunkBytes (fst (snd (snd a)))"
  by unfold_locales (use ml_plan_ranges in blast)+

interpretation json_planner: bounded_planner json_accepts "\<lambda>a n. plan_ranges (json_plan a n)"
  "\<lambda>a. maxChunkBytes (fst a)"
  by unfold_locales (use json_plan_ranges in blast)+

end
