(* ===== verification/Planner_Guarantees.thy ===== *)
theory Planner_Guarantees
  imports Planner_Props
begin

section \<open>Planning returns, and its chunks cover the object\<close>

text \<open>
  The three planners behind the dispatch of \<^verbatim>\<open>Plan\<close>: for any file of a request, whatever its type,
  planning ends, and when it succeeds every byte of the object belongs to exactly one chunk.
\<close>

definition object_of :: "ObjectStore \<Rightarrow> FileRequest \<Rightarrow> string + ObjectIdentity" where
  "object_of store f = head store \<lparr>oi_Bucket = fr_Bucket f, oi_Key = fr_Key f, oi_VersionID = fr_VersionID f,
     oi_ETag = [], oi_Size = 0\<rparr>"

text \<open>The planner \<^verbatim>\<open>Plan\<close> chooses for an object.\<close>

definition file_jobs ::
  "map_order \<Rightarrow> ObjectStore \<Rightarrow> Config \<Rightarrow> string \<Rightarrow> FileRequest \<Rightarrow> ObjectIdentity \<Rightarrow> plan_error + ChunkJob list" where
  "file_jobs ord store cfg ex f object =
    (let sz = oi_Size object; etag = oi_ETag object; ver = oi_VersionID object in
     if fr_DataType f = DataTypeMultiLine then multiLineJobs ord store cfg f sz etag ver ex
     else if fr_DataType f = DataTypeJSON then jsonArrayJobs cfg f sz etag ver ex
     else if fr_MaxRecordLengthBytes f > 0 \<and> fr_DataType f = DataTypeText then variableJobs cfg f sz etag ver ex
     else if sz = 0 then Inl EmptyObject
     else if sz > maxChunkBytes cfg then Inl (NonSplittable sz (maxChunkBytes cfg))
     else Inr [mk_job f sz etag ver ex 1 0 (sz - 1) (fr_MaxRecordLengthBytes f)])"

lemma plan_file_dispatch:
  "plan_file ord store cfg ex rnd f =
    (if fr_Bucket f = [] \<or> fr_Key f = [] then Inl InvalidFileRequest
     else if \<not> validType (fr_DataType f) then Inl (UnsupportedType (fr_DataType f))
     else (case object_of store f of
         Inl e \<Rightarrow> Inl (HeadFailed e)
       | Inr object \<Rightarrow>
           if fr_ETag f \<noteq> [] \<and> oi_ETag object \<noteq> fr_ETag f then Inl ObjectChanged
           else let m = (if cf_MaxFileBytes cfg = 0 then 10 * 1024 * 1024 * 1024 else cf_MaxFileBytes cfg) in
             if oi_Size object > m then Inl (FileTooLarge (oi_Size object) m)
             else file_jobs ord store cfg (if ex \<noteq> [] then ex else rnd) f object))"
  unfolding plan_file_def object_of_def file_jobs_def Let_def by (rule refl)

subsection \<open>Termination\<close>

lemma nominal_positive:
  assumes "N = wrap64 m" "1 \<le> r" "\<not> N < r" "\<not> N > maxChunkBytes cfg" "sane_config cfg" "n \<le> max_object_size"
  shows "1 \<le> N" "n + N \<le> max_int64"
  using assms sane_sum [of cfg n N] by auto

lemma multiLineJobs_returns:
  assumes "sane_config cfg" "n \<le> max_object_size"
  shows "multiLineJobs ord store cfg f n etag ver ex \<noteq> Inl LoopDiverges"
proof -
  let ?N = "wrap64 (cf_RecordsPerChunk cfg * ml_MaxBytesPerRecord (fr_MultiLineLayout f))"
  have "multiline_loop (Suc (nat n)) store f n etag ver ex ?N 0 1 \<noteq> Inl LoopDiverges"
    if "\<not> ml_MaxBytesPerRecord (fr_MultiLineLayout f) < 1" "\<not> ?N < ml_MaxBytesPerRecord (fr_MultiLineLayout f)" "\<not> ?N > maxChunkBytes cfg"
    by (rule nominal_loop_enough [OF nominal_positive [OF refl _ that(2,3) assms]]) (use that(1) in simp_all)
  then show ?thesis
    by (auto simp: multiLineJobs_def Let_def simp del: multiline_loop.simps split: option.splits)
qed

lemma jsonArrayJobs_returns:
  assumes "sane_config cfg" "n \<le> max_object_size"
  shows "jsonArrayJobs cfg f n etag ver ex \<noteq> Inl LoopDiverges"
proof -
  let ?N = "wrap64 (cf_RecordsPerChunk cfg * ja_MaxBytesPerElement (fr_JSONArrayLayout f))"
  have "json_loop (Suc (nat n)) f n etag ver ex ?N 0 1 \<noteq> Inl LoopDiverges"
    if "\<not> ja_MaxBytesPerElement (fr_JSONArrayLayout f) < 1" "\<not> ?N < ja_MaxBytesPerElement (fr_JSONArrayLayout f)" "\<not> ?N > maxChunkBytes cfg"
    by (rule json_loop_enough [OF nominal_positive [OF refl _ that(2,3) assms]]) (use that(1) in simp_all)
  then show ?thesis
    by (auto simp: jsonArrayJobs_def Let_def simp del: json_loop.simps)
qed

lemma file_jobs_returns:
  assumes "sane_config cfg" "oi_Size object \<le> max_object_size"
  shows "file_jobs ord store cfg ex f object \<noteq> Inl LoopDiverges"
  using multiLineJobs_returns [OF assms] jsonArrayJobs_returns [OF assms]
  by (auto simp: file_jobs_def variableJobs_def textChunkCount_def Let_def split: sum.splits if_splits)

lemma plan_file_returns:
  assumes "sane_config cfg" "\<And>object. object_of store f = Inr object \<Longrightarrow> oi_Size object \<le> max_object_size"
  shows "plan_file ord store cfg ex rnd f \<noteq> Inl LoopDiverges"
proof (cases "object_of store f")
  case (Inr object)
  from file_jobs_returns [OF assms(1) assms(2) [OF Inr]] Inr show ?thesis by (simp add: plan_file_dispatch Let_def)
qed (simp add: plan_file_dispatch)

lemma plan_files_returns:
  assumes "sane_config cfg"
  shows "\<forall>f\<in>set fs. \<forall>object. object_of store f = Inr object \<longrightarrow> oi_Size object \<le> max_object_size
    \<Longrightarrow> plan_files ord store cfg ex rnd i fs \<noteq> Inl LoopDiverges"
proof (induction fs arbitrary: i)
  case (Cons f fs)
  have "plan_file ord store cfg ex (rnd i) f \<noteq> Inl LoopDiverges"
    by (rule plan_file_returns [OF assms]) (use Cons.prems in simp)
  with Cons.IH [of "Suc i"] Cons.prems show ?case by (auto split: sum.splits)
qed simp

text \<open>
  C20. Planning returns: with limits below $2^{62}$ and objects of at most 5 TiB, the largest S3
  stores, the loops that cut multi-line and JSON objects never run for ever, whatever the record
  sizes, types and layouts of the request are. Each round moves the start forward, so the object's
  size bounds the number of rounds; the guard against an overflowing chunk size is what this needs.
\<close>

theorem planning_returns:
  assumes "sane_config cfg"
    and "\<forall>f\<in>set (or_Files request). \<forall>object. object_of store f = Inr object \<longrightarrow> oi_Size object \<le> max_object_size"
  shows "Plan ord store cfg rnd request \<noteq> Inl LoopDiverges"
  using plan_files_returns [OF assms] by (auto simp: Plan_def split: sum.splits)

text \<open>A JSON object at the size limit, cut into chunks of one element each.\<close>

definition large_json :: FileRequest where
  "large_json = \<lparr>fr_Bucket = ''b'', fr_Key = ''k'', fr_VersionID = [], fr_ETag = [], fr_PresignedURL = [],
     fr_DataType = DataTypeJSON, fr_MaxRecordLengthBytes = 0, fr_MultiLineLayout = zero_MultiLineLayout,
     fr_JSONArrayLayout = \<lparr>ja_FirstFieldName = ''id'', ja_MaxBytesPerElement = 1\<rparr>, fr_Context = zero_CorporateContext\<rparr>"

definition sized_store :: "int64 \<Rightarrow> ObjectStore" where
  "sized_store n = \<lparr>os_HeadObject = None,
     os_Head = (\<lambda>b k. Inr \<lparr>oi_Bucket = b, oi_Key = k, oi_VersionID = [], oi_ETag = ''e'', oi_Size = n\<rparr>),
     os_GetRange = (\<lambda>_ _ _. RangeBody (Inr []) None)\<rparr>"

definition json_config :: Config where
  "json_config = zero_Config\<lparr>cf_RecordsPerChunk := 1, cf_MaxFileBytes := max_object_size\<rparr>"

theorem planning_returns_witness:
  "Plan (\<lambda>xs. xs) (sized_store max_object_size) json_config (\<lambda>_. ''x'')
     \<lparr>or_SchemaVersion = SchemaVersion, or_ExecutionID = ''x'', or_Files = [large_json]\<rparr> \<noteq> Inl LoopDiverges"
  by (rule planning_returns)
    (simp_all add: sane_config_def json_config_def zero_Config_def sized_store_def object_of_def head_def large_json_def)

subsection \<open>Coverage\<close>

lemma accepted_ranges: "r = Inr jobs \<Longrightarrow> accepted r \<and> plan_ranges r = map owned_range jobs"
  by (simp add: accepted_def plan_ranges_def)

lemma single_job_range: "0 < n \<Longrightarrow> n \<le> max_object_size \<Longrightarrow> owned_range (mk_job f n etag ver ex c 0 (n - 1) m) = (0, n - 1)"
  by (simp add: owned_range_def mk_job_def zero_records size_consts wrap64_nonneg)

lemma file_jobs_tile:
  assumes "file_jobs ord store cfg ex f object = Inr jobs" "sane_config cfg" "0 < oi_Size object" "oi_Size object \<le> max_object_size"
  shows "tiles 0 (oi_Size object) (map owned_range jobs)"
proof -
  let ?n = "oi_Size object" and ?e = "oi_ETag object" and ?v = "oi_VersionID object"
  have "multiLineJobs ord store cfg f ?n ?e ?v ex = Inr jobs \<or> jsonArrayJobs cfg f ?n ?e ?v ex = Inr jobs
      \<or> variableJobs cfg f ?n ?e ?v ex = Inr jobs \<or> jobs = [mk_job f ?n ?e ?v ex 1 0 (?n - 1) (fr_MaxRecordLengthBytes f)]"
    using assms(1) by (simp add: file_jobs_def Let_def split: if_splits)
  then consider (ml) "multiLineJobs ord store cfg f ?n ?e ?v ex = Inr jobs" | (json) "jsonArrayJobs cfg f ?n ?e ?v ex = Inr jobs"
    | (plain) "variableJobs cfg f ?n ?e ?v ex = Inr jobs"
    | (whole) "jobs = [mk_job f ?n ?e ?v ex 1 0 (?n - 1) (fr_MaxRecordLengthBytes f)]"
    by (elim disjE)
  then show ?thesis
  proof cases
    case ml
    then have p: "ml_plan (ord, store, cfg, f, ?e, ?v, ex) ?n = Inr jobs" by (simp add: ml_plan_def)
    then have "ml_accepts (ord, store, cfg, f, ?e, ?v, ex) ?n" using assms(2-4) by (simp add: ml_accepts_def accepted_def)
    from ml_plan_ranges [OF this] p show ?thesis by (simp add: plan_ranges_def)
  next
    case json
    then have p: "json_plan (cfg, f, ?e, ?v, ex) ?n = Inr jobs" by (simp add: json_plan_def)
    then have "json_accepts (cfg, f, ?e, ?v, ex) ?n" using assms(2-4) by (simp add: json_accepts_def accepted_def)
    from json_plan_ranges [OF this] p show ?thesis by (simp add: plan_ranges_def)
  next
    case plain
    then have p: "text_plan (cfg, f, ?e, ?v, ex) ?n = Inr jobs" by (simp add: text_plan_def)
    then have "text_accepts (cfg, f, ?e, ?v, ex) ?n" using assms(2-4) by (simp add: text_accepts_def accepted_def)
    from text_tiles [OF this] p show ?thesis by (simp add: plan_ranges_def)
  next
    case whole
    then show ?thesis using single_job_range [OF assms(3,4)] assms(3) by simp
  qed
qed

text \<open>
  C4. The chunks cover the object: when a file of a request is planned, whatever its type, then there
  is at least one chunk, and the ranges of record starts that the chunks own (the chunk without its look-ahead padding) are not
  empty, follow each other from the first byte to the last, and every byte of the object is in
  exactly one of them.
\<close>

theorem planned_chunks_cover_the_object:
  assumes "plan_file ord store cfg ex rnd f = Inr jobs" "sane_config cfg"
    and "object_of store f = Inr object" "0 < oi_Size object" "oi_Size object \<le> max_object_size"
  shows "jobs \<noteq> [] \<and> tiles 0 (oi_Size object) (map owned_range jobs)
    \<and> (\<forall>p. 0 \<le> p \<and> p < oi_Size object \<longrightarrow> length (filter (in_range p) (map owned_range jobs)) = 1)"
proof -
  have "file_jobs ord store cfg (if ex \<noteq> [] then ex else rnd) f object = Inr jobs"
    using assms(1,3) by (auto simp: plan_file_dispatch Let_def split: if_splits)
  from file_jobs_tile [OF this assms(2,4,5)] have t: "tiles 0 (oi_Size object) (map owned_range jobs)" .
  moreover have "jobs \<noteq> []" using t assms(4) by auto
  ultimately show ?thesis using tiles_once by blast
qed

lemma json_two_chunks:
  "\<exists>a b. plan_file (\<lambda>xs. xs) (sized_store 2) json_config ''x'' ''y'' large_json = Inr [a, b]"
  by (simp add: plan_file_def head_def sized_store_def large_json_def json_config_def zero_Config_def validType_def
      DataTypeText_def DataTypeMultiLine_def DataTypeJSON_def jsonArrayJobs_def Let_def maxChunkBytes_def max_object_size_def
      numeral_3_eq_3 wrap64_nonneg max_int64_def)

theorem planned_chunks_cover_the_object_witness:
  "\<exists>a b. plan_file (\<lambda>xs. xs) (sized_store 2) json_config ''x'' ''y'' large_json = Inr [a, b]
     \<and> length (filter (in_range 1) (map owned_range [a, b])) = 1"
proof -
  obtain a b where r: "plan_file (\<lambda>xs. xs) (sized_store 2) json_config ''x'' ''y'' large_json = Inr [a, b]"
    using json_two_chunks by blast
  have o: "object_of (sized_store 2) large_json = Inr \<lparr>oi_Bucket = ''b'', oi_Key = ''k'', oi_VersionID = [], oi_ETag = ''e'', oi_Size = 2\<rparr>"
    by (simp add: object_of_def head_def sized_store_def large_json_def)
  have s: "sane_config json_config" by (simp add: sane_config_def json_config_def zero_Config_def)
  from planned_chunks_cover_the_object [OF r s o] have "length (filter (in_range 1) (map owned_range [a, b])) = 1"
    by (simp add: max_object_size_def)
  with r show ?thesis by blast
qed

end
