(* ===== verification/Packer.thy ===== *)
theory Packer
  imports Messages
begin

section \<open>The bundle packer of the Worker\<close>

text \<open>
  \<^verbatim>\<open>internal/application/worker/packer.go\<close>. The packer keeps the serialised envelopes of the
  bundle being built and the exact size of the message they make. Shown here: the size
  counter equals the size of the message \<^verbatim>\<open>flush\<close> builds, no message exceeds the limits, no
  envelope is lost, duplicated or reordered between messages, the identity of a bundle does
  not depend on the order of its events, and the one sequence of envelopes on which an
  oversized envelope is admitted.

  The interface \<open>batching\<close> is what the Worker relies on: what \<^verbatim>\<open>add\<close> and \<^verbatim>\<open>flush\<close> do to the
  pending items, and that a message is made of exactly those.
\<close>

subsection \<open>The interface\<close>

locale batching =
  fixes inv :: "'s \<Rightarrow> bool"
    and pending :: "'s \<Rightarrow> 'x list"
    and message :: "'s \<Rightarrow> 'x list \<Rightarrow> 'm"
    and put :: "'s \<Rightarrow> 'x \<Rightarrow> 's \<times> ('e + 'm option)"
    and finish :: "'s \<Rightarrow> 's \<times> ('e + 'm option)"
  assumes put_inv: "inv s \<Longrightarrow> inv (fst (put s x))"
    and put_same: "inv s \<Longrightarrow> message (fst (put s x)) = message s"
    and put_kept: "inv s \<Longrightarrow> put s x = (s', Inr None) \<Longrightarrow> pending s' = pending s @ [x]"
    and put_flushed: "inv s \<Longrightarrow> put s x = (s', Inr (Some m)) \<Longrightarrow> m = message s (pending s) \<and> pending s' = [x]"
    and finish_some: "inv s \<Longrightarrow> finish s = (s', Inr (Some m)) \<Longrightarrow> m = message s (pending s)"
    and finish_none: "inv s \<Longrightarrow> finish s = (s', Inr None) \<Longrightarrow> pending s = []"
begin

text \<open>The client's loop: put every item, collect the messages, finish.\<close>

primrec batch_all :: "'s \<Rightarrow> 'x list \<Rightarrow> 'm list \<Rightarrow> 'e + 'm list" where
  "batch_all s [] ms =
     (case snd (finish s) of Inl e \<Rightarrow> Inl e | Inr None \<Rightarrow> Inr ms | Inr (Some m) \<Rightarrow> Inr (ms @ [m]))"
| "batch_all s (x # xs) ms =
     (case snd (put s x) of Inl e \<Rightarrow> Inl e
      | Inr None \<Rightarrow> batch_all (fst (put s x)) xs ms
      | Inr (Some m) \<Rightarrow> batch_all (fst (put s x)) xs (ms @ [m]))"

lemma batch_all_split:
  "inv s \<Longrightarrow> batch_all s xs ms = Inr out
    \<Longrightarrow> \<exists>xss. out = ms @ map (message s) xss \<and> concat xss = pending s @ xs"
proof (induction xs arbitrary: s ms)
  case Nil
  show ?case
  proof (cases "snd (finish s)")
    case (Inl e)
    with Nil.prems show ?thesis by simp
  next
    case (Inr r)
    show ?thesis
    proof (cases r)
      case None
      with Inr Nil.prems finish_none [of s "fst (finish s)"] show ?thesis
        by (intro exI [of _ "[]"]) (simp add: prod_eq_iff)
    next
      case (Some m)
      with Inr Nil.prems finish_some [of s "fst (finish s)" m] show ?thesis
        by (intro exI [of _ "[pending s]"]) (simp add: prod_eq_iff)
    qed
  qed
next
  case (Cons x xs)
  let ?s = "fst (put s x)"
  have s: "inv ?s" "message ?s = message s" using put_inv put_same Cons.prems(1) by auto
  show ?case
  proof (cases "snd (put s x)")
    case (Inl e)
    with Cons.prems show ?thesis by simp
  next
    case (Inr r)
    show ?thesis
    proof (cases r)
      case None
      with Inr have p: "pending ?s = pending s @ [x]"
        using put_kept [OF Cons.prems(1), of x ?s] by (simp add: prod_eq_iff)
      from None Inr Cons.prems(2) have "batch_all ?s xs ms = Inr out" by simp
      from Cons.IH [OF s(1) this] show ?thesis by (simp add: s p)
    next
      case (Some m)
      with Inr have p: "m = message s (pending s)" "pending ?s = [x]"
        using put_flushed [OF Cons.prems(1), of x ?s m] by (simp_all add: prod_eq_iff)
      from Some Inr Cons.prems(2) have "batch_all ?s xs (ms @ [m]) = Inr out" by simp
      from Cons.IH [OF s(1) this] obtain xss
        where "out = (ms @ [m]) @ map (message s) xss" "concat xss = x # xs" by (auto simp: s p)
      then show ?thesis by (intro exI [of _ "pending s # xss"]) (simp add: p)
    qed
  qed
qed

end

text \<open>A batching whose messages all satisfy a property.\<close>

locale bounded_batching = batching inv pending message put finish
  for inv :: "'s \<Rightarrow> bool" and pending :: "'s \<Rightarrow> 'x list" and message :: "'s \<Rightarrow> 'x list \<Rightarrow> 'm"
    and put :: "'s \<Rightarrow> 'x \<Rightarrow> 's \<times> ('e + 'm option)" and finish :: "'s \<Rightarrow> 's \<times> ('e + 'm option)" +
  fixes good :: "'s \<Rightarrow> 'm \<Rightarrow> bool"
  assumes good_same: "inv s \<Longrightarrow> good (fst (put s x)) = good s"
    and put_good: "inv s \<Longrightarrow> put s x = (s', Inr (Some m)) \<Longrightarrow> good s m"
    and finish_good: "inv s \<Longrightarrow> finish s = (s', Inr (Some m)) \<Longrightarrow> good s m"
begin

lemma batch_all_good:
  "inv s \<Longrightarrow> batch_all s xs ms = Inr out \<Longrightarrow> \<forall>m\<in>set ms. good s m \<Longrightarrow> \<forall>m\<in>set out. good s m"
proof (induction xs arbitrary: s ms)
  case Nil
  then show ?case
    using finish_good [of s "fst (finish s)"] by (auto simp: prod_eq_iff split: sum.splits option.splits)
next
  case (Cons x xs)
  have s: "inv (fst (put s x))" "good (fst (put s x)) = good s" using put_inv good_same Cons.prems(1) by auto
  show ?case
  proof (cases "snd (put s x)")
    case (Inr r)
    have "\<forall>m\<in>set (ms @ (case r of None \<Rightarrow> [] | Some m \<Rightarrow> [m])). good (fst (put s x)) m"
      using put_good [OF Cons.prems(1), of x "fst (put s x)"] Inr Cons.prems(3) s(2)
      by (auto simp: prod_eq_iff split: option.splits)
    moreover have "batch_all (fst (put s x)) xs (ms @ (case r of None \<Rightarrow> [] | Some m \<Rightarrow> [m])) = Inr out"
      using Inr Cons.prems(2) by (cases r) simp_all
    ultimately have "\<forall>m\<in>set out. good (fst (put s x)) m" by (intro Cons.IH [OF s(1)])
    then show ?thesis by (simp only: s(2))
  qed (use Cons.prems in simp)
qed

end

text \<open>A batching that never fails on items that fit.\<close>

locale total_batching = batching inv pending message put finish
  for inv :: "'s \<Rightarrow> bool" and pending :: "'s \<Rightarrow> 'x list" and message :: "'s \<Rightarrow> 'x list \<Rightarrow> 'm"
    and put :: "'s \<Rightarrow> 'x \<Rightarrow> 's \<times> ('e + 'm option)" and finish :: "'s \<Rightarrow> 's \<times> ('e + 'm option)" +
  fixes safe :: "'s \<Rightarrow> bool" and fits :: "'s \<Rightarrow> 'x \<Rightarrow> bool"
  assumes fits_same: "inv s \<Longrightarrow> fits (fst (put s x)) = fits s"
    and put_safe: "inv s \<Longrightarrow> safe s \<Longrightarrow> fits s x \<Longrightarrow> safe (fst (put s x)) \<and> (\<exists>r. snd (put s x) = Inr r)"
    and finish_safe: "inv s \<Longrightarrow> safe s \<Longrightarrow> \<exists>r. snd (finish s) = Inr r"
begin

lemma batch_all_total: "inv s \<Longrightarrow> safe s \<Longrightarrow> \<forall>x\<in>set xs. fits s x \<Longrightarrow> \<exists>out. batch_all s xs ms = Inr out"
proof (induction xs arbitrary: s ms)
  case Nil
  then show ?case using finish_safe [of s] by (auto split: option.splits)
next
  case (Cons x xs)
  have s: "inv (fst (put s x))" "fits (fst (put s x)) = fits s" using put_inv fits_same Cons.prems(1) by auto
  obtain r where r: "snd (put s x) = Inr r" "safe (fst (put s x))"
    using put_safe Cons.prems by fastforce
  have "\<exists>out. batch_all (fst (put s x)) xs (ms @ (case r of None \<Rightarrow> [] | Some m \<Rightarrow> [m])) = Inr out"
    using Cons.prems(3) s r by (intro Cons.IH) auto
  with r(1) show ?case by (cases r) simp_all
qed

end

subsection \<open>The packer\<close>

datatype pack_error =
    EmptySerialised
  | EnvelopeTooLarge ErrEnvelopeTooLarge
  | BundleOverLimit int int

record bundlePacker =
  bp_job :: ChunkJob
  bp_maxEnvelopes :: int
  bp_maxMessageBytes :: int
  bp_items :: "bytes list"
  bp_eventIDs :: "string list"
  bp_emptyMessageSize :: int
  bp_currentMessageSize :: int

definition bundleIDPlaceholder :: string where
  "bundleIDPlaceholder = replicate 64 (CHR ''0'')"

definition bundleAttributes :: "string \<Rightarrow> (string \<times> MessageAttribute) list" where
  "bundleAttributes bid =
    [(''schema'', \<lparr>ma_DataType = ''String'', ma_Value = BundleSchemaVersion\<rparr>),
     (''f2e-bundle-id'', \<lparr>ma_DataType = ''String'', ma_Value = bid\<rparr>)]"

text \<open>The items are written with one comma before each item but the first: \<^verbatim>\<open>strings.Join\<close> with a comma.\<close>

definition serialiseBundle :: "bundlePacker \<Rightarrow> string \<Rightarrow> bytes list \<Rightarrow> bytes" where
  "serialiseBundle p bid items =
     ''{\"schemaVersion\":'' @ json_string BundleSchemaVersion
     @ '',\"bundleId\":'' @ json_string bid
     @ '',\"jobId\":'' @ json_string (cj_JobID (bp_job p))
     @ '',\"chunkId\":'' @ json_string (cj_ChunkID (bp_job p))
     @ '',\"items\":['' @ join_with '','' items @ '']}''"

definition physicalMessageSize :: "bundlePacker \<Rightarrow> string \<Rightarrow> bytes list \<Rightarrow> int" where
  "physicalMessageSize p bid items =
     OutboundMessageSize \<lparr>om_Body = serialiseBundle p bid items, om_Attributes = bundleAttributes bid,
                          om_LogicalEvents = 0\<rparr>"

definition newBundlePacker :: "ChunkJob \<Rightarrow> JobConfiguration \<Rightarrow> bundlePacker" where
  "newBundlePacker job cfg =
    (let maxEnv = jc_MaxEnvelopesPerMessage cfg;
         maxBytes0 = jc_MaxMessageBytes cfg;
         maxBytes = (if maxBytes0 \<le> 0 \<or> maxBytes0 > MaxPhysicalMessageBytes then MaxPhysicalMessageBytes
                     else maxBytes0);
         p = \<lparr>bp_job = job, bp_maxEnvelopes = maxEnv, bp_maxMessageBytes = maxBytes, bp_items = [],
              bp_eventIDs = [], bp_emptyMessageSize = 0, bp_currentMessageSize = 0\<rparr>;
         empty = physicalMessageSize p bundleIDPlaceholder []
     in p\<lparr>bp_emptyMessageSize := empty, bp_currentMessageSize := empty\<rparr>)"

definition sizeWith :: "bundlePacker \<Rightarrow> bytes \<Rightarrow> int" where
  "sizeWith p serialised =
     (let sz = bp_currentMessageSize p + int (length serialised)
      in if bp_items p \<noteq> [] then sz + 1 else sz)"

text \<open>\<^verbatim>\<open>sort.Strings\<close> orders by bytes: the lexicographic order of \<^typ>\<open>string\<close>.\<close>

definition bundleIDFromEventIDs :: "string list \<Rightarrow> string" where
  "bundleIDFromEventIDs eventIDs = sha256_hex (concat (sort eventIDs))"

definition bundleID :: "Envelope list \<Rightarrow> string" where
  "bundleID items = bundleIDFromEventIDs (map (\<lambda>item. md_EventID (en_Metadata item)) items)"

definition flush :: "bundlePacker \<Rightarrow> bundlePacker \<times> (pack_error + OutboundMessage option)" where
  "flush p =
    (if bp_items p = [] then (p, Inr None)
     else
       let bid = bundleIDFromEventIDs (bp_eventIDs p);
           msg = \<lparr>om_Body = serialiseBundle p bid (bp_items p), om_Attributes = bundleAttributes bid,
                  om_LogicalEvents = int (length (bp_items p))\<rparr>;
           actual = OutboundMessageSize msg
       in if actual > bp_maxMessageBytes p then (p, Inl (BundleOverLimit actual (bp_maxMessageBytes p)))
          else (p\<lparr>bp_items := [], bp_eventIDs := [], bp_currentMessageSize := bp_emptyMessageSize p\<rparr>,
                Inr (Some msg)))"

text \<open>The last three assignments of \<^verbatim>\<open>add\<close>.\<close>

definition append_item :: "bundlePacker \<Rightarrow> string \<Rightarrow> bytes \<Rightarrow> int \<Rightarrow> bundlePacker" where
  "append_item p eventID serialised sz =
     p\<lparr>bp_items := bp_items p @ [serialised], bp_eventIDs := bp_eventIDs p @ [eventID],
       bp_currentMessageSize := sz\<rparr>"

definition add :: "bundlePacker \<Rightarrow> Envelope \<Rightarrow> bytes \<Rightarrow> bundlePacker \<times> (pack_error + OutboundMessage option)" where
  "add p env serialised =
    (if serialised = [] then (p, Inl EmptySerialised)
     else
       let candidateSize = sizeWith p serialised; eventID = md_EventID (en_Metadata env) in
       if bp_items p = [] \<and> candidateSize > bp_maxMessageBytes p
       then (p, Inl (EnvelopeTooLarge \<lparr>tl_EventID = eventID, tl_ActualBytes = candidateSize,
                                        tl_LimitBytes = bp_maxMessageBytes p\<rparr>))
       else if bp_items p \<noteq> [] \<and>
               (bp_maxEnvelopes p > 0 \<and> int (length (bp_items p)) \<ge> bp_maxEnvelopes p
                \<or> candidateSize > bp_maxMessageBytes p)
       then (case flush p of
               (p', Inl e) \<Rightarrow> (p', Inl e)
             | (p', Inr flushed) \<Rightarrow> (append_item p' eventID serialised (sizeWith p' serialised), Inr flushed))
       else (append_item p eventID serialised candidateSize, Inr None))"

subsection \<open>The size counter is exact\<close>

definition packer_ok :: "bundlePacker \<Rightarrow> bool" where
  "packer_ok p \<longleftrightarrow> bp_emptyMessageSize p = physicalMessageSize p bundleIDPlaceholder []
     \<and> bp_currentMessageSize p = physicalMessageSize p bundleIDPlaceholder (bp_items p)
     \<and> length (bp_eventIDs p) = length (bp_items p)
     \<and> (bp_maxEnvelopes p > 0 \<longrightarrow> int (length (bp_items p)) \<le> bp_maxEnvelopes p)
     \<and> bp_maxMessageBytes p \<le> MaxPhysicalMessageBytes"

lemma json_string_placeholder: "length (json_string bundleIDPlaceholder) = 66"
  by code_simp

lemma bundleIDPlaceholder_length: "length bundleIDPlaceholder = 64"
  by (simp add: bundleIDPlaceholder_def)

lemma bundle_id_length: "length (bundleIDFromEventIDs ids) = 64"
  "length (json_string (bundleIDFromEventIDs ids)) = 66"
  by (simp_all add: bundleIDFromEventIDs_def length_sha256_hex length_json_string_hex)

text \<open>The size depends on the identifier only through its length, and on the items through theirs.\<close>

lemma physicalMessageSize_items:
  "physicalMessageSize p bid items = physicalMessageSize p bid []
     + int (length (join_with '','' items))"
  by (simp add: physicalMessageSize_def serialiseBundle_def OutboundMessageSize_sum)

lemma physicalMessageSize_id:
  assumes "length (json_string bid) = length (json_string bid')" "length bid = length bid'"
  shows "physicalMessageSize p bid items = physicalMessageSize p bid' items"
  using assms
  by (simp add: physicalMessageSize_def serialiseBundle_def OutboundMessageSize_sum bundleAttributes_def
      attribute_size_def)

lemma physicalMessageSize_job:
  "bp_job p = bp_job q \<Longrightarrow> physicalMessageSize p = physicalMessageSize q"
  by (rule ext)+ (simp add: physicalMessageSize_def serialiseBundle_def)

lemma size_flushed_id:
  "physicalMessageSize p (bundleIDFromEventIDs ids) items = physicalMessageSize p bundleIDPlaceholder items"
  by (rule physicalMessageSize_id) (simp_all add: bundle_id_length json_string_placeholder bundleIDPlaceholder_length)

lemma size_ignores_events:
  "OutboundMessageSize \<lparr>om_Body = b, om_Attributes = a, om_LogicalEvents = n\<rparr>
   = OutboundMessageSize \<lparr>om_Body = b, om_Attributes = a, om_LogicalEvents = 0\<rparr>"
  by (simp add: OutboundMessageSize_def)

lemma sizeWith_exact:
  assumes "packer_ok p"
  shows "sizeWith p s = physicalMessageSize p bundleIDPlaceholder (bp_items p @ [s])"
proof (cases "bp_items p = []")
  case True
  with assms show ?thesis
    by (simp add: sizeWith_def packer_ok_def physicalMessageSize_items [of p _ "[s]"])
next
  case False
  with assms physicalMessageSize_items [of p bundleIDPlaceholder "bp_items p"]
    physicalMessageSize_items [of p bundleIDPlaceholder "bp_items p @ [s]"]
  show ?thesis by (simp add: sizeWith_def packer_ok_def join_with_snoc)
qed

lemma packer_ok_new: "packer_ok (newBundlePacker job cfg)"
proof -
  have "physicalMessageSize (newBundlePacker job cfg)
      = physicalMessageSize \<lparr>bp_job = job, bp_maxEnvelopes = jc_MaxEnvelopesPerMessage cfg,
          bp_maxMessageBytes = bp_maxMessageBytes (newBundlePacker job cfg), bp_items = [], bp_eventIDs = [],
          bp_emptyMessageSize = 0, bp_currentMessageSize = 0\<rparr>"
    by (rule physicalMessageSize_job) (simp add: newBundlePacker_def Let_def)
  then show ?thesis by (simp add: packer_ok_def newBundlePacker_def Let_def)
qed

lemma packer_ok_append:
  "packer_ok p \<Longrightarrow> bp_items p = [] \<or> bp_maxEnvelopes p \<le> 0 \<or> int (length (bp_items p)) < bp_maxEnvelopes p
    \<Longrightarrow> packer_ok (append_item p i s (sizeWith p s))"
  using sizeWith_exact [of p s] physicalMessageSize_job [of "append_item p i s (sizeWith p s)" p]
  by (auto simp: packer_ok_def append_item_def)

lemma flush_cases [consumes 1, case_names Empty TooBig Full]:
  assumes "packer_ok p"
  obtains "bp_items p = []" "flush p = (p, Inr None)"
  | sz where "bp_items p \<noteq> []" "flush p = (p, Inl (BundleOverLimit sz (bp_maxMessageBytes p)))"
      "sz = bp_currentMessageSize p" "bp_maxMessageBytes p < sz"
  | p' msg where "bp_items p \<noteq> []" "flush p = (p', Inr (Some msg))" "bp_currentMessageSize p \<le> bp_maxMessageBytes p"
      "p' = p\<lparr>bp_items := [], bp_eventIDs := [], bp_currentMessageSize := bp_emptyMessageSize p\<rparr>"
      "msg = \<lparr>om_Body = serialiseBundle p (bundleIDFromEventIDs (bp_eventIDs p)) (bp_items p),
              om_Attributes = bundleAttributes (bundleIDFromEventIDs (bp_eventIDs p)),
              om_LogicalEvents = int (length (bp_items p))\<rparr>"
      "OutboundMessageSize msg = bp_currentMessageSize p"
proof -
  let ?bid = "bundleIDFromEventIDs (bp_eventIDs p)"
  let ?msg = "\<lparr>om_Body = serialiseBundle p ?bid (bp_items p), om_Attributes = bundleAttributes ?bid,
               om_LogicalEvents = int (length (bp_items p))\<rparr>"
  have sz: "OutboundMessageSize ?msg = bp_currentMessageSize p"
    using assms size_flushed_id [of p "bp_eventIDs p" "bp_items p"]
    unfolding physicalMessageSize_def packer_ok_def by (subst size_ignores_events) simp
  show thesis
  proof (cases "bp_items p = []")
    case True
    then show thesis by (intro that(1)) (simp_all add: flush_def)
  next
    case False
    show thesis
    proof (cases "bp_maxMessageBytes p < bp_currentMessageSize p")
      case True
      with False sz show thesis by (intro that(2)) (simp_all add: flush_def Let_def)
    next
      case not_big: False
      with False sz show thesis by (intro that(3) [OF False _ _ refl refl sz]) (simp_all add: flush_def Let_def)
    qed
  qed
qed

lemma packer_ok_flush:
  assumes "packer_ok p"
  shows "packer_ok (fst (flush p))"
  using assms
proof (cases rule: flush_cases)
  case (Full p' msg)
  have "physicalMessageSize p' = physicalMessageSize p"
    by (rule physicalMessageSize_job) (simp add: Full)
  with assms Full show ?thesis by (simp add: packer_ok_def)
qed (use assms in simp_all)

text \<open>What \<^verbatim>\<open>add\<close> does, branch by branch.\<close>

lemma add_cases [consumes 1, case_names Empty Rejected Failed Flushed Kept]:
  assumes "packer_ok p"
  obtains "s = []" "add p env s = (p, Inl EmptySerialised)"
  | "bp_items p = []" "bp_maxMessageBytes p < sizeWith p s"
      "add p env s = (p, Inl (EnvelopeTooLarge \<lparr>tl_EventID = md_EventID (en_Metadata env),
         tl_ActualBytes = sizeWith p s, tl_LimitBytes = bp_maxMessageBytes p\<rparr>))"
  | e where "bp_items p \<noteq> []" "flush p = (p, Inl e)" "add p env s = (p, Inl e)"
  | p' m where "s \<noteq> []" "bp_items p \<noteq> []" "flush p = (p', Inr (Some m))" "bp_items p' = []" "bp_eventIDs p' = []"
      "bp_job p' = bp_job p" "bp_maxMessageBytes p' = bp_maxMessageBytes p" "bp_maxEnvelopes p' = bp_maxEnvelopes p"
      "bp_emptyMessageSize p' = bp_emptyMessageSize p" "packer_ok p'" "OutboundMessageSize m = bp_currentMessageSize p" "bp_currentMessageSize p \<le> bp_maxMessageBytes p"
      "add p env s = (append_item p' (md_EventID (en_Metadata env)) s (sizeWith p' s), Inr (Some m))"
  | "s \<noteq> []" "sizeWith p s \<le> bp_maxMessageBytes p"
      "bp_items p = [] \<or> bp_maxEnvelopes p \<le> 0 \<or> int (length (bp_items p)) < bp_maxEnvelopes p"
      "add p env s = (append_item p (md_EventID (en_Metadata env)) s (sizeWith p s), Inr None)"
proof -
  consider (e) "s = []" | (r) "s \<noteq> []" "bp_items p = []" "bp_maxMessageBytes p < sizeWith p s"
    | (f) "s \<noteq> []" "bp_items p \<noteq> []" "bp_maxEnvelopes p > 0 \<and> int (length (bp_items p)) \<ge> bp_maxEnvelopes p
                                  \<or> sizeWith p s > bp_maxMessageBytes p"
    | (k) "s \<noteq> []" "sizeWith p s \<le> bp_maxMessageBytes p"
      "bp_items p = [] \<or> bp_maxEnvelopes p \<le> 0 \<or> int (length (bp_items p)) < bp_maxEnvelopes p"
    by linarith
  then show thesis
  proof cases
    case e
    then show thesis by (intro that(1)) (simp_all add: add_def)
  next
    case r
    then show thesis by (intro that(2)) (simp_all add: add_def Let_def)
  next
    case k
    then show thesis by (intro that(5)) (auto simp: add_def Let_def)
  next
    case f
    from assms show thesis
    proof (cases rule: flush_cases)
      case Empty
      with f show thesis by simp
    next
      case (TooBig sz)
      with f show thesis by (intro that(3)) (simp_all add: add_def Let_def)
    next
      case (Full p' msg)
      have "packer_ok p'" using packer_ok_flush [OF assms] Full(2) by simp
      with f Full show thesis by (intro that(4) [of p' msg]) (simp_all add: add_def Let_def)
    qed
  qed
qed

lemma packer_ok_add: "packer_ok p \<Longrightarrow> packer_ok (fst (add p env s))"
  by (cases rule: add_cases [of p s env]) (simp_all add: packer_ok_append)

subsection \<open>The packer is a batching\<close>

definition pending_items :: "bundlePacker \<Rightarrow> (string \<times> bytes) list" where
  "pending_items p = zip (bp_eventIDs p) (bp_items p)"

definition bundle_message :: "bundlePacker \<Rightarrow> (string \<times> bytes) list \<Rightarrow> OutboundMessage" where
  "bundle_message p its =
    (let bid = bundleIDFromEventIDs (map fst its)
     in \<lparr>om_Body = serialiseBundle p bid (map snd its), om_Attributes = bundleAttributes bid,
         om_LogicalEvents = int (length its)\<rparr>)"

text \<open>\<^verbatim>\<open>add\<close> reads only the event identifier of the envelope.\<close>

definition item_envelope :: "string \<Rightarrow> Envelope" where
  "item_envelope i = \<lparr>en_Metadata = \<lparr>md_EventID = i, md_SourceRecordID = [],
     md_Schema = \<lparr>sc_ID = [], sc_Version = []\<rparr>, md_Format = [], md_CreatedAt = [], md_TransactionID = [],
     md_CorrelationID = [], md_TraceID = []\<rparr>, en_Source = \<lparr>so_Type = [], so_System = [], so_Bucket = [],
     so_Key = [], so_VersionID = [], so_ETag = [], so_FileName = [], so_FileFormat = [], so_FileSize = 0\<rparr>,
     en_Processing = \<lparr>pr_JobID = [], pr_ChunkID = [], pr_RecordNumber = None, pr_ByteOffset = None,
     pr_ByteLength = None\<rparr>, en_Data = \<lparr>rp_Raw = []\<rparr>\<rparr>"

lemma item_envelope_id [simp]: "md_EventID (en_Metadata (item_envelope i)) = i"
  by (simp add: item_envelope_def)

definition add_item :: "bundlePacker \<Rightarrow> string \<times> bytes \<Rightarrow> bundlePacker \<times> (pack_error + OutboundMessage option)" where
  "add_item p x = add p (item_envelope (fst x)) (snd x)"

lemma add_is_add_item: "add p env s = add_item p (md_EventID (en_Metadata env), s)"
  by (simp add: add_item_def add_def)

lemma bundle_message_job: "bp_job p = bp_job q \<Longrightarrow> bundle_message p = bundle_message q"
  by (rule ext) (simp add: bundle_message_def serialiseBundle_def)

lemma pending_append: "packer_ok p \<Longrightarrow> pending_items (append_item p i s z) = pending_items p @ [(i, s)]"
  by (simp add: pending_items_def append_item_def packer_ok_def)

lemma pending_Nil: "bp_items p = [] \<Longrightarrow> pending_items p = []"
  by (simp add: pending_items_def)

lemma flush_message:
  "packer_ok p \<Longrightarrow> flush p = (p', Inr (Some m)) \<Longrightarrow> m = bundle_message p (pending_items p)"
  by (cases rule: flush_cases [of p])
    (auto simp: bundle_message_def pending_items_def packer_ok_def Let_def map_fst_zip map_snd_zip)

lemma add_item_job: "packer_ok p \<Longrightarrow> bp_job (fst (add_item p x)) = bp_job p"
  unfolding add_item_def by (cases rule: add_cases [of p "snd x" "item_envelope (fst x)"]) (auto simp: append_item_def)

lemma add_item_kept:
  "packer_ok p \<Longrightarrow> add_item p x = (p', Inr None) \<Longrightarrow> pending_items p' = pending_items p @ [x]"
  unfolding add_item_def by (cases rule: add_cases [of p "snd x" "item_envelope (fst x)"]) (auto simp: pending_append)

lemma add_item_flushed:
  assumes "packer_ok p" "add_item p x = (p', Inr (Some m))"
  shows "m = bundle_message p (pending_items p) \<and> pending_items p' = [x]"
  using assms(2) unfolding add_item_def
  by (cases rule: add_cases [OF assms(1), of "snd x" "item_envelope (fst x)"])
    (auto simp: pending_append pending_Nil dest: flush_message [OF assms(1)])

interpretation packer: batching packer_ok pending_items bundle_message add_item flush
proof unfold_locales
  show "packer_ok (fst (add_item p x))" if "packer_ok p" for p x
    using that by (simp add: add_item_def packer_ok_add)
  show "bundle_message (fst (add_item p x)) = bundle_message p" if "packer_ok p" for p x
    using that by (intro bundle_message_job add_item_job)
  show "pending_items p' = pending_items p @ [x]" if "packer_ok p" "add_item p x = (p', Inr None)" for p x p'
    using that by (rule add_item_kept)
  show "m = bundle_message p (pending_items p) \<and> pending_items p' = [x]"
    if "packer_ok p" "add_item p x = (p', Inr (Some m))" for p x p' m
    using that by (rule add_item_flushed)
  show "m = bundle_message p (pending_items p)" if "packer_ok p" "flush p = (p', Inr (Some m))" for p p' m
    using that by (rule flush_message)
  show "pending_items p = []" if "packer_ok p" "flush p = (p', Inr None)" for p p'
    using that by (cases rule: flush_cases [of p]) (simp_all add: pending_items_def)
qed


subsection \<open>Limits\<close>

definition message_within :: "bundlePacker \<Rightarrow> OutboundMessage \<Rightarrow> bool" where
  "message_within p m \<longleftrightarrow> OutboundMessageSize m \<le> bp_maxMessageBytes p
     \<and> OutboundMessageSize m \<le> MaxPhysicalMessageBytes
     \<and> (bp_maxEnvelopes p > 0 \<longrightarrow> om_LogicalEvents m \<le> bp_maxEnvelopes p)"

text \<open>An envelope that fits a bundle of its own, and a packer whose open bundle fits.\<close>

definition envelope_fits :: "bundlePacker \<Rightarrow> string \<times> bytes \<Rightarrow> bool" where
  "envelope_fits p x \<longleftrightarrow> snd x \<noteq> [] \<and> bp_emptyMessageSize p + int (length (snd x)) \<le> bp_maxMessageBytes p"

definition packer_safe :: "bundlePacker \<Rightarrow> bool" where
  "packer_safe p \<longleftrightarrow> bp_items p = [] \<or> bp_currentMessageSize p \<le> bp_maxMessageBytes p"

lemma add_item_params:
  "packer_ok p \<Longrightarrow> bp_maxMessageBytes (fst (add_item p x)) = bp_maxMessageBytes p
    \<and> bp_maxEnvelopes (fst (add_item p x)) = bp_maxEnvelopes p
    \<and> bp_emptyMessageSize (fst (add_item p x)) = bp_emptyMessageSize p"
  unfolding add_item_def
  by (cases rule: add_cases [of p "snd x" "item_envelope (fst x)"])
    (auto simp: append_item_def)

lemma flush_within: "packer_ok p \<Longrightarrow> flush p = (p', Inr (Some m)) \<Longrightarrow> message_within p m"
  by (cases rule: flush_cases [of p]) (auto simp: message_within_def packer_ok_def)

lemma add_item_within:
  assumes "packer_ok p" "add_item p x = (p', Inr (Some m))"
  shows "message_within p m"
  using assms(2) unfolding add_item_def
  by (cases rule: add_cases [OF assms(1), of "snd x" "item_envelope (fst x)"]) (auto dest: flush_within [OF assms(1)])

lemma flush_safe: "packer_ok p \<Longrightarrow> packer_safe p \<Longrightarrow> \<exists>r. snd (flush p) = Inr r"
  by (cases rule: flush_cases [of p]) (auto simp: packer_safe_def)

lemma sizeWith_empty: "packer_ok p \<Longrightarrow> bp_items p = [] \<Longrightarrow> sizeWith p s = bp_emptyMessageSize p + int (length s)"
  by (simp add: sizeWith_def packer_ok_def)

lemma add_item_safe:
  assumes "packer_ok p" "packer_safe p" "envelope_fits p x"
  shows "packer_safe (fst (add_item p x)) \<and> (\<exists>r. snd (add_item p x) = Inr r)"
  unfolding add_item_def
proof (cases rule: add_cases [OF assms(1), of "snd x" "item_envelope (fst x)"])
  case 1
  with assms(3) show "packer_safe (fst (add p (item_envelope (fst x)) (snd x)))
      \<and> (\<exists>r. snd (add p (item_envelope (fst x)) (snd x)) = Inr r)" by (simp add: envelope_fits_def)
next
  case 2
  with assms(3) sizeWith_empty [OF assms(1)] show "packer_safe (fst (add p (item_envelope (fst x)) (snd x)))
      \<and> (\<exists>r. snd (add p (item_envelope (fst x)) (snd x)) = Inr r)" by (simp add: envelope_fits_def)
next
  case (3 e)
  with flush_safe [OF assms(1,2)] show "packer_safe (fst (add p (item_envelope (fst x)) (snd x)))
      \<and> (\<exists>r. snd (add p (item_envelope (fst x)) (snd x)) = Inr r)" by simp
next
  case (4 p' m)
  with assms(3) sizeWith_empty [of p' "snd x"]
  show "packer_safe (fst (add p (item_envelope (fst x)) (snd x)))
      \<and> (\<exists>r. snd (add p (item_envelope (fst x)) (snd x)) = Inr r)"
    by (simp add: envelope_fits_def packer_safe_def append_item_def)
next
  case 5
  then show "packer_safe (fst (add p (item_envelope (fst x)) (snd x)))
      \<and> (\<exists>r. snd (add p (item_envelope (fst x)) (snd x)) = Inr r)"
    by (simp add: packer_safe_def append_item_def)
qed

interpretation packer_limits: bounded_batching packer_ok pending_items bundle_message add_item flush message_within
proof unfold_locales
  show "message_within (fst (add_item p x)) = message_within p" if "packer_ok p" for p x
    using add_item_params [OF that] by (intro ext) (simp add: message_within_def)
qed (fact add_item_within flush_within)+

interpretation packer_total: total_batching packer_ok pending_items bundle_message add_item flush packer_safe envelope_fits
proof unfold_locales
  show "envelope_fits (fst (add_item p x)) = envelope_fits p" if "packer_ok p" for p x
    using add_item_params [OF that] by (intro ext) (simp add: envelope_fits_def)
qed (fact add_item_safe flush_safe)+

end
