(* ===== verification/Systems.thy ===== *)
theory Systems
  imports Main
begin

section \<open>Step relations and their invariants\<close>

text \<open>
  The interface shared by the parts of the program that are state machines: a step relation,
  its initial states and a property every step keeps. The sender of the Worker and the
  ledger are the two instances.
\<close>

locale invariant_system =
  fixes init :: "'s \<Rightarrow> bool" and step :: "'s \<Rightarrow> 's \<Rightarrow> bool" and inv :: "'s \<Rightarrow> bool"
  assumes init_inv: "init s \<Longrightarrow> inv s"
    and step_inv: "inv s \<Longrightarrow> step s t \<Longrightarrow> inv t"
begin

lemma reachable_inv: "init s \<Longrightarrow> step\<^sup>*\<^sup>* s t \<Longrightarrow> inv t"
proof (rotate_tac, induction rule: rtranclp_induct)
  case base
  then show ?case by (rule init_inv)
next
  case (step t u)
  then show ?case using step_inv by blast
qed

end

text \<open>A quantity no step lowers: what was true of it once stays true.\<close>

locale monotone_system = invariant_system init step inv
  for init :: "'s \<Rightarrow> bool" and step :: "'s \<Rightarrow> 's \<Rightarrow> bool" and inv :: "'s \<Rightarrow> bool" +
  fixes below :: "'s \<Rightarrow> 's \<Rightarrow> bool"
  assumes below_refl: "below s s"
    and below_trans: "below s t \<Longrightarrow> below t u \<Longrightarrow> below s u"
    and step_below: "inv s \<Longrightarrow> step s t \<Longrightarrow> below s t"
begin

lemma steps_inv: "inv s \<Longrightarrow> step\<^sup>*\<^sup>* s t \<Longrightarrow> inv t"
  by (rotate_tac, induction rule: rtranclp_induct) (use step_inv in blast)+

lemma reachable_below: "inv s \<Longrightarrow> step\<^sup>*\<^sup>* s t \<Longrightarrow> below s t"
proof (rotate_tac, induction rule: rtranclp_induct)
  case base
  show ?case by (rule below_refl)
next
  case (step t u)
  then show ?case using step_below below_trans steps_inv by blast
qed

end

end
