(* ===== verification/Sender.thy ===== *)
theory Sender
  imports Messages Systems "HOL-Library.Multiset"
begin

section \<open>The concurrent sender\<close>

text \<open>
  \<^verbatim>\<open>internal/application/worker/concurrent_sender.go\<close>. \<open>splitSendBatches\<close> cuts a list of
  messages into legal requests; \<open>send_attempt\<close> is one round of the retry loop of \<^verbatim>\<open>send\<close> and
  \<open>send_loop\<close> the loop; \<open>sender_step\<close> interleaves the rounds of all goroutines, the submissions of
  the Worker and a cancellation by the caller, under the mutex of the Go type.

  The queue behind \<^verbatim>\<open>port.Queue\<close> is an argument, a function on its own state; \<open>queue_contract\<close>
  is its documented behaviour: an accepted request reports the entries that failed and stores
  the others; a refused request may have stored anything, and loses nothing.
\<close>

subsection \<open>Splitting\<close>

definition batchSize :: "OutboundMessage list \<Rightarrow> int" where
  "batchSize batch = foldl (\<lambda>total message. total + OutboundMessageSize message) 0 batch"

text \<open>One iteration of the loop of \<^verbatim>\<open>splitSendBatches\<close>.\<close>

definition split_step :: "OutboundMessage list list \<Rightarrow> OutboundMessage \<Rightarrow> OutboundMessage list list" where
  "split_step batches message =
    (if OutboundMessageSize message > MaxPhysicalMessageBytes then batches @ [[message]]
     else
       let batches' =
         (if batches = [] \<or> length (last batches) = MaxMessagesPerBatch
             \<or> OutboundMessageSize message > MaxMultiMessageBatchBytes
             \<or> last batches \<noteq> [] \<and> batchSize (last batches) + OutboundMessageSize message > MaxMultiMessageBatchBytes
          then batches @ [[]] else batches)
       in butlast batches' @ [last batches' @ [message]])"

definition splitSendBatches :: "OutboundMessage list \<Rightarrow> OutboundMessage list list" where
  "splitSendBatches messages = foldl split_step [] messages"

lemma batchSize_sum: "batchSize b = sum_list (map OutboundMessageSize b)"
  by (simp add: batchSize_def foldl_add_map)

lemma batchSize_append [simp]: "batchSize (a @ b) = batchSize a + batchSize b"
  by (simp add: batchSize_sum)

lemma batchSize_single [simp]: "batchSize [m] = OutboundMessageSize m"
  by (simp add: batchSize_sum)

lemma batchSize_Nil [simp]: "batchSize [] = 0"
  by (simp add: batchSize_sum)

lemma batchSize_nonneg: "0 \<le> batchSize b"
  using OutboundMessageSize_pos by (auto simp: batchSize_sum intro!: sum_list_map_nonneg simp: less_imp_le)

text \<open>A request SQS accepts, or a single message that is too long for any request.\<close>

definition legal_batch :: "OutboundMessage list \<Rightarrow> bool" where
  "legal_batch b \<longleftrightarrow> b \<noteq> [] \<and> length b \<le> MaxMessagesPerBatch
     \<and> (batchSize b \<le> MaxMultiMessageBatchBytes \<or> length b = 1)"

lemma split_step_concat: "concat (split_step bs m) = concat bs @ [m]"
proof -
  have "concat (butlast xs @ [last xs @ [m]]) = concat xs @ [m]" if "xs \<noteq> []" for xs :: "OutboundMessage list list"
    using that by (metis append.assoc append_Nil2 append_butlast_last_id concat.simps(1,2) concat_append)
  then show ?thesis by (auto simp: split_step_def Let_def)
qed

text \<open>The last batch may be open: it is legal, and not a message too long unless it is alone.\<close>

lemma split_step_legal:
  assumes "\<forall>b\<in>set bs. legal_batch b"
  shows "\<forall>b\<in>set (split_step bs m). legal_batch b"
proof (cases "OutboundMessageSize m > MaxPhysicalMessageBytes")
  case True
  with assms show ?thesis by (simp add: split_step_def legal_batch_def port_limits)
next
  case False
  then have small: "OutboundMessageSize m \<le> MaxMultiMessageBatchBytes" by (simp add: port_limits)
  let ?new = "bs = [] \<or> length (last bs) = MaxMessagesPerBatch
             \<or> OutboundMessageSize m > MaxMultiMessageBatchBytes
             \<or> last bs \<noteq> [] \<and> batchSize (last bs) + OutboundMessageSize m > MaxMultiMessageBatchBytes"
  show ?thesis
  proof (cases ?new)
    case True
    then have "split_step bs m = bs @ [[m]]" using False by (auto simp: split_step_def Let_def)
    with assms show ?thesis by (simp add: legal_batch_def port_limits)
  next
    case old: False
    have eq: "split_step bs m = butlast bs @ [last bs @ [m]]"
      by (simp only: split_step_def Let_def False old if_False)
    have "legal_batch (last bs)" using old assms by auto
    with old have "legal_batch (last bs @ [m])" by (auto simp: legal_batch_def)
    with assms eq show ?thesis by (auto dest: in_set_butlastD)
  qed
qed

lemma splitSendBatches_concat: "concat (splitSendBatches ms) = ms"
proof -
  have "concat (foldl split_step bs ms) = concat bs @ ms" for bs
    by (induction ms arbitrary: bs) (simp_all add: split_step_concat)
  then show ?thesis by (simp add: splitSendBatches_def)
qed

lemma splitSendBatches_legal: "\<forall>b\<in>set (splitSendBatches ms). legal_batch b"
proof -
  have "\<forall>b\<in>set bs. legal_batch b \<Longrightarrow> \<forall>b\<in>set (foldl split_step bs ms). legal_batch b" for bs
  proof (induction ms arbitrary: bs)
    case (Cons m ms)
    from Cons.IH [OF split_step_legal [OF Cons.prems]] show ?case by simp
  qed simp
  from this [of "[]"] show ?thesis by (simp add: splitSendBatches_def)
qed

subsection \<open>One round of the retry loop\<close>

record send_error =
  er_text :: string
  er_permanent :: bool
  er_cancelled :: bool

datatype send_failure =
    PermanentFailure int nat int send_error
  | FailedAfterAttempt int nat int send_error
  | PartialFailure nat int
  | ContextError string
  | OutboundTooLarge int

record counters =
  ct_messages :: int
  ct_events :: int
  ct_calls :: int

definition no_counts :: counters where
  "no_counts = \<lparr>ct_messages = 0, ct_events = 0, ct_calls = 0\<rparr>"

definition logical_events :: "OutboundMessage \<Rightarrow> int" where
  "logical_events m = (if om_LogicalEvents m > 0 then om_LogicalEvents m else 1)"

text \<open>The messages of a request that the queue did not report as failed.\<close>

definition confirmed :: "int list \<Rightarrow> OutboundMessage list \<Rightarrow> OutboundMessage list" where
  "confirmed failed pending = map snd (filter (\<lambda>im. int (fst im) \<notin> set failed) (enumerate 0 pending))"

definition count_confirmed :: "int list \<Rightarrow> OutboundMessage list \<Rightarrow> counters \<Rightarrow> counters" where
  "count_confirmed failed pending c =
     (let ok = confirmed failed pending
      in \<lparr>ct_messages = ct_messages c + int (length ok),
          ct_events = ct_events c + sum_list (map logical_events ok),
          ct_calls = ct_calls c + 1\<rparr>)"

definition retry_list :: "int list \<Rightarrow> OutboundMessage list \<Rightarrow> OutboundMessage list" where
  "retry_list failed pending =
     map (\<lambda>i. pending ! nat i) (filter (\<lambda>i. 0 \<le> i \<and> i < int (length pending)) failed)"

datatype round_result = SendOK | SendFailed send_failure | Retry "OutboundMessage list"

text \<open>One iteration: what follows from the answer \<open>r\<close> of the queue to attempt number \<open>attempt\<close>.\<close>

definition send_attempt ::
  "nat \<Rightarrow> OutboundMessage list \<Rightarrow> send_error + int list \<Rightarrow> counters \<Rightarrow> counters \<times> round_result" where
  "send_attempt attempt pending r c =
    (case r of
       Inr failed \<Rightarrow>
         (count_confirmed failed pending c, if failed = [] then SendOK else Retry (retry_list failed pending))
     | Inl e \<Rightarrow>
         (c, if er_permanent e
             then SendFailed (PermanentFailure (int attempt + 1) (length pending) (batchSize pending) e)
             else if attempt = 2
             then SendFailed (FailedAfterAttempt (int attempt + 1) (length pending) (batchSize pending) e)
             else Retry pending))"

text \<open>
  The loop of \<^verbatim>\<open>send\<close> for one goroutine. \<open>ctxDone\<close> says whether the context is done in the pause
  after an attempt, and with which error.
\<close>

function send_loop ::
  "('q \<Rightarrow> OutboundMessage list \<Rightarrow> 'q \<times> (send_error + int list)) \<Rightarrow> (nat \<Rightarrow> string option) \<Rightarrow> nat
    \<Rightarrow> OutboundMessage list \<Rightarrow> counters \<Rightarrow> 'q \<Rightarrow> 'q \<times> counters \<times> send_failure option" where
  "send_loop queue ctxDone attempt pending c q =
    (if 3 \<le> attempt then (q, c, Some (PartialFailure (length pending) (batchSize pending)))
     else (case queue q pending of (q', r) \<Rightarrow>
            (case send_attempt attempt pending r c of
               (c', SendOK) \<Rightarrow> (q', c', None)
             | (c', SendFailed f) \<Rightarrow> (q', c', Some f)
             | (c', Retry pending') \<Rightarrow>
                 (case ctxDone attempt of
                    Some e \<Rightarrow> (q', c', Some (ContextError e))
                  | None \<Rightarrow> send_loop queue ctxDone (attempt + 1) pending' c' q'))))"
  by pat_completeness auto
termination
  by (relation "measure (\<lambda>(queue, ctxDone, attempt, pending, c, q). 3 - attempt)") auto

declare send_loop.simps [simp del]

definition send ::
  "('q \<Rightarrow> OutboundMessage list \<Rightarrow> 'q \<times> (send_error + int list)) \<Rightarrow> (nat \<Rightarrow> string option)
    \<Rightarrow> OutboundMessage list \<Rightarrow> counters \<Rightarrow> 'q \<Rightarrow> 'q \<times> counters \<times> send_failure option" where
  "send queue ctxDone batch c q = send_loop queue ctxDone 0 batch c q"

subsection \<open>The queue's contract\<close>

definition queue_contract ::
  "('q \<Rightarrow> OutboundMessage list) \<Rightarrow> ('q \<Rightarrow> OutboundMessage list \<Rightarrow> 'q \<times> (send_error + int list)) \<Rightarrow> bool" where
  "queue_contract stored queue \<longleftrightarrow>
    (\<forall>q ms. case queue q ms of
       (q', Inr failed) \<Rightarrow> distinct failed \<and> (\<forall>i\<in>set failed. 0 \<le> i \<and> i < int (length ms))
           \<and> mset (stored q') = mset (stored q) + mset (confirmed failed ms)
     | (q', Inl e) \<Rightarrow> mset (stored q) \<subseteq># mset (stored q'))"

lemma queue_contract_ok:
  assumes "queue_contract stored queue" "queue q ms = (q', Inr failed)"
  shows "distinct failed" "\<forall>i\<in>set failed. 0 \<le> i \<and> i < int (length ms)"
    and "mset (stored q') = mset (stored q) + mset (confirmed failed ms)"
  using assms(1) [unfolded queue_contract_def, THEN spec [of _ q], THEN spec [of _ ms]] assms(2) by simp_all

lemma queue_contract_error:
  assumes "queue_contract stored queue" "queue q ms = (q', Inl e)"
  shows "mset (stored q) \<subseteq># mset (stored q')"
  using assms(1) [unfolded queue_contract_def, THEN spec [of _ q], THEN spec [of _ ms]] assms(2) by simp

text \<open>The failed entries and the confirmed ones are the request.\<close>

lemma confirmed_nth:
  "confirmed failed ms = map (\<lambda>k. ms ! k) (filter (\<lambda>k. int k \<notin> set failed) [0..<length ms])"
proof -
  have "enumerate 0 ms = map (\<lambda>k. (k, ms ! k)) [0..<length ms]"
    by (rule nth_equalityI) (simp_all add: nth_enumerate_eq)
  then show ?thesis by (simp add: confirmed_def filter_map o_def)
qed

lemma confirmed_retry_mset:
  assumes "distinct failed" "\<forall>i\<in>set failed. 0 \<le> i \<and> i < int (length ms)"
  shows "mset (confirmed failed ms) + mset (retry_list failed ms) = mset ms"
proof -
  let ?f = "filter (\<lambda>i. 0 \<le> i \<and> i < int (length ms)) failed"
  have f: "?f = failed" using assms(2) by (simp add: filter_id_conv)
  have d: "distinct (map nat failed)" using assms by (simp add: distinct_map inj_on_def) (metis eq_nat_nat_iff)
  have "set (map nat failed) = set (filter (\<lambda>k. int k \<in> set failed) [0..<length ms])"
    using assms(2) by force
  with d have "mset (map nat failed) = mset (filter (\<lambda>k. int k \<in> set failed) [0..<length ms])"
    by (intro iffD1 [OF set_eq_iff_mset_eq_distinct]) simp_all
  then have "mset (map (\<lambda>k. ms ! k) (map nat failed))
      = mset (map (\<lambda>k. ms ! k) (filter (\<lambda>k. int k \<in> set failed) [0..<length ms]))"
    by (simp only: mset_map)
  then have "mset (retry_list failed ms)
      = mset (map (\<lambda>k. ms ! k) (filter (\<lambda>k. int k \<in> set failed) [0..<length ms]))"
    by (simp add: retry_list_def f o_def)
  moreover have "mset (map g (filter (\<lambda>k. \<not> P k) ks)) + mset (map g (filter P ks)) = mset (map g ks)"
    for g :: "nat \<Rightarrow> OutboundMessage" and P ks by (induction ks) auto
  ultimately show ?thesis
    by (simp only: confirmed_nth) (metis map_nth)
qed

lemma confirmed_Nil [simp]: "confirmed [] ms = ms"
  by (simp add: confirmed_nth map_nth)

lemma confirmed_retry_length:
  assumes "distinct failed" "\<forall>i\<in>set failed. 0 \<le> i \<and> i < int (length ms)"
  shows "length (confirmed failed ms) + length (retry_list failed ms) = length ms"
  using arg_cong [OF confirmed_retry_mset [OF assms], of size] by simp

lemma confirmed_retry_events:
  assumes "distinct failed" "\<forall>i\<in>set failed. 0 \<le> i \<and> i < int (length ms)"
  shows "sum_list (map logical_events (confirmed failed ms)) + sum_list (map logical_events (retry_list failed ms))
         = sum_list (map logical_events ms)"
proof -
  have "\<Sum>\<^sub># (image_mset logical_events (mset (confirmed failed ms) + mset (retry_list failed ms)))
      = \<Sum>\<^sub># (image_mset logical_events (mset ms))"
    by (simp only: confirmed_retry_mset [OF assms])
  then show ?thesis by (simp flip: mset_map add: sum_mset_sum_list)
qed

text \<open>One round: what is not stored yet is still pending, and the counters count what was confirmed.\<close>

lemma round_ok:
  assumes "queue_contract stored queue" "queue q pending = (q', r)" "send_attempt attempt pending r c = (c', SendOK)"
  shows "mset (stored q') = mset (stored q) + mset pending
    \<and> ct_messages c' = ct_messages c + int (length pending)
    \<and> ct_events c' = ct_events c + sum_list (map logical_events pending)"
proof -
  from assms(3) have "r = Inr []" "c' = count_confirmed [] pending c"
    by (auto simp: send_attempt_def split: sum.splits if_splits)
  with queue_contract_ok(3) [OF assms(1)] assms(2) show ?thesis by (simp add: count_confirmed_def)
qed

lemma round_retry:
  assumes "queue_contract stored queue" "queue q pending = (q', r)" "send_attempt attempt pending r c = (c', Retry p')"
  shows "mset (stored q) + mset pending \<subseteq># mset (stored q') + mset p'
    \<and> ct_messages c' + int (length p') = ct_messages c + int (length pending)
    \<and> ct_events c' + sum_list (map logical_events p') = ct_events c + sum_list (map logical_events pending)"
proof (cases r)
  case (Inl e)
  with assms(3) have "c' = c" "p' = pending" by (auto simp: send_attempt_def split: if_splits)
  with queue_contract_error [OF assms(1)] assms(2) Inl show ?thesis by auto
next
  case (Inr failed)
  with assms(3) have c': "c' = count_confirmed failed pending c" "p' = retry_list failed pending"
    by (auto simp: send_attempt_def split: if_splits)
  note ok = queue_contract_ok [OF assms(1) assms(2) [unfolded Inr]]
  show ?thesis
    using confirmed_retry_mset [OF ok(1,2)] confirmed_retry_length [OF ok(1,2)]
      confirmed_retry_events [OF ok(1,2)] ok(3) c'
    by (simp add: count_confirmed_def Let_def add.assoc)
qed

lemma round_keeps:
  assumes "queue_contract stored queue" "queue q pending = (q', r)"
  shows "mset (stored q) \<subseteq># mset (stored q')"
  using queue_contract_ok(3) [OF assms(1)] queue_contract_error [OF assms(1)] assms(2) by (cases r) auto

lemma send_loop_delivers:
  "queue_contract stored queue \<Longrightarrow> send_loop queue ctxDone attempt pending c q = (q', c', None) \<Longrightarrow>
   mset (stored q) + mset pending \<subseteq># mset (stored q')
    \<and> ct_messages c' = ct_messages c + int (length pending)
    \<and> ct_events c' = ct_events c + sum_list (map logical_events pending)"
proof (induction queue ctxDone attempt pending c q rule: send_loop.induct)
  case (1 queue ctxDone attempt pending c q)
  obtain q1 r where q1: "queue q pending = (q1, r)" by fastforce
  obtain c1 res where c1: "send_attempt attempt pending r c = (c1, res)" by fastforce
  have a: "\<not> 3 \<le> attempt" using "1.prems"(2) by (auto simp: send_loop.simps split: if_splits)
  note run = "1.prems"(2) [unfolded send_loop.simps [of queue ctxDone attempt]]
  show ?case
  proof (cases res)
    case SendOK
    with run a q1 c1 have "q' = q1" "c' = c1" by simp_all
    with round_ok [OF "1.prems"(1) q1 c1 [unfolded SendOK]] show ?thesis by simp
  next
    case (SendFailed f)
    with run a q1 c1 show ?thesis by simp
  next
    case (Retry p')
    have d: "ctxDone attempt = None" using run a q1 c1 Retry by (simp split: option.splits)
    with run a q1 c1 Retry have "send_loop queue ctxDone (attempt + 1) p' c1 q1 = (q', c', None)" by simp
    from "1.IH" [OF a q1 [symmetric] c1 [symmetric] Retry d "1.prems"(1) this]
    have IH: "mset (stored q1) + mset p' \<subseteq># mset (stored q')"
      "ct_messages c' = ct_messages c1 + int (length p')"
      "ct_events c' = ct_events c1 + sum_list (map logical_events p')" by auto
    from round_retry [OF "1.prems"(1) q1 c1 [unfolded Retry]]
    have R: "mset (stored q) + mset pending \<subseteq># mset (stored q1) + mset p'"
      "ct_messages c1 + int (length p') = ct_messages c + int (length pending)"
      "ct_events c1 + sum_list (map logical_events p') = ct_events c + sum_list (map logical_events pending)" by auto
    from R(1) IH(1) have "mset (stored q) + mset pending \<subseteq># mset (stored q')" by (rule subset_mset.order_trans)
    with R(2,3) IH(2,3) show ?thesis by simp
  qed
qed


subsection \<open>Goroutines, interleaved\<close>

text \<open>
  A goroutine is the batch it still has to send and the number of attempts made. The counters,
  the two error fields and the cancelled context are the fields of \<^verbatim>\<open>concurrentSender\<close>; the
  last field records what was submitted.
\<close>

record goroutine =
  go_pending :: "OutboundMessage list"
  go_attempt :: nat

record concurrentSender =
  sn_slots :: nat
  sn_running :: "goroutine list"
  sn_firstErr :: "send_failure option"
  sn_cancellationErr :: "send_failure option"
  sn_cancelled :: bool
  sn_confirmed :: counters
  sn_submitted :: "OutboundMessage list"

definition newConcurrentSender :: "int \<Rightarrow> concurrentSender" where
  "newConcurrentSender concurrency =
     \<lparr>sn_slots = nat (if concurrency < 1 then 1 else concurrency), sn_running = [], sn_firstErr = None,
      sn_cancellationErr = None, sn_cancelled = False, sn_confirmed = no_counts, sn_submitted = []\<rparr>"

fun isCancellation :: "send_failure \<Rightarrow> bool" where
  "isCancellation (ContextError e) = True"
| "isCancellation (PermanentFailure a n b e) = er_cancelled e"
| "isCancellation (FailedAfterAttempt a n b e) = er_cancelled e"
| "isCancellation (PartialFailure n b) = False"
| "isCancellation (OutboundTooLarge n) = False"

text \<open>The end of a goroutine whose \<^verbatim>\<open>send\<close> failed.\<close>

definition record_failure :: "send_failure \<Rightarrow> concurrentSender \<Rightarrow> concurrentSender" where
  "record_failure f s =
    (if isCancellation f then
       (if sn_cancellationErr s = None then s\<lparr>sn_cancellationErr := Some f\<rparr> else s)
     else if sn_firstErr s = None then s\<lparr>sn_firstErr := Some f, sn_cancelled := True\<rparr>
     else s)"

definition oversize :: "OutboundMessage list \<Rightarrow> int option" where
  "oversize batch = map_option OutboundMessageSize
     (List.find (\<lambda>m. OutboundMessageSize m > MaxPhysicalMessageBytes) batch)"

text \<open>What \<^verbatim>\<open>submitOne\<close> returns before it waits for a slot: an error, or \<open>None\<close> to go on.\<close>

definition submit_refused :: "concurrentSender \<Rightarrow> OutboundMessage list \<Rightarrow> send_failure option" where
  "submit_refused s batch =
    (case oversize batch of Some n \<Rightarrow> Some (OutboundTooLarge n) | None \<Rightarrow> sn_firstErr s)"

definition wait_result :: "concurrentSender \<Rightarrow> send_failure option" where
  "wait_result s = (if sn_firstErr s = None \<and> sn_cancellationErr s \<noteq> None then sn_cancellationErr s
                    else sn_firstErr s)"

inductive sender_step ::
  "('q \<Rightarrow> OutboundMessage list \<Rightarrow> 'q \<times> (send_error + int list)) \<Rightarrow> 'q \<times> concurrentSender
    \<Rightarrow> 'q \<times> concurrentSender \<Rightarrow> bool" for queue where
  submit: "batch \<noteq> [] \<Longrightarrow> submit_refused s batch = None \<Longrightarrow> length (sn_running s) < sn_slots s \<Longrightarrow>
    sender_step queue (q, s)
      (q, s\<lparr>sn_running := sn_running s @ [\<lparr>go_pending = batch, go_attempt = 0\<rparr>],
           sn_submitted := sn_submitted s @ batch\<rparr>)"
| sent: "sn_running s = gs @ g # hs \<Longrightarrow> go_attempt g < 3 \<Longrightarrow> queue q (go_pending g) = (q', r) \<Longrightarrow>
    send_attempt (go_attempt g) (go_pending g) r (sn_confirmed s) = (c', SendOK) \<Longrightarrow>
    sender_step queue (q, s) (q', s\<lparr>sn_running := gs @ hs, sn_confirmed := c'\<rparr>)"
| retried: "sn_running s = gs @ g # hs \<Longrightarrow> go_attempt g < 3 \<Longrightarrow> queue q (go_pending g) = (q', r) \<Longrightarrow>
    send_attempt (go_attempt g) (go_pending g) r (sn_confirmed s) = (c', Retry p') \<Longrightarrow>
    sender_step queue (q, s)
      (q', s\<lparr>sn_running := gs @ \<lparr>go_pending = p', go_attempt = go_attempt g + 1\<rparr> # hs, sn_confirmed := c'\<rparr>)"
| failed: "sn_running s = gs @ g # hs \<Longrightarrow> go_attempt g < 3 \<Longrightarrow> queue q (go_pending g) = (q', r) \<Longrightarrow>
    send_attempt (go_attempt g) (go_pending g) r (sn_confirmed s) = (c', SendFailed f) \<Longrightarrow>
    sender_step queue (q, s) (q', record_failure f (s\<lparr>sn_running := gs @ hs, sn_confirmed := c'\<rparr>))"
| interrupted: "sn_running s = gs @ g # hs \<Longrightarrow> 1 \<le> go_attempt g \<Longrightarrow> sn_cancelled s \<Longrightarrow>
    sender_step queue (q, s) (q, record_failure (ContextError e) (s\<lparr>sn_running := gs @ hs\<rparr>))"
| exhausted: "sn_running s = gs @ g # hs \<Longrightarrow> go_attempt g = 3 \<Longrightarrow>
    sender_step queue (q, s)
      (q, record_failure (PartialFailure (length (go_pending g)) (batchSize (go_pending g)))
            (s\<lparr>sn_running := gs @ hs\<rparr>))"
| cancelled: "sender_step queue (q, s) (q, s\<lparr>sn_cancelled := True\<rparr>)"

inductive_cases sender_stepE: "sender_step queue x y"

definition in_flight :: "concurrentSender \<Rightarrow> OutboundMessage list" where
  "in_flight s = concat (map go_pending (sn_running s))"

definition clean :: "concurrentSender \<Rightarrow> bool" where
  "clean s \<longleftrightarrow> sn_firstErr s = None \<and> sn_cancellationErr s = None"

text \<open>
  The invariant: no more goroutines than slots, an error cancels the siblings, and until an
  error every submitted message is in the queue or in flight, and counted exactly once.
\<close>

definition sender_shape :: "concurrentSender \<Rightarrow> bool" where
  "sender_shape s \<longleftrightarrow> length (sn_running s) \<le> sn_slots s
     \<and> (\<forall>g\<in>set (sn_running s). go_attempt g \<le> 3)
     \<and> (sn_firstErr s \<noteq> None \<longrightarrow> sn_cancelled s)"

definition accounted :: "OutboundMessage multiset \<Rightarrow> OutboundMessage multiset \<Rightarrow> concurrentSender \<Rightarrow> bool" where
  "accounted before after s \<longleftrightarrow> before + mset (sn_submitted s) \<subseteq># after + mset (in_flight s)
     \<and> ct_messages (sn_confirmed s) + int (length (in_flight s)) = int (length (sn_submitted s))
     \<and> ct_events (sn_confirmed s) + sum_list (map logical_events (in_flight s))
         = sum_list (map logical_events (sn_submitted s))"

definition sender_inv ::
  "('q \<Rightarrow> OutboundMessage list) \<Rightarrow> 'q \<Rightarrow> 'q \<times> concurrentSender \<Rightarrow> bool" where
  "sender_inv stored q0 x \<longleftrightarrow> sender_shape (snd x)
     \<and> mset (stored q0) \<subseteq># mset (stored (fst x))
     \<and> (clean (snd x) \<longrightarrow> accounted (mset (stored q0)) (mset (stored (fst x))) (snd x))"

lemma record_failure_fields [simp]:
  "sn_slots (record_failure f s) = sn_slots s" "sn_running (record_failure f s) = sn_running s"
  "sn_submitted (record_failure f s) = sn_submitted s" "sn_confirmed (record_failure f s) = sn_confirmed s"
  by (simp_all add: record_failure_def)

lemma record_failure_not_clean: "\<not> clean (record_failure f s)"
  by (auto simp: record_failure_def clean_def)

lemma record_failure_cancels: "(sn_firstErr s \<noteq> None \<longrightarrow> sn_cancelled s) \<Longrightarrow>
  sn_firstErr (record_failure f s) \<noteq> None \<longrightarrow> sn_cancelled (record_failure f s)"
  by (auto simp: record_failure_def)

lemma shape_failure:
  assumes "sender_shape s" "sn_running s = gs @ g # hs"
  shows "sender_shape (record_failure f (s\<lparr>sn_running := gs @ hs, sn_confirmed := c'\<rparr>))"
    and "sender_shape (record_failure f (s\<lparr>sn_running := gs @ hs\<rparr>))"
  using assms record_failure_cancels [of "s\<lparr>sn_running := gs @ hs, sn_confirmed := c'\<rparr>" f]
    record_failure_cancels [of "s\<lparr>sn_running := gs @ hs\<rparr>" f]
  by (simp_all add: sender_shape_def)

lemma sender_inv_failure:
  assumes "sender_inv stored q0 (q, s)" "sn_running s = gs @ g # hs" "mset (stored q) \<subseteq># mset (stored q')"
  shows "sender_inv stored q0 (q', record_failure f (s\<lparr>sn_running := gs @ hs, sn_confirmed := c'\<rparr>))"
    and "sender_inv stored q0 (q', record_failure f (s\<lparr>sn_running := gs @ hs\<rparr>))"
  using assms shape_failure
  by (auto simp: sender_inv_def record_failure_not_clean intro: subset_mset.order_trans)

lemma mset_sub_exchange:
  assumes "A \<subseteq># Q + (P + R)" "Q + P \<subseteq># Q' + (P' :: 'a multiset)"
  shows "A \<subseteq># Q' + (P' + R)"
proof -
  have "Q + (P + R) \<subseteq># Q' + (P' + R)" using assms(2) by (simp add: add.assoc [symmetric])
  with assms(1) show ?thesis by (rule subset_mset.order_trans)
qed

text \<open>One goroutine makes a round: what it still has changes from \<open>p\<close> to \<open>p'\<close>.\<close>

lemma accounted_round:
  assumes acc: "accounted A Q s"
    and round: "Q + mset p \<subseteq># Q' + mset p'"
      "ct_messages c' + int (length p') = ct_messages (sn_confirmed s) + int (length p)"
      "ct_events c' + sum_list (map logical_events p') = ct_events (sn_confirmed s) + sum_list (map logical_events p)"
    and flight: "in_flight s = xs @ p @ ys" "in_flight t = xs @ p' @ ys"
    and t: "sn_submitted t = sn_submitted s" "sn_confirmed t = c'"
  shows "accounted A Q' t"
proof -
  have "A + mset (sn_submitted s) \<subseteq># Q + (mset p + mset (xs @ ys))"
    using acc by (simp add: accounted_def flight ac_simps)
  from mset_sub_exchange [OF this round(1)]
  have "A + mset (sn_submitted t) \<subseteq># Q' + mset (in_flight t)" by (simp add: flight t ac_simps)
  moreover have "ct_messages (sn_confirmed t) + int (length (in_flight t)) = int (length (sn_submitted t))"
    using acc round(2) by (simp add: accounted_def flight t)
  moreover have "ct_events (sn_confirmed t) + sum_list (map logical_events (in_flight t))
      = sum_list (map logical_events (sn_submitted t))"
    using acc round(3) by (simp add: accounted_def flight t)
  ultimately show ?thesis by (simp add: accounted_def)
qed

lemma sender_inv_sent:
  assumes inv: "sender_inv stored q0 (q, s)" and C: "queue_contract stored queue"
    and run: "sn_running s = gs @ g # hs" "queue q (go_pending g) = (q', r)"
      "send_attempt (go_attempt g) (go_pending g) r (sn_confirmed s) = (c', SendOK)"
  shows "sender_inv stored q0 (q', s\<lparr>sn_running := gs @ hs, sn_confirmed := c'\<rparr>)"
proof -
  let ?t = "s\<lparr>sn_running := gs @ hs, sn_confirmed := c'\<rparr>"
  note R = round_ok [OF C run(2,3)]
  have "mset (stored q0) \<subseteq># mset (stored q')"
    using inv round_keeps [OF C run(2)] by (auto simp: sender_inv_def intro: subset_mset.order_trans)
  moreover have "accounted (mset (stored q0)) (mset (stored q')) ?t" if "clean s"
  proof (rule accounted_round)
    show "accounted (mset (stored q0)) (mset (stored q)) s" using inv that by (simp add: sender_inv_def)
    show "mset (stored q) + mset (go_pending g) \<subseteq># mset (stored q') + mset ([])" using R by simp
    show "ct_messages c' + int (length ([])) = ct_messages (sn_confirmed s) + int (length (go_pending g))"
      using R by simp
    show "ct_events c' + sum_list (map logical_events ([]))
        = ct_events (sn_confirmed s) + sum_list (map logical_events (go_pending g))" using R by simp
    show "in_flight s = concat (map go_pending gs) @ go_pending g @ concat (map go_pending hs)"
      by (simp add: in_flight_def run(1))
    show "in_flight ?t = concat (map go_pending gs) @ [] @ concat (map go_pending hs)"
      by (simp add: in_flight_def)
  qed simp_all
  moreover have "sender_shape ?t" using inv run(1) by (simp add: sender_inv_def sender_shape_def)
  moreover have "clean ?t = clean s" by (simp add: clean_def)
  ultimately show ?thesis by (simp add: sender_inv_def)
qed

lemma sender_inv_retried:
  assumes inv: "sender_inv stored q0 (q, s)" and C: "queue_contract stored queue"
    and run: "sn_running s = gs @ g # hs" "queue q (go_pending g) = (q', r)"
      "send_attempt (go_attempt g) (go_pending g) r (sn_confirmed s) = (c', Retry p')" "go_attempt g < 3"
  shows "sender_inv stored q0
    (q', s\<lparr>sn_running := gs @ \<lparr>go_pending = p', go_attempt = go_attempt g + 1\<rparr> # hs, sn_confirmed := c'\<rparr>)"
proof -
  let ?t = "s\<lparr>sn_running := gs @ \<lparr>go_pending = p', go_attempt = go_attempt g + 1\<rparr> # hs, sn_confirmed := c'\<rparr>"
  note R = round_retry [OF C run(2,3)]
  have "mset (stored q0) \<subseteq># mset (stored q')"
    using inv round_keeps [OF C run(2)] by (auto simp: sender_inv_def intro: subset_mset.order_trans)
  moreover have "accounted (mset (stored q0)) (mset (stored q')) ?t" if "clean s"
  proof (rule accounted_round)
    show "accounted (mset (stored q0)) (mset (stored q)) s" using inv that by (simp add: sender_inv_def)
    show "mset (stored q) + mset (go_pending g) \<subseteq># mset (stored q') + mset (p')" using R by simp
    show "ct_messages c' + int (length (p')) = ct_messages (sn_confirmed s) + int (length (go_pending g))"
      using R by simp
    show "ct_events c' + sum_list (map logical_events (p'))
        = ct_events (sn_confirmed s) + sum_list (map logical_events (go_pending g))" using R by simp
    show "in_flight s = concat (map go_pending gs) @ go_pending g @ concat (map go_pending hs)"
      by (simp add: in_flight_def run(1))
    show "in_flight ?t = concat (map go_pending gs) @ p' @ concat (map go_pending hs)"
      by (simp add: in_flight_def)
  qed simp_all
  moreover have "sender_shape ?t" using inv run(1,4) by (simp add: sender_inv_def sender_shape_def)
  moreover have "clean ?t = clean s" by (simp add: clean_def)
  ultimately show ?thesis by (simp add: sender_inv_def)
qed

lemma sender_inv_submit:
  assumes "sender_inv stored q0 (q, s)" "length (sn_running s) < sn_slots s"
  shows "sender_inv stored q0 (q, s\<lparr>sn_running := sn_running s @ [\<lparr>go_pending = b, go_attempt = 0\<rparr>],
           sn_submitted := sn_submitted s @ b\<rparr>)"
  using assms by (auto simp: sender_inv_def sender_shape_def accounted_def in_flight_def clean_def ac_simps)

lemma sender_inv_step:
  assumes "queue_contract stored queue" "sender_inv stored q0 x" "sender_step queue x y"
  shows "sender_inv stored q0 y"
  using assms(3,2)
proof cases
  case (submit batch s q)
  with sender_inv_submit [of stored q0 q s batch] assms(2) show ?thesis by simp
next
  case (sent s gs g hs q q' r c')
  with sender_inv_sent [OF _ assms(1)] assms(2) show ?thesis by blast
next
  case (retried s gs g hs q q' r c' p')
  with sender_inv_retried [OF _ assms(1)] assms(2) show ?thesis by blast
next
  case (failed s gs g hs q q' r c' f)
  with sender_inv_failure(1) [of stored q0 q s gs g hs q'] round_keeps [OF assms(1)] assms(2) show ?thesis by blast
next
  case (interrupted s gs g hs q e)
  with sender_inv_failure(2) [of stored q0 q s gs g hs q] assms(2) show ?thesis by blast
next
  case (exhausted s gs g hs q)
  with sender_inv_failure(2) [of stored q0 q s gs g hs q] assms(2) show ?thesis by blast
next
  case (cancelled q s)
  with assms(2) show ?thesis by (simp add: sender_inv_def sender_shape_def accounted_def in_flight_def clean_def)
qed

lemma sender_inv_init: "sender_inv stored q0 (q0, newConcurrentSender n)"
  by (simp add: sender_inv_def sender_shape_def accounted_def newConcurrentSender_def in_flight_def no_counts_def)


text \<open>Nothing stored is lost.\<close>

lemma sender_step_keeps:
  assumes "queue_contract stored queue" "sender_step queue x y"
  shows "mset (stored (fst x)) \<subseteq># mset (stored (fst y))"
  using assms(2) by cases (use round_keeps [OF assms(1)] in auto)

interpretation sender: monotone_system
  "\<lambda>x. \<exists>n. x = (q0, newConcurrentSender n)"
  "\<lambda>x y. queue_contract stored queue \<and> sender_step queue x y"
  "sender_inv stored q0" "\<lambda>x y. mset (stored (fst x)) \<subseteq># mset (stored (fst y))"
  for stored :: "'q \<Rightarrow> OutboundMessage list" and queue q0
proof unfold_locales
  show "sender_inv stored q0 x" if "\<exists>n. x = (q0, newConcurrentSender n)" for x
    using that by (auto simp: sender_inv_init)
  show "sender_inv stored q0 y" if "sender_inv stored q0 x" "queue_contract stored queue \<and> sender_step queue x y" for x y
    by (rule sender_inv_step [OF conjunct1 [OF that(2)] that(1) conjunct2 [OF that(2)]])
  show "mset (stored (fst x)) \<subseteq># mset (stored (fst y))" if "queue_contract stored queue \<and> sender_step queue x y" for x y
    by (rule sender_step_keeps [OF conjunct1 [OF that] conjunct2 [OF that]])
qed auto

lemma sender_reachable:
  assumes "queue_contract stored queue" "(sender_step queue)\<^sup>*\<^sup>* (q0, newConcurrentSender n) x"
  shows "sender_inv stored q0 x"
  using sender.reachable_inv [of "(q0, newConcurrentSender n)" q0 stored queue x] assms by auto

lemma sender_slots_step: "sender_step queue x y \<Longrightarrow> sn_slots (snd y) = sn_slots (snd x)"
  by (erule sender_step.cases) simp_all

lemma sender_slots: "(sender_step queue)\<^sup>*\<^sup>* x y \<Longrightarrow> sn_slots (snd y) = sn_slots (snd x)"
  by (induction rule: rtranclp_induct) (simp_all add: sender_slots_step)

lemma wait_result_None: "wait_result s = None \<longleftrightarrow> clean s"
  by (auto simp: wait_result_def clean_def)

text \<open>A queue that stores every message and reports no failure.\<close>

definition list_queue :: "OutboundMessage list \<Rightarrow> OutboundMessage list \<Rightarrow> OutboundMessage list \<times> (send_error + int list)" where
  "list_queue q ms = (q @ ms, Inr [])"

lemma list_queue_contract: "queue_contract id list_queue"
  by (simp add: queue_contract_def list_queue_def)

definition sample_message :: OutboundMessage where
  "sample_message = \<lparr>om_Body = ''x'', om_Attributes = [], om_LogicalEvents = 2\<rparr>"

subsection \<open>Properties\<close>



text \<open>
  C18. The retry loop of one batch: when \<^verbatim>\<open>send\<close> returns no error, every message of the batch is
  stored in the queue (at least once: a refused request may have stored some before it is
  repeated), and the counters grew by exactly the messages and logical events of the batch.
\<close>

theorem send_at_least_once:
  assumes "queue_contract stored queue" "send queue ctxDone batch c q = (q', c', None)"
  shows "mset (stored q) + mset batch \<subseteq># mset (stored q')
    \<and> ct_messages c' = ct_messages c + int (length batch)
    \<and> ct_events c' = ct_events c + sum_list (map logical_events batch)"
  using send_loop_delivers [OF assms(1), of ctxDone 0 batch c q q' c'] assms(2) by (simp add: send_def)

theorem send_at_least_once_witness:
  "mset [] + mset [sample_message] \<subseteq># mset (id [sample_message])
    \<and> ct_messages \<lparr>ct_messages = 1, ct_events = 2, ct_calls = 1\<rparr> = ct_messages no_counts + int (length [sample_message])
    \<and> ct_events \<lparr>ct_messages = 1, ct_events = 2, ct_calls = 1\<rparr>
        = ct_events no_counts + sum_list (map logical_events [sample_message])"
  using send_at_least_once [OF list_queue_contract, of "\<lambda>_. None" "[sample_message]" no_counts "[]" "[sample_message]"
      "\<lparr>ct_messages = 1, ct_events = 2, ct_calls = 1\<rparr>"]
  by (simp add: send_def send_loop.simps list_queue_def send_attempt_def count_confirmed_def no_counts_def
      logical_events_def sample_message_def)

text \<open>
  C15. The concurrent sender, for every interleaving of submissions, rounds, retries, failures
  and cancellations: it never runs more goroutines than slots; and when all goroutines have
  ended and \<^verbatim>\<open>wait\<close> returns no error, every submitted message is stored in the queue, nothing
  that was stored is lost, and \<^verbatim>\<open>counts\<close> reports exactly the submitted messages and events.
\<close>

theorem concurrent_sender_delivers:
  assumes "queue_contract stored queue" "(sender_step queue)\<^sup>*\<^sup>* (q0, newConcurrentSender n) (q, s)"
  shows "int (length (sn_running s)) \<le> max 1 n
    \<and> (sn_running s = [] \<and> wait_result s = None \<longrightarrow>
         mset (stored q0) + mset (sn_submitted s) \<subseteq># mset (stored q)
         \<and> ct_messages (sn_confirmed s) = int (length (sn_submitted s))
         \<and> ct_events (sn_confirmed s) = sum_list (map logical_events (sn_submitted s)))"
proof -
  note inv = sender_reachable [OF assms]
  have "sn_slots s = sn_slots (newConcurrentSender n)" using sender_slots [OF assms(2)] by simp
  with inv have "int (length (sn_running s)) \<le> max 1 n"
    by (auto simp: sender_inv_def sender_shape_def newConcurrentSender_def split: if_splits)
  with inv show ?thesis
    by (auto simp: sender_inv_def accounted_def wait_result_None in_flight_def)
qed

lemma sample_run:
  "(sender_step list_queue)\<^sup>*\<^sup>* ([], newConcurrentSender 1)
     ([sample_message], (newConcurrentSender 1)\<lparr>sn_submitted := [sample_message],
        sn_confirmed := \<lparr>ct_messages = 1, ct_events = 2, ct_calls = 1\<rparr>\<rparr>)"
proof -
  let ?s = "newConcurrentSender 1" and ?g = "\<lparr>go_pending = [sample_message], go_attempt = 0\<rparr>"
  let ?t = "?s\<lparr>sn_running := sn_running ?s @ [?g], sn_submitted := sn_submitted ?s @ [sample_message]\<rparr>"
  have "sender_step list_queue ([], ?s) ([], ?t)"
    by (rule sender_step.submit)
      (simp_all add: newConcurrentSender_def submit_refused_def oversize_def sample_message_def
        OutboundMessageSize_def port_limits)
  moreover have "sender_step list_queue ([], ?t)
      ([sample_message], ?t\<lparr>sn_running := [] @ [], sn_confirmed := \<lparr>ct_messages = 1, ct_events = 2, ct_calls = 1\<rparr>\<rparr>)"
    by (rule sender_step.sent [of _ "[]" ?g "[]" _ _ _ "Inr []"])
      (simp_all add: newConcurrentSender_def list_queue_def send_attempt_def count_confirmed_def no_counts_def
        logical_events_def sample_message_def)
  ultimately show ?thesis by (simp add: newConcurrentSender_def converse_rtranclp_into_rtranclp)
qed

theorem concurrent_sender_delivers_witness:
  "int (length (sn_running (newConcurrentSender 1))) \<le> max 1 1
    \<and> mset [] + mset [sample_message] \<subseteq># mset [sample_message]
    \<and> (1::int) = int (length [sample_message])"
  using concurrent_sender_delivers [OF list_queue_contract sample_run]
  by (simp add: newConcurrentSender_def wait_result_def)

end
