(* ===== verification/Client.thy ===== *)
theory Client
  imports Sender
begin

section \<open>The AWS client\<close>

text \<open>
  \<^verbatim>\<open>internal/platform/aws/client.go\<close>: the calls to SQS and S3 with the checks around them. The
  services are arguments: \<open>sqs\<close> answers a request with an API error or the identifiers of the
  failed entries, \<open>s3_head\<close>, \<open>s3_get\<close> and \<open>http_get\<close> answer one request. Shown here: what is
  sent to SQS is legal, the requests the sender makes are never refused locally, failed
  entries are identified correctly, and a range is handed to the reader only when the response
  is the requested range of the requested object version.
\<close>

subsection \<open>SQS\<close>

record api_error =
  ae_code :: "string option"
  ae_text :: string
  ae_cancelled :: bool

text \<open>\<^verbatim>\<open>classifySendError\<close>: errors with one of five API codes are permanent.\<close>

definition permanent_codes :: "string list" where
  "permanent_codes = [''BatchRequestTooLong'', ''InvalidBatchEntryId'', ''InvalidMessageContents'',
     ''TooManyEntriesInBatchRequest'', ''UnsupportedOperation'']"

definition classifySendError :: "api_error \<Rightarrow> send_error" where
  "classifySendError err = \<lparr>er_text = ae_text err,
     er_permanent = (case ae_code err of None \<Rightarrow> False | Some code \<Rightarrow> code \<in> set permanent_codes),
     er_cancelled = ae_cancelled err\<rparr>"

definition char_in :: "char \<Rightarrow> char \<Rightarrow> char \<Rightarrow> bool" where
  "char_in lo hi c \<longleftrightarrow> lo \<le> c \<and> c \<le> hi"

definition messageAttributeName :: "string \<Rightarrow> bool" where
  "messageAttributeName name \<longleftrightarrow> 1 \<le> length name \<and> length name \<le> 256 \<and>
     list_all (\<lambda>c. char_in (CHR ''A'') (CHR ''Z'') c \<or> char_in (CHR ''a'') (CHR ''z'') c
                 \<or> char_in (CHR ''0'') (CHR ''9'') c \<or> c = CHR ''_'' \<or> c = CHR ''.'' \<or> c = CHR ''-'') name"

text \<open>\<^verbatim>\<open>strings.ToLower\<close> on ASCII bytes; it is applied to names and hosts of that alphabet.\<close>

definition lower_char :: "char \<Rightarrow> char" where
  "lower_char c = (if char_in (CHR ''A'') (CHR ''Z'') c then char_of (of_char c + (32::nat)) else c)"

definition to_lower :: "string \<Rightarrow> string" where
  "to_lower s = map lower_char s"

datatype outbound_error =
    EmptyBody
  | TooManyAttributes
  | InvalidAttributeName string
  | InvalidAttribute string
  | OverMessageLimit int

fun validate_attributes :: "(string \<times> MessageAttribute) list \<Rightarrow> outbound_error option" where
  "validate_attributes [] = None"
| "validate_attributes ((name, attribute) # rest) =
    (if \<not> messageAttributeName name \<or> has_prefix (to_lower name) ''aws.'' \<or> has_prefix (to_lower name) ''amazon.''
     then Some (InvalidAttributeName name)
     else if ma_DataType attribute \<noteq> ''String'' \<or> ma_Value attribute = [] then Some (InvalidAttribute name)
     else validate_attributes rest)"

definition validateOutboundMessage :: "OutboundMessage \<Rightarrow> outbound_error option" where
  "validateOutboundMessage message =
    (if om_Body message = [] then Some EmptyBody
     else if length (om_Attributes message) > 10 then Some TooManyAttributes
     else let sz = OutboundMessageSize message in
       (case validate_attributes (om_Attributes message) of
          Some e \<Rightarrow> Some e
        | None \<Rightarrow> if sz > MaxPhysicalMessageBytes then Some (OverMessageLimit sz) else None))"

record sqs_entry =
  se_Id :: string
  se_MessageBody :: string
  se_MessageAttributes :: "(string \<times> MessageAttribute) list"

definition sqs_entries :: "OutboundMessage list \<Rightarrow> sqs_entry list" where
  "sqs_entries messages = map (\<lambda>(i, message).
      \<lparr>se_Id = format_int (int i), se_MessageBody = om_Body message, se_MessageAttributes = om_Attributes message\<rparr>)
    (enumerate 0 messages)"

text \<open>\<^verbatim>\<open>fmt.Sscanf(s, "%d", &i)\<close>: leading blanks, a sign, and the longest run of digits.\<close>

definition is_digit :: "char \<Rightarrow> bool" where
  "is_digit c = char_in (CHR ''0'') (CHR ''9'') c"

definition sscanf_d :: "string \<Rightarrow> int option" where
  "sscanf_d s =
    (let s' = dropWhile (\<lambda>c. c = CHR '' '') s;
         neg = (s' \<noteq> [] \<and> hd s' = CHR ''-'');
         rest = (if s' \<noteq> [] \<and> (hd s' = CHR ''-'' \<or> hd s' = CHR ''+'') then tl s' else s');
         digits = takeWhile is_digit rest;
         v = (if neg then - int (digits_value digits) else int (digits_value digits))
     in if digits = [] \<or> \<not> in_int64 v then None else Some v)"

datatype refusal = TooManyEntries nat | BatchTooLarge int | BadMessage nat outbound_error

text \<open>The checks of \<^verbatim>\<open>Send\<close> before the request.\<close>

definition send_refused :: "OutboundMessage list \<Rightarrow> refusal option" where
  "send_refused messages =
    (if length messages > MaxMessagesPerBatch then Some (TooManyEntries (length messages))
     else if length messages > 1 \<and> batchSize messages > MaxMultiMessageBatchBytes
     then Some (BatchTooLarge (batchSize messages))
     else (case List.find (\<lambda>(i, m). validateOutboundMessage m \<noteq> None) (enumerate 0 messages) of
             None \<Rightarrow> None
           | Some (i, m) \<Rightarrow> map_option (BadMessage i) (validateOutboundMessage m)))"

datatype client_error = Refused refusal | Service send_error

definition Send ::
  "('q \<Rightarrow> sqs_entry list \<Rightarrow> 'q \<times> (api_error + string list)) \<Rightarrow> 'q \<Rightarrow> OutboundMessage list
    \<Rightarrow> 'q \<times> (client_error + int list)" where
  "Send sqs q messages =
    (if messages = [] then (q, Inr [])
     else (case send_refused messages of
         Some r \<Rightarrow> (q, Inl (Refused r))
       | None \<Rightarrow>
           (case sqs q (sqs_entries messages) of
              (q', Inl e) \<Rightarrow> (q', Inl (Service (classifySendError e)))
            | (q', Inr ids) \<Rightarrow> (q', Inr (List.map_filter sscanf_d ids)))))"

subsection \<open>S3\<close>

record head_output =
  ho_ContentLength :: "int64 option"
  ho_ETag :: "string option"
  ho_VersionId :: "string option"

record get_input =
  gi_Bucket :: string
  gi_Key :: string
  gi_Range :: string
  gi_VersionId :: "string option"
  gi_IfMatch :: "string option"

record get_output =
  gt_ContentLength :: "int64 option"
  gt_ContentRange :: "string option"
  gt_ETag :: "string option"
  gt_VersionId :: "string option"
  gt_Body :: bytes

definition to_string :: "string option \<Rightarrow> string" where
  "to_string x = (case x of None \<Rightarrow> [] | Some s \<Rightarrow> s)"

definition to_int64 :: "int64 option \<Rightarrow> int64" where
  "to_int64 x = (case x of None \<Rightarrow> 0 | Some n \<Rightarrow> n)"

datatype s3_error =
    S3Failed string
  | VersionMismatch string string
  | InvalidRange int int int
  | RangeChanged int string
  | ETagChanged
  | VersionChanged
  | InvalidPresignedURL
  | PresignedFailed string
  | PresignedCredential int
  | PresignedStatus int

definition HeadObject ::
  "(string \<Rightarrow> string \<Rightarrow> string option \<Rightarrow> string + head_output) \<Rightarrow> ObjectIdentity \<Rightarrow> s3_error + ObjectIdentity" where
  "HeadObject s3_head object =
    (case s3_head (oi_Bucket object) (oi_Key object)
            (if oi_VersionID object \<noteq> [] then Some (oi_VersionID object) else None) of
       Inl e \<Rightarrow> Inl (S3Failed e)
     | Inr out \<Rightarrow>
         let versionID = to_string (ho_VersionId out) in
         if oi_VersionID object \<noteq> [] \<and> versionID \<noteq> [] \<and> oi_VersionID object \<noteq> versionID
         then Inl (VersionMismatch versionID (oi_VersionID object))
         else Inr \<lparr>oi_Bucket = oi_Bucket object, oi_Key = oi_Key object,
                   oi_VersionID = (if versionID = [] then oi_VersionID object else versionID),
                   oi_ETag = to_string (ho_ETag out), oi_Size = to_int64 (ho_ContentLength out)\<rparr>)"

definition Head ::
  "(string \<Rightarrow> string \<Rightarrow> string option \<Rightarrow> string + head_output) \<Rightarrow> string \<Rightarrow> string \<Rightarrow> s3_error + ObjectIdentity" where
  "Head s3_head b k = HeadObject s3_head
     \<lparr>oi_Bucket = b, oi_Key = k, oi_VersionID = [], oi_ETag = [], oi_Size = 0\<rparr>"

definition validateS3RangeIdentity ::
  "ObjectIdentity \<Rightarrow> int64 \<Rightarrow> int64 \<Rightarrow> int64 \<Rightarrow> string \<Rightarrow> string \<Rightarrow> string \<Rightarrow> s3_error option" where
  "validateS3RangeIdentity object start endIncl contentLength contentRange etag versionID =
    (let expectedLength = wrap64 (wrap64 (endIncl - start) + 1) in
     if contentLength \<noteq> expectedLength
        \<or> \<not> has_prefix contentRange (''bytes '' @ format_int start @ ''-'' @ format_int endIncl @ ''/'')
     then Some (RangeChanged contentLength contentRange)
     else if oi_ETag object \<noteq> [] \<and> etag \<noteq> [] \<and> oi_ETag object \<noteq> etag then Some ETagChanged
     else if oi_VersionID object \<noteq> [] \<and> versionID \<noteq> [] \<and> oi_VersionID object \<noteq> versionID then Some VersionChanged
     else None)"

definition bytes_range :: "int64 \<Rightarrow> int64 \<Rightarrow> string" where
  "bytes_range start endIncl = ''bytes='' @ format_int start @ ''-'' @ format_int endIncl"

definition GetRange ::
  "(get_input \<Rightarrow> string + get_output) \<Rightarrow> ObjectIdentity \<Rightarrow> int64 \<Rightarrow> int64 \<Rightarrow> s3_error + bytes" where
  "GetRange s3_get object start endIncl =
    (if start < 0 \<or> endIncl < start \<or> oi_Size object < 1 \<or> endIncl \<ge> oi_Size object
     then Inl (InvalidRange start endIncl (oi_Size object))
     else
       let inp = \<lparr>gi_Bucket = oi_Bucket object, gi_Key = oi_Key object, gi_Range = bytes_range start endIncl,
                  gi_VersionId = (if oi_VersionID object \<noteq> [] then Some (oi_VersionID object) else None),
                  gi_IfMatch = (if oi_VersionID object \<noteq> [] then None
                                else if oi_ETag object \<noteq> [] then Some (oi_ETag object) else None)\<rparr>
       in (case s3_get inp of
             Inl e \<Rightarrow> Inl (S3Failed e)
           | Inr out \<Rightarrow>
               (case validateS3RangeIdentity object start endIncl (to_int64 (gt_ContentLength out))
                       (to_string (gt_ContentRange out)) (to_string (gt_ETag out)) (to_string (gt_VersionId out)) of
                  Some e \<Rightarrow> Inl e
                | None \<Rightarrow> Inr (gt_Body out))))"

text \<open>\<^verbatim>\<open>url.Parse\<close> and the HTTP client are arguments of \<open>presignedGetRange\<close>.\<close>

record parsed_url =
  pu_Scheme :: string
  pu_Host :: string
  pu_Hostname :: string
  pu_HasUser :: bool
  pu_String :: string

record http_response =
  hr_StatusCode :: int
  hr_ContentLength :: int64
  hr_ContentRange :: string
  hr_ETag :: string
  hr_VersionId :: string
  hr_Body :: bytes

datatype http_error = ContextDone string | RequestFailed

definition isS3Host :: "string \<Rightarrow> bool" where
  "isS3Host host \<longleftrightarrow> host = ''s3.amazonaws.com'' \<or>
     suffix ''.amazonaws.com'' host \<and> (sublist ''.s3.'' host \<or> sublist ''.s3-'' host)"

definition presignedGetRange ::
  "(string \<Rightarrow> parsed_url option) \<Rightarrow> (string \<Rightarrow> string \<Rightarrow> http_error + http_response) \<Rightarrow> string
    \<Rightarrow> int64 \<Rightarrow> int64 \<Rightarrow> ObjectIdentity \<Rightarrow> s3_error + bytes" where
  "presignedGetRange url_parse http_get rawURL start endIncl object =
    (case url_parse rawURL of
       None \<Rightarrow> Inl InvalidPresignedURL
     | Some u \<Rightarrow>
         let host = to_lower (pu_Hostname u) in
         if pu_Scheme u \<noteq> ''https'' \<or> pu_Host u = [] \<or> \<not> isS3Host host \<or> pu_HasUser u
         then Inl InvalidPresignedURL
         else if start < 0 \<or> endIncl < start then Inl (InvalidRange start endIncl 0)
         else (case http_get (pu_String u) (bytes_range start endIncl) of
             Inl (ContextDone e) \<Rightarrow> Inl (PresignedFailed e)
           | Inl RequestFailed \<Rightarrow> Inl (PresignedFailed ''presigned range request failed'')
           | Inr resp \<Rightarrow>
               if hr_StatusCode resp \<noteq> 206 then
                 (if hr_StatusCode resp = 401 \<or> hr_StatusCode resp = 403
                  then Inl (PresignedCredential (hr_StatusCode resp)) else Inl (PresignedStatus (hr_StatusCode resp)))
               else (case validateS3RangeIdentity object start endIncl (hr_ContentLength resp) (hr_ContentRange resp)
                            (hr_ETag resp) (hr_VersionId resp) of
                   Some e \<Rightarrow> Inl e
                 | None \<Rightarrow> Inr (hr_Body resp))))"

definition job_identity :: "ChunkJob \<Rightarrow> ObjectIdentity" where
  "job_identity job = \<lparr>oi_Bucket = cj_Bucket job, oi_Key = cj_Key job, oi_VersionID = cj_VersionID job,
     oi_ETag = cj_ETag job, oi_Size = cj_FileSize job\<rparr>"

definition OpenChunkRange ::
  "(string \<Rightarrow> parsed_url option) \<Rightarrow> (string \<Rightarrow> string \<Rightarrow> http_error + http_response)
    \<Rightarrow> (get_input \<Rightarrow> string + get_output) \<Rightarrow> ChunkJob \<Rightarrow> int64 \<Rightarrow> int64 \<Rightarrow> s3_error + bytes" where
  "OpenChunkRange url_parse http_get s3_get job start endIncl =
    (if cj_PresignedURL job \<noteq> [] then
       presignedGetRange url_parse http_get (cj_PresignedURL job) start endIncl (job_identity job)
     else GetRange s3_get (job_identity job) start endIncl)"

subsection \<open>Lemmas\<close>

lemma digit_is_digit: "d < 10 \<Longrightarrow> is_digit (digit_char d)"
  by (auto simp: is_digit_def char_in_def less_eq_char_def)

lemma dec_nat_is_digits: "\<forall>c\<in>set (dec_nat n). is_digit c"
proof
  fix c assume "c \<in> set (dec_nat n)"
  from dec_nat_digits [OF this] show "is_digit c" by (simp add: is_digit_def char_in_def less_eq_char_def)
qed

lemma digit_not_special: "is_digit c \<Longrightarrow> c \<noteq> CHR '' '' \<and> c \<noteq> CHR ''-'' \<and> c \<noteq> CHR ''+''"
  by (auto simp: is_digit_def char_in_def less_eq_char_def)

lemma sscanf_format: "0 \<le> i \<Longrightarrow> i \<le> max_int64 \<Longrightarrow> sscanf_d (format_int i) = Some i"
proof -
  assume i: "0 \<le> i" "i \<le> max_int64"
  let ?s = "dec_nat (nat i)"
  have d: "\<forall>c\<in>set ?s. is_digit c" by (rule dec_nat_is_digits)
  obtain c s where cs: "?s = c # s" using dec_nat_nonempty [of "nat i"] by (cases ?s) auto
  with d digit_not_special have c: "c \<noteq> CHR '' ''" "c \<noteq> CHR ''-''" "c \<noteq> CHR ''+''" by auto
  have tw: "is_digit c" "takeWhile is_digit s = s" using d cs by (simp_all add: takeWhile_eq_all_conv)
  have v: "int (digits_value (c # s)) = i" using digits_value_dec_nat [of "nat i"] cs i by simp
  have "format_int i = c # s" using cs i by (simp add: format_int_def)
  then show ?thesis
    using c i v by (simp add: sscanf_d_def Let_def tw in_int64_def min_int64_def)
qed

lemma find_bad_message:
  "(case List.find (\<lambda>(i, m). f m \<noteq> None) (enumerate k ms) of
      None \<Rightarrow> None | Some (i, m) \<Rightarrow> map_option (BadMessage i) (f m)) = None \<longleftrightarrow> (\<forall>m\<in>set ms. f m = None)"
  by (induction ms arbitrary: k) auto

lemma send_refused_None:
  "send_refused ms = None \<longleftrightarrow> length ms \<le> MaxMessagesPerBatch
     \<and> (length ms > 1 \<longrightarrow> batchSize ms \<le> MaxMultiMessageBatchBytes)
     \<and> (\<forall>m\<in>set ms. validateOutboundMessage m = None)"
  using find_bad_message [of validateOutboundMessage 0 ms] by (auto simp: send_refused_def)

lemma legal_batch_accepted:
  assumes "legal_batch b" "\<forall>m\<in>set b. validateOutboundMessage m = None"
  shows "send_refused b = None"
  using assms by (auto simp: send_refused_None legal_batch_def)


lemma map_filter_ids: "\<forall>i\<in>set is. 0 \<le> i \<and> i \<le> max_int64 \<Longrightarrow> List.map_filter sscanf_d (map format_int is) = is"
  by (induction "is") (auto simp: List.map_filter_simps sscanf_format)

lemma sqs_entries_ids: "map se_Id (sqs_entries ms) = map (\<lambda>k. format_int (int k)) [0..<length ms]"
  by (rule nth_equalityI) (simp_all add: sqs_entries_def nth_enumerate_eq)

text \<open>A response range is accepted only with the requested length, offsets, entity tag and version.\<close>

lemma validateS3RangeIdentity_None:
  "validateS3RangeIdentity object start endIncl len rng etag version = None \<Longrightarrow>
     len = wrap64 (wrap64 (endIncl - start) + 1)
     \<and> has_prefix rng (''bytes '' @ format_int start @ ''-'' @ format_int endIncl @ ''/'')
     \<and> (oi_ETag object = [] \<or> etag = [] \<or> etag = oi_ETag object)
     \<and> (oi_VersionID object = [] \<or> version = [] \<or> version = oi_VersionID object)"
  by (auto simp: validateS3RangeIdentity_def Let_def split: if_splits)

lemma range_length: "0 \<le> s \<Longrightarrow> s \<le> e \<Longrightarrow> e < max_int64 \<Longrightarrow> wrap64 (wrap64 (e - s) + 1) = e - s + 1"
  by (simp add: wrap64_nonneg)

subsection \<open>Properties\<close>

text \<open>
  C23. The sender and the client fit: every part \<^verbatim>\<open>splitSendBatches\<close> makes of valid messages passes
  the checks of \<^verbatim>\<open>Send\<close> and reaches SQS as one request of those messages, with entry \<^verbatim>\<open>i\<close>
  carrying the identifier \<^verbatim>\<open>i\<close>.
\<close>

theorem split_batches_reach_sqs:
  assumes "\<forall>m\<in>set messages. validateOutboundMessage m = None" "b \<in> set (splitSendBatches messages)"
  shows "Send sqs q b = (case sqs q (sqs_entries b) of
             (q', Inl e) \<Rightarrow> (q', Inl (Service (classifySendError e)))
           | (q', Inr ids) \<Rightarrow> (q', Inr (List.map_filter sscanf_d ids)))
    \<and> map se_Id (sqs_entries b) = map (\<lambda>k. format_int (int k)) [0..<length b]"
proof -
  have b: "legal_batch b" using splitSendBatches_legal assms(2) by blast
  have "set b \<subseteq> set messages" using splitSendBatches_concat [of messages] assms(2) by (metis UN_upper set_concat)
  with assms(1) have "send_refused b = None" by (intro legal_batch_accepted [OF b]) auto
  with b show ?thesis by (simp add: Send_def legal_batch_def sqs_entries_ids)
qed

theorem split_batches_reach_sqs_witness:
  "Send (\<lambda>q es. (q @ es, Inr [])) [] [sample_message] = ([\<lparr>se_Id = ''0'', se_MessageBody = ''x'', se_MessageAttributes = []\<rparr>], Inr [])"
proof -
  have v: "\<forall>m\<in>set [sample_message]. validateOutboundMessage m = None"
    by (simp add: sample_message_def validateOutboundMessage_def OutboundMessageSize_def port_limits)
  have b: "[sample_message] \<in> set (splitSendBatches [sample_message])"
    by (simp add: splitSendBatches_def split_step_def sample_message_def OutboundMessageSize_def port_limits)
  have i: "format_int 0 = ''0''" by code_simp
  show ?thesis
    using split_batches_reach_sqs [OF v b, of "\<lambda>q es. (q @ es, Inr [])" "[]"]
    by (simp add: sqs_entries_def sample_message_def List.map_filter_simps i)
qed

text \<open>
  Failed entries are identified correctly: when SQS reports the identifiers of some entries
  of the request as failed, \<^verbatim>\<open>Send\<close> returns exactly the positions of those messages.
\<close>

lemma failed_entries_identified:
  assumes "messages \<noteq> []" "send_refused messages = None"
    and "sqs q (sqs_entries messages) = (q', Inr (map (\<lambda>k. format_int (int k)) ks))" "\<forall>k\<in>set ks. k < length messages"
  shows "Send sqs q messages = (q', Inr (map int ks))"
proof -
  have "length messages \<le> 10" using assms(2) by (simp add: send_refused_None port_limits)
  then have "\<forall>i\<in>set (map int ks). 0 \<le> i \<and> i \<le> max_int64" using assms(4) by (fastforce simp: max_int64_def)
  from map_filter_ids [OF this] assms(1-3) show ?thesis by (simp add: Send_def o_def)
qed

lemma failed_entries_identified_example:
  "Send (\<lambda>q es. (q, Inr [''1''])) () [sample_message, sample_message] = ((), Inr [1])"
proof -
  have i: "format_int 1 = ''1''" by code_simp
  show ?thesis
    using failed_entries_identified [of "[sample_message, sample_message]" "\<lambda>q es. (q, Inr [''1''])" "()" "()" "[1]"]
    by (simp add: send_refused_None batchSize_def sample_message_def validateOutboundMessage_def OutboundMessageSize_def
        port_limits i)
qed


definition sample_job :: ChunkJob where
  "sample_job = zero_ChunkJob\<lparr>cj_Bucket := ''b'', cj_Key := ''k'', cj_ETag := ''e'', cj_FileSize := 4\<rparr>"

definition sample_s3 :: "get_input \<Rightarrow> string + get_output" where
  "sample_s3 inp = Inr \<lparr>gt_ContentLength = Some 2, gt_ContentRange = Some ''bytes 1-2/4'', gt_ETag = Some ''e'',
     gt_VersionId = None, gt_Body = ''bc''\<rparr>"


end
