(* ===== verification/JSON_Scan.thy ===== *)
theory JSON_Scan
  imports Messages
begin

section \<open>Scanning JSON\<close>

text \<open>
  \<^verbatim>\<open>internal/domain/f2e/json.go\<close>, on the scanner of \<^verbatim>\<open>encoding/json\<close>. The decoder of the
  standard library is written out as its state machine (\<open>json_step\<close>): one byte at a time, with
  the stack of open objects and arrays, at most 10000 deep. \<open>json_scan\<close> is the number of bytes
  of the first value, which is what \<^verbatim>\<open>Decoder.InputOffset\<close> reports after \<^verbatim>\<open>Decode\<close>.
  Shown here: what the scans return lies inside the buffer, an object found stays the same
  when more bytes follow, and the starts come out in increasing order.
\<close>

subsection \<open>The scanner of the standard library\<close>

datatype parse_ctx = ObjectKey | ObjectValue | ArrayValue

datatype jstate =
    BeginValue | BeginValueOrEmpty | BeginStringOrEmpty | BeginString | EndValue
  | InString | InEsc | InHex nat | Neg | Digit0 | Digit1 | Dot | Dot0 | Exp | ExpSign | Exp0 | Lit string

datatype jstep = JError | JNext jstate "parse_ctx list" | JDone | JDoneBefore

definition json_space :: "char \<Rightarrow> bool" where
  "json_space c \<longleftrightarrow> c = CHR '' '' \<or> c = CHR 0x09 \<or> c = CHR 0x0D \<or> c = CHR 0x0A"

definition digit :: "char \<Rightarrow> bool" where
  "digit c \<longleftrightarrow> CHR ''0'' \<le> c \<and> c \<le> CHR ''9''"

definition hex_val :: "char \<Rightarrow> nat option" where
  "hex_val c =
    (if digit c then Some (of_char c - 48)
     else if CHR ''a'' \<le> c \<and> c \<le> CHR ''f'' then Some (of_char c - 87)
     else if CHR ''A'' \<le> c \<and> c \<le> CHR ''F'' then Some (of_char c - 55)
     else None)"

definition value_end :: "parse_ctx list \<Rightarrow> jstep" where
  "value_end stk = (if stk = [] then JDone else JNext EndValue stk)"

definition push_ctx :: "jstate \<Rightarrow> parse_ctx \<Rightarrow> parse_ctx list \<Rightarrow> jstep" where
  "push_ctx st p stk = (if length stk < 10000 then JNext st (p # stk) else JError)"

fun end_value :: "parse_ctx list \<Rightarrow> char \<Rightarrow> jstep" where
  "end_value [] c = JDoneBefore"
| "end_value (p # stk) c =
    (if json_space c then JNext EndValue (p # stk)
     else (case p of
         ObjectKey \<Rightarrow> if c = CHR '':'' then JNext BeginValue (ObjectValue # stk) else JError
       | ObjectValue \<Rightarrow> if c = CHR '','' then JNext BeginString (ObjectKey # stk)
                       else if c = CHR ''}'' then value_end stk else JError
       | ArrayValue \<Rightarrow> if c = CHR '','' then JNext BeginValue (ArrayValue # stk)
                      else if c = CHR '']'' then value_end stk else JError))"

definition begin_value :: "parse_ctx list \<Rightarrow> char \<Rightarrow> jstep" where
  "begin_value stk c =
    (if json_space c then JNext BeginValue stk
     else if c = CHR ''{'' then push_ctx BeginStringOrEmpty ObjectKey stk
     else if c = CHR ''['' then push_ctx BeginValueOrEmpty ArrayValue stk
     else if c = CHR 0x22 then JNext InString stk
     else if c = CHR ''-'' then JNext Neg stk
     else if c = CHR ''0'' then JNext Digit0 stk
     else if c = CHR ''t'' then JNext (Lit ''rue'') stk
     else if c = CHR ''f'' then JNext (Lit ''alse'') stk
     else if c = CHR ''n'' then JNext (Lit ''ull'') stk
     else if digit c then JNext Digit1 stk
     else JError)"

definition begin_string :: "parse_ctx list \<Rightarrow> char \<Rightarrow> jstep" where
  "begin_string stk c =
    (if json_space c then JNext BeginString stk
     else if c = CHR 0x22 then JNext InString stk else JError)"

definition after_int :: "parse_ctx list \<Rightarrow> char \<Rightarrow> jstep" where
  "after_int stk c =
    (if c = CHR ''.'' then JNext Dot stk
     else if c = CHR ''e'' \<or> c = CHR ''E'' then JNext Exp stk else end_value stk c)"

fun json_step :: "jstate \<Rightarrow> parse_ctx list \<Rightarrow> char \<Rightarrow> jstep" where
  "json_step BeginValue stk c = begin_value stk c"
| "json_step BeginValueOrEmpty stk c =
    (if json_space c then JNext BeginValueOrEmpty stk
     else if c = CHR '']'' then end_value stk c else begin_value stk c)"
| "json_step BeginStringOrEmpty stk c =
    (if json_space c then JNext BeginStringOrEmpty stk
     else if c = CHR ''}'' then end_value (ObjectValue # tl stk) c else begin_string stk c)"
| "json_step BeginString stk c = begin_string stk c"
| "json_step EndValue stk c = end_value stk c"
| "json_step InString stk c =
    (if c = CHR 0x22 then value_end stk
     else if c = CHR 0x5C then JNext InEsc stk
     else if (of_char c :: nat) < 32 then JError else JNext InString stk)"
| "json_step InEsc stk c =
    (if c \<in> {CHR ''b'', CHR ''f'', CHR ''n'', CHR ''r'', CHR ''t'', CHR 0x5C, CHR ''/'', CHR 0x22}
     then JNext InString stk
     else if c = CHR ''u'' then JNext (InHex 4) stk else JError)"
| "json_step (InHex k) stk c =
    (if hex_val c = None then JError else if k \<le> 1 then JNext InString stk else JNext (InHex (k - 1)) stk)"
| "json_step Neg stk c =
    (if c = CHR ''0'' then JNext Digit0 stk else if digit c then JNext Digit1 stk else JError)"
| "json_step Digit1 stk c = (if digit c then JNext Digit1 stk else after_int stk c)"
| "json_step Digit0 stk c = after_int stk c"
| "json_step Dot stk c = (if digit c then JNext Dot0 stk else JError)"
| "json_step Dot0 stk c =
    (if digit c then JNext Dot0 stk
     else if c = CHR ''e'' \<or> c = CHR ''E'' then JNext Exp stk else end_value stk c)"
| "json_step Exp stk c =
    (if c = CHR ''+'' \<or> c = CHR ''-'' then JNext ExpSign stk else if digit c then JNext Exp0 stk else JError)"
| "json_step ExpSign stk c = (if digit c then JNext Exp0 stk else JError)"
| "json_step Exp0 stk c = (if digit c then JNext Exp0 stk else end_value stk c)"
| "json_step (Lit s) stk c =
    (case s of [] \<Rightarrow> JError
     | x # xs \<Rightarrow> if c \<noteq> x then JError else if xs = [] then value_end stk else JNext (Lit xs) stk)"

definition number_may_end :: "jstate \<Rightarrow> bool" where
  "number_may_end st \<longleftrightarrow> st = Digit0 \<or> st = Digit1 \<or> st = Dot0 \<or> st = Exp0"

fun json_scan :: "jstate \<Rightarrow> parse_ctx list \<Rightarrow> bytes \<Rightarrow> nat option" where
  "json_scan st stk [] = (if stk = [] \<and> number_may_end st then Some 0 else None)"
| "json_scan st stk (c # cs) =
    (case json_step st stk c of
       JError \<Rightarrow> None
     | JNext st' stk' \<Rightarrow> map_option Suc (json_scan st' stk' cs)
     | JDone \<Rightarrow> Some 1
     | JDoneBefore \<Rightarrow> Some 0)"

definition decode_length :: "bytes \<Rightarrow> nat option" where
  "decode_length bs = json_scan BeginValue [] bs"

subsection \<open>Decoding a JSON string\<close>

definition utf8_encode :: "nat \<Rightarrow> bytes" where
  "utf8_encode r =
    (if r < 128 then [char_of r]
     else if r < 2048 then [char_of (192 + r div 64), char_of (128 + r mod 64)]
     else if r < 65536 then [char_of (224 + r div 4096), char_of (128 + r div 64 mod 64), char_of (128 + r mod 64)]
     else [char_of (240 + r div 262144), char_of (128 + r div 4096 mod 64),
           char_of (128 + r div 64 mod 64), char_of (128 + r mod 64)])"

definition replacement :: bytes where
  "replacement = [CHR 0xEF, CHR 0xBF, CHR 0xBD]"

text \<open>\<^verbatim>\<open>getu4\<close>: the code unit of an escape \<^verbatim>\<open>\uXXXX\<close> at the head.\<close>

definition getu4 :: "bytes \<Rightarrow> nat option" where
  "getu4 s =
    (if length s < 6 \<or> s ! 0 \<noteq> CHR 0x5C \<or> s ! 1 \<noteq> CHR ''u'' then None
     else (case (hex_val (s ! 2), hex_val (s ! 3), hex_val (s ! 4), hex_val (s ! 5)) of
         (Some a, Some b, Some c, Some d) \<Rightarrow> Some (((a * 16 + b) * 16 + c) * 16 + d)
       | _ \<Rightarrow> None))"

definition surrogate :: "nat \<Rightarrow> bool" where
  "surrogate r \<longleftrightarrow> 0xD800 \<le> r \<and> r < 0xE000"

definition utf16_pair :: "nat \<Rightarrow> nat \<Rightarrow> nat option" where
  "utf16_pair r1 r2 =
    (if 0xD800 \<le> r1 \<and> r1 < 0xDC00 \<and> 0xDC00 \<le> r2 \<and> r2 < 0xE000
     then Some ((r1 - 0xD800) * 1024 + (r2 - 0xDC00) + 0x10000) else None)"

definition unescape_char :: "char \<Rightarrow> bytes" where
  "unescape_char e =
    (if e = CHR ''b'' then [CHR 0x08] else if e = CHR ''f'' then [CHR 0x0C]
     else if e = CHR ''n'' then [CHR 0x0A] else if e = CHR ''r'' then [CHR 0x0D]
     else if e = CHR ''t'' then [CHR 0x09] else [e])"

function json_unquote :: "bytes \<Rightarrow> bytes" where
  "json_unquote s =
    (if s = [] then []
     else if hd s = CHR 0x5C then
       (case getu4 s of
          Some r \<Rightarrow>
            if surrogate r then
              (case Option.bind (getu4 (drop 6 s)) (utf16_pair r) of
                 Some r' \<Rightarrow> utf8_encode r' @ json_unquote (drop 12 s)
               | None \<Rightarrow> replacement @ json_unquote (drop 6 s))
            else utf8_encode r @ json_unquote (drop 6 s)
        | None \<Rightarrow> (if tl s = [] then [] else unescape_char (hd (tl s)) @ json_unquote (drop 2 s)))
     else if (of_char (hd s) :: nat) < 128 then hd s # json_unquote (tl s)
     else if rune_len s = 0 then replacement @ json_unquote (tl s)
     else take (rune_len s) s @ json_unquote (drop (rune_len s) s))"
  by pat_completeness auto
termination
  by (relation "measure length") (auto simp: length_greater_0_conv)

declare json_unquote.simps [simp del]

subsection \<open>Finding the elements\<close>

definition skip_space :: "bytes \<Rightarrow> bytes" where
  "skip_space bs = dropWhile json_space bs"

text \<open>One object: \<open>bs\<close> starts at its brace; its length if its first key is \<open>name\<close> and it is complete.\<close>

definition object_at :: "string \<Rightarrow> bytes \<Rightarrow> nat option" where
  "object_at name bs =
    (let p = skip_space (tl bs) in
     if p = [] \<or> hd p \<noteq> CHR 0x22 then None
     else (case decode_length p of
         None \<Rightarrow> None
       | Some k \<Rightarrow>
           if json_unquote (take (k - 2) (tl p)) \<noteq> name then None
           else let q = skip_space (drop k p) in
             if q = [] \<or> hd q \<noteq> CHR '':'' then None else decode_length bs))"

fun find_starts :: "string \<Rightarrow> nat \<Rightarrow> bool \<Rightarrow> bool \<Rightarrow> bytes \<Rightarrow> (nat \<times> nat) list" where
  "find_starts name i inString escaped [] = []"
| "find_starts name i inString escaped (c # cs) =
    (if inString then
       (if escaped then find_starts name (Suc i) True False cs
        else if c = CHR 0x5C then find_starts name (Suc i) True True cs
        else if c = CHR 0x22 then find_starts name (Suc i) False False cs
        else find_starts name (Suc i) True False cs)
     else if c = CHR 0x22 then find_starts name (Suc i) True escaped cs
     else if c \<noteq> CHR ''{'' then find_starts name (Suc i) False escaped cs
     else (case object_at name (c # cs) of
         None \<Rightarrow> find_starts name (Suc i) False escaped cs
       | Some k \<Rightarrow> (i, i + k) # find_starts name (Suc i) False escaped cs))"

definition FindJSONObjectStarts :: "bytes \<Rightarrow> string \<Rightarrow> (nat \<times> nat) list" where
  "FindJSONObjectStarts data name = find_starts name 0 False False data"

text \<open>\<^verbatim>\<open>NextCompleteJSONElement\<close>; \<open>None\<close> stands for the pair $(-1, -1)$.\<close>

definition element_gap :: "char \<Rightarrow> bool" where
  "element_gap c \<longleftrightarrow> json_space c \<or> c = CHR '',''"

definition NextCompleteJSONElement :: "bytes \<Rightarrow> nat \<Rightarrow> (nat \<times> nat) option" where
  "NextCompleteJSONElement data pos =
    (let rest = dropWhile element_gap (drop pos data); start = length data - length rest in
     if rest = [] \<or> hd rest = CHR '']'' \<or> hd rest = CHR ''}'' then None
     else map_option (\<lambda>k. (start, start + k)) (decode_length rest))"

lemma json_scan_le: "json_scan st stk bs = Some n \<Longrightarrow> n \<le> length bs"
  by (induction st stk bs arbitrary: n rule: json_scan.induct) (auto split: if_splits jstep.splits)

lemma value_end_stack: "value_end stk = JNext st' stk' \<Longrightarrow> stk' \<noteq> []"
  by (auto simp: value_end_def split: if_splits)

lemma end_value_stack: "end_value stk c = JNext st' stk' \<Longrightarrow> stk' \<noteq> []"
  by (cases "(stk, c)" rule: end_value.cases) (auto split: if_splits parse_ctx.splits dest: value_end_stack)

lemma begin_value_stack: "begin_value stk c = JNext st' stk' \<Longrightarrow> stk \<noteq> [] \<Longrightarrow> stk' \<noteq> []"
  by (auto simp: begin_value_def push_ctx_def split: if_splits)

lemma begin_string_stack: "begin_string stk c = JNext st' stk' \<Longrightarrow> stk \<noteq> [] \<Longrightarrow> stk' \<noteq> []"
  by (auto simp: begin_string_def split: if_splits)

lemma after_int_stack: "after_int stk c = JNext st' stk' \<Longrightarrow> stk \<noteq> [] \<Longrightarrow> stk' \<noteq> []"
  by (auto simp: after_int_def split: if_splits dest: end_value_stack)

lemmas stack_rules = value_end_stack end_value_stack begin_value_stack begin_string_stack after_int_stack

lemma json_step_stack: "json_step st stk c = JNext st' stk' \<Longrightarrow> stk \<noteq> [] \<Longrightarrow> stk' \<noteq> []"
  by (induction st stk c rule: json_step.induct) (auto split: if_splits list.splits dest: stack_rules)

lemma value_end_not_before: "value_end stk \<noteq> JDoneBefore"
  by (simp add: value_end_def)

lemma end_value_not_before: "stk \<noteq> [] \<Longrightarrow> end_value stk c \<noteq> JDoneBefore"
  by (cases "(stk, c)" rule: end_value.cases) (auto simp: value_end_not_before split: if_splits parse_ctx.splits)

lemma json_step_not_before: "stk \<noteq> [] \<Longrightarrow> json_step st stk c \<noteq> JDoneBefore"
  by (induction st stk c rule: json_step.induct)
    (auto simp: value_end_not_before end_value_not_before after_int_def begin_value_def begin_string_def push_ctx_def
      simp del: end_value.simps split: list.splits)

text \<open>Inside an object or array the end of the value does not depend on what follows it.\<close>

lemma json_scan_append: "stk \<noteq> [] \<Longrightarrow> json_scan st stk bs = Some n \<Longrightarrow> json_scan st stk (bs @ post) = Some n"
proof (induction st stk bs arbitrary: n rule: json_scan.induct)
  case (2 st stk c cs)
  then show ?case
    using json_step_stack [of st stk c] json_step_not_before [of stk st c]
    by (auto split: jstep.splits)
qed simp

lemma object_scan_append:
  assumes "decode_length (CHR ''{'' # bs) = Some n"
  shows "decode_length (CHR ''{'' # bs @ post) = Some n \<and> 2 \<le> n \<and> n \<le> Suc (length bs)"
proof -
  have s: "json_step BeginValue [] (CHR ''{'') = JNext BeginStringOrEmpty [ObjectKey]"
    by (simp add: begin_value_def json_space_def push_ctx_def)
  from assms obtain m where m: "json_scan BeginStringOrEmpty [ObjectKey] bs = Some m" "n = Suc m"
    by (auto simp: decode_length_def s simp del: json_step.simps)
  moreover have "m \<noteq> 0"
    using m(1) json_step_not_before [of "[ObjectKey]" BeginStringOrEmpty]
    by (cases bs) (auto split: jstep.splits simp del: json_step.simps)
  ultimately show ?thesis
    using json_scan_append [OF _ m(1), of post] json_scan_le [OF m(1)]
    by (simp add: decode_length_def s del: json_step.simps)
qed

lemma object_at_scan: "object_at name bs = Some k \<Longrightarrow> decode_length bs = Some k"
  by (auto simp: object_at_def Let_def split: if_splits option.splits)

text \<open>The elements found lie inside the buffer, start with a brace, and come in increasing order.\<close>

lemma find_starts_bounds:
  "(s, e) \<in> set (find_starts name i str esc bs) \<Longrightarrow> i \<le> s \<and> s + 2 \<le> e \<and> e \<le> i + length bs \<and> bs ! (s - i) = CHR ''{''"
proof (induction name i str esc bs rule: find_starts.induct)
  case (2 name i inString escaped c cs)
  have later: "i \<le> s \<and> s + 2 \<le> e \<and> e \<le> i + length (c # cs) \<and> (c # cs) ! (s - i) = CHR ''{''"
    if "Suc i \<le> s \<and> s + 2 \<le> e \<and> e \<le> Suc i + length cs \<and> cs ! (s - Suc i) = CHR ''{''"
    using that by (auto simp: nth_Cons')
  show ?case
  proof (cases "inString \<or> c = CHR 0x22 \<or> c \<noteq> CHR ''{''")
    case True
    with "2.prems" "2.IH" later show ?thesis by (auto split: if_splits)
  next
    case False
    show ?thesis
    proof (cases "object_at name (c # cs)")
      case None
      with False "2.prems" "2.IH" later show ?thesis by auto
    next
      case (Some k)
      from object_at_scan [OF this] False have k: "2 \<le> k" "k \<le> Suc (length cs)"
        using object_scan_append [of cs k "[]"] by auto
      from Some False "2.prems" have "(s, e) = (i, i + k) \<or> (s, e) \<in> set (find_starts name (Suc i) False escaped cs)"
        by auto
      then show ?thesis
      proof
        assume "(s, e) = (i, i + k)"
        with k False show ?thesis by simp
      next
        assume "(s, e) \<in> set (find_starts name (Suc i) False escaped cs)"
        with "2.IH" False Some later show ?thesis by auto
      qed
    qed
  qed
qed simp

lemma find_starts_increasing: "sorted_wrt (\<lambda>a b. fst a < fst b) (find_starts name i str esc bs)"
proof (induction name i str esc bs rule: find_starts.induct)
  case (2 name i inString escaped c cs)
  have "Suc i \<le> fst x" if "x \<in> set (find_starts name (Suc i) False escaped cs)" for x
    using find_starts_bounds [of "fst x" "snd x" name "Suc i" False escaped cs] that by simp
  with "2.IH" show ?case by (auto split: option.splits simp: Suc_le_eq)
qed simp

lemma dropWhile_length: "length xs - length (dropWhile P xs) + length (dropWhile P xs) = length xs"
  by (simp add: length_dropWhile_le)

lemma decode_length_pos: "bs \<noteq> [] \<Longrightarrow> decode_length bs = Some k \<Longrightarrow> 0 < k"
proof -
  assume "bs \<noteq> []" "decode_length bs = Some k"
  then obtain c cs where "bs = c # cs" "json_scan BeginValue [] (c # cs) = Some k"
    by (cases bs) (auto simp: decode_length_def)
  then show "0 < k"
    by (auto simp: begin_value_def push_ctx_def split: if_splits)
qed

lemma NextCompleteJSONElement_bounds:
  assumes "NextCompleteJSONElement data pos = Some (s, e)"
  shows "pos \<le> s \<and> s < e \<and> e \<le> length data \<and> decode_length (drop s data) = Some (e - s)"
proof -
  define rest where "rest = dropWhile element_gap (drop pos data)"
  define pre where "pre = take pos data @ takeWhile element_gap (drop pos data)"
  have data: "data = pre @ rest" by (simp add: pre_def rest_def)
  have r: "rest \<noteq> []" and k: "decode_length rest = Some (e - s)" "s = length data - length rest" "s < e"
    using assms decode_length_pos [of rest]
    by (auto simp: NextCompleteJSONElement_def Let_def rest_def [symmetric] split: if_splits)
  have "pos \<le> length data" using r by (cases "pos \<le> length data") (simp_all add: rest_def)
  then have "pos \<le> length pre" by (simp add: pre_def)
  moreover have "s = length pre" using k(2) by (subst (asm) data) simp
  moreover have "e - s \<le> length rest" using json_scan_le k(1) by (simp add: decode_length_def)
  moreover have "drop (length pre) data = rest" "length data = length pre + length rest"
    by (simp_all add: data)
  ultimately show ?thesis using k by auto
qed

function JSONElementEndAfter_from :: "bytes \<Rightarrow> int \<Rightarrow> nat \<Rightarrow> nat option" where
  "JSONElementEndAfter_from data afterPos pos =
    (case NextCompleteJSONElement data pos of
       None \<Rightarrow> None
     | Some (start, endp) \<Rightarrow>
         if int start > afterPos then None
         else if int endp > afterPos then Some endp
         else JSONElementEndAfter_from data afterPos endp)"
  by pat_completeness auto
termination
  by (relation "measure (\<lambda>(data, a, pos). length data - pos)")
    (auto dest!: NextCompleteJSONElement_bounds)

declare JSONElementEndAfter_from.simps [simp del]

text \<open>\<^verbatim>\<open>JSONElementEndAfter\<close>; \<open>None\<close> stands for $-1$.\<close>

definition JSONElementEndAfter :: "bytes \<Rightarrow> int \<Rightarrow> nat option" where
  "JSONElementEndAfter data afterPos = JSONElementEndAfter_from data afterPos 0"

lemma JSONElementEndAfter_from_bounds:
  "JSONElementEndAfter_from data a pos = Some e \<Longrightarrow>
     \<exists>s. pos \<le> s \<and> int s \<le> a \<and> a < int e \<and> e \<le> length data \<and> decode_length (drop s data) = Some (e - s)"
proof (induction data a pos rule: JSONElementEndAfter_from.induct)
  case (1 data a pos)
  note unfold = JSONElementEndAfter_from.simps [of data a pos]
  show ?case
  proof (cases "NextCompleteJSONElement data pos")
    case None
    with "1.prems" unfold show ?thesis by simp
  next
    case (Some se)
    then obtain s' e' where se: "NextCompleteJSONElement data pos = Some (s', e')" by (cases se) auto
    note b = NextCompleteJSONElement_bounds [OF se]
    show ?thesis
    proof (cases "int s' \<le> a \<and> \<not> a < int e'")
      case True
      with "1.prems" unfold se have "JSONElementEndAfter_from data a e' = Some e" by simp
      with "1.IH" [OF se refl] True obtain s where "e' \<le> s" "int s \<le> a" "a < int e" "e \<le> length data"
        "decode_length (drop s data) = Some (e - s)" by auto
      with b show ?thesis by (intro exI [of _ s]) auto
    next
      case False
      with "1.prems" unfold se b show ?thesis by (intro exI [of _ s']) (auto split: if_splits)
    qed
  qed
qed

end
