(* ===== verification/Worker.thy ===== *)
theory Worker
  imports Packer Client Multi_Line JSON_Scan Job_States "HOL-Library.AList"
begin

section \<open>The Worker\<close>

text \<open>
  \<^verbatim>\<open>internal/application/worker/service.go\<close>. One delivery of a chunk job: configuration
  overrides, validation, the ledger checkpoints, the read window, the record readers, the
  envelope of every record, packing, batching, and the completion intent.

  Everything the Worker calls is a field of \<open>worker_ports\<close>, a function on the state \<open>'w\<close> of the
  world: the source resolver, the sender (theory \<open>Sender\<close>), the queue, the two ledgers and
  the clock. The reader's context is \<open>ctx\<close> as in theory \<open>Line_IO\<close>. Not modelled: logging, the
  floating-point rate \<^verbatim>\<open>TPS\<close> of the metrics, and the JSON decoding of the job message, whose
  result is an argument.
\<close>

subsection \<open>The world\<close>

record chunk_body =
  cb_bytes :: bytes
  cb_end :: read_end
  cb_close :: "string option"

datatype ledger_error = ErrAlreadyCompleted | LedgerError string

record 'w ledger_ports =
  lp_StartChunk :: "string \<Rightarrow> string \<Rightarrow> int \<Rightarrow> 'w \<Rightarrow> 'w \<times> ledger_error option"
  lp_CompleteChunk :: "ChunkResult \<Rightarrow> 'w \<Rightarrow> 'w \<times> ledger_error option"
  lp_FailChunk :: "ChunkResult \<Rightarrow> 'w \<Rightarrow> 'w \<times> ledger_error option"

record 'w completion_ports =
  kp_ReconcileCompletion :: "string \<Rightarrow> 'w \<Rightarrow> 'w \<times> (string + CompletionIntent option)"
  kp_MarkIntentDelivered :: "string \<Rightarrow> int64 \<Rightarrow> 'w \<Rightarrow> 'w \<times> string option"

record 'w worker_ports =
  wp_OpenChunkRange :: "ChunkJob \<Rightarrow> int64 \<Rightarrow> int64 \<Rightarrow> 'w \<Rightarrow> 'w \<times> (string + chunk_body)"
  wp_submit :: "OutboundMessage list \<Rightarrow> 'w \<Rightarrow> 'w \<times> send_failure option"
  wp_wait :: "'w \<Rightarrow> 'w \<times> send_failure option \<times> counters"
  wp_Send :: "string \<Rightarrow> OutboundMessage list \<Rightarrow> 'w \<Rightarrow> 'w \<times> (string + int list)"
  wp_Ledger :: "'w ledger_ports option"
  wp_CompletionLedger :: "'w completion_ports option"
  wp_now :: "'w \<Rightarrow> string"
  wp_nowInstant :: "'w \<Rightarrow> int"
  wp_millis :: "'w \<Rightarrow> int64"
  wp_marshalEvent :: "CompletionEvent \<Rightarrow> string"

subsection \<open>The read window\<close>

datatype window_error = MissingMaxBytesPerElement | OverlapOverflow

definition clamp_window :: "ChunkJob \<Rightarrow> int64 \<Rightarrow> int64 \<times> int64" where
  "clamp_window j overlap =
    (let start = wrap64 (cj_StartByte j - overlap); endp = wrap64 (cj_EndByteInclusive j + overlap)
     in (if start < 0 then 0 else start, if endp \<ge> cj_FileSize j then cj_FileSize j - 1 else endp))"

definition chunkReadRange :: "ChunkJob \<Rightarrow> window_error + int64 \<times> int64" where
  "chunkReadRange j =
    (if cj_DataType j = DataTypeJSON \<and> cj_FileSize j > 0 then
       (let overlap = ja_MaxBytesPerElement (cj_JSONArrayLayout j) in
        if overlap < 1 then Inl MissingMaxBytesPerElement else Inr (clamp_window j overlap))
     else if cj_DataType j \<noteq> DataTypeText \<or> cj_MaxRecordLengthBytes j = 0 then
       Inr (cj_StartByte j, cj_EndByteInclusive j)
     else if cj_FileSize j < 1 then Inr (cj_StartByte j, cj_EndByteInclusive j)
     else
       let overlap = wrap64 (9 * cj_MaxRecordLengthBytes j) in
       if go_div overlap (cj_MaxRecordLengthBytes j) \<noteq> 9 then Inl OverlapOverflow
       else Inr (clamp_window j overlap))"

definition hasLineTerminator :: "bytes \<Rightarrow> bool" where
  "hasLineTerminator data = list_ex (\<lambda>b. b = LF \<or> b = CR) data"

datatype boundary_side = StartSide | EndSide

text \<open>The error names the side, the byte and the number of bytes searched.\<close>

definition validateTextBoundaries ::
  "ChunkJob \<Rightarrow> int64 \<Rightarrow> int64 \<Rightarrow> bytes \<Rightarrow> (boundary_side \<times> int64 \<times> int64) option" where
  "validateTextBoundaries j readStart readEnd data =
    (if cj_FileSize j < 1 then None
     else if cj_StartByte j > 0 \<and> \<not> hasLineTerminator (take (nat (cj_StartByte j - readStart)) data) then
       Some (StartSide, cj_StartByte j, readEnd - readStart + 1)
     else if cj_EndByteInclusive j < cj_FileSize j - 1 \<and>
             (let offset = cj_EndByteInclusive j + 1 - readStart in
              offset < 0 \<or> offset > int (length data) \<or> \<not> hasLineTerminator (drop (nat offset) data)) then
       Some (EndSide, cj_EndByteInclusive j, readEnd - readStart + 1)
     else None)"

subsection \<open>Validation of the job\<close>

datatype chunk_error = BadChunkData | ChunkTooLarge int int | BadChunkType string | BadPadding | NoBreakFields | BadJSON

definition chunk_length :: "ChunkJob \<Rightarrow> int64" where
  "chunk_length j = wrap64 (wrap64 (cj_EndByteInclusive j - cj_StartByte j) + 1)"

definition valid :: "Config \<Rightarrow> ChunkJob \<Rightarrow> chunk_error option" where
  "valid cfg j =
    (if cj_SchemaVersion j \<noteq> SchemaVersion \<or> cj_Bucket j = [] \<or> cj_Key j = [] \<or> cj_EndByteInclusive j < cj_StartByte j
     then Some BadChunkData
     else let maxBytes = (if cf_MaxChunkBytes cfg = 0 then 64 * 1024 * 1024 else cf_MaxChunkBytes cfg) in
       if chunk_length j > maxBytes then Some (ChunkTooLarge (chunk_length j) maxBytes)
       else if cj_DataType j \<noteq> DataTypeText \<and> cj_DataType j \<noteq> DataTypeMultiLine \<and> cj_DataType j \<noteq> DataTypeJSON
       then Some (BadChunkType (cj_DataType j))
       else if cj_MaxRecordLengthBytes j > 0 \<and>
               (cj_TrailingPaddingBytes j < 0 \<or> cj_TrailingPaddingBytes j > cj_MaxRecordLengthBytes j
                \<or> chunk_length j < cj_TrailingPaddingBytes j)
       then Some BadPadding
       else if cj_DataType j = DataTypeMultiLine \<and> length (ml_BreakFields (cj_MultiLineLayout j)) = 0
       then Some NoBreakFields
       else if cj_DataType j = DataTypeJSON \<and>
               (ja_MaxBytesPerElement (cj_JSONArrayLayout j) < 1 \<or> ja_FirstFieldName (cj_JSONArrayLayout j) = [])
       then Some BadJSON
       else None)"

subsection \<open>Envelopes\<close>

text \<open>A JSON object of the present members, in order.\<close>

definition json_object :: "(string \<times> string option) list \<Rightarrow> string" where
  "json_object ms = ''{'' @ join_with '','' (List.map_filter
     (\<lambda>(k, v). map_option (\<lambda>x. json_string k @ '':'' @ x) v) ms) @ ''}''"

definition omitempty :: "string \<Rightarrow> string option" where
  "omitempty s = (if s = [] then None else Some (json_string s))"

definition marshal_envelope :: "Envelope \<Rightarrow> bytes" where
  "marshal_envelope env =
    (let m = en_Metadata env; so = en_Source env; p = en_Processing env in
     json_object
      [(''metadata'', Some (json_object
         [(''eventId'', Some (json_string (md_EventID m))),
          (''sourceRecordId'', Some (json_string (md_SourceRecordID m))),
          (''schema'', Some (json_object [(''id'', Some (json_string (sc_ID (md_Schema m)))),
                                          (''version'', Some (json_string (sc_Version (md_Schema m))))])),
          (''format'', Some (json_string (md_Format m))),
          (''createdAt'', Some (json_string (md_CreatedAt m))),
          (''transactionId'', omitempty (md_TransactionID m)),
          (''correlationId'', omitempty (md_CorrelationID m)),
          (''traceId'', omitempty (md_TraceID m))])),
       (''source'', Some (json_object
         [(''type'', Some (json_string (so_Type so))), (''system'', omitempty (so_System so)),
          (''bucket'', omitempty (so_Bucket so)), (''key'', omitempty (so_Key so)),
          (''versionId'', omitempty (so_VersionID so)), (''etag'', omitempty (so_ETag so)),
          (''fileName'', omitempty (so_FileName so)), (''fileFormat'', omitempty (so_FileFormat so)),
          (''fileSize'', if so_FileSize so = 0 then None else Some (format_int (so_FileSize so)))])),
       (''processing'', Some (json_object
         [(''jobId'', Some (json_string (pr_JobID p))), (''chunkId'', Some (json_string (pr_ChunkID p))),
          (''recordNumber'', map_option format_int (pr_RecordNumber p)),
          (''byteOffset'', map_option format_int (pr_ByteOffset p)),
          (''byteLength'', map_option format_int (pr_ByteLength p))])),
       (''data'', Some (json_object [(''raw'', omitempty (rp_Raw (en_Data env)))]))])"

text \<open>\<^verbatim>\<open>path.Base\<close>: the last element, without trailing slashes.\<close>

definition path_base :: "string \<Rightarrow> string" where
  "path_base s =
    (if s = [] then ''.''
     else let t = rev (dropWhile (\<lambda>c. c = CHR ''/'') (rev s))
       in if t = [] then ''/'' else rev (takeWhile (\<lambda>c. c \<noteq> CHR ''/'') (rev t)))"

definition record_offset :: "ChunkJob \<Rightarrow> int64 \<Rightarrow> int64 \<Rightarrow> int64" where
  "record_offset j readStart off =
     (if cj_MaxRecordLengthBytes j > 0 then wrap64 (readStart + off) else wrap64 (cj_StartByte j + off))"

definition event_id :: "ChunkJob \<Rightarrow> int64 \<Rightarrow> string" where
  "event_id j byteOffset = sha256_hex (cj_JobID j @ ''/'' @ SourceRecordID (cj_FileID j) byteOffset)"

definition record_envelope ::
  "Config \<Rightarrow> string \<Rightarrow> ChunkJob \<Rightarrow> int64 \<Rightarrow> int64 \<Rightarrow> int64 \<Rightarrow> int64 \<Rightarrow> string \<Rightarrow> Envelope" where
  "record_envelope cfg createdAt j readStart physicalLength n off raw =
    (let byteOffset = record_offset j readStart off;
         recordNumber = (if cj_ChunkID j = ''00000001'' \<or> cj_StartByte j = 0
                         then Some (wrap64 (wrap64 (cj_StartRecord j + n) + 1)) else None);
         byteLen = (if (cj_DataType j = DataTypeJSON \<or> cj_DataType j = DataTypeText \<or> cj_DataType j = DataTypeMultiLine)
                       \<and> raw \<noteq> [] then Some (int (length raw))
                    else if physicalLength > 0 then Some physicalLength else None)
     in \<lparr>en_Metadata = \<lparr>md_EventID = event_id j byteOffset, md_SourceRecordID = SourceRecordID (cj_FileID j) byteOffset,
           md_Schema = \<lparr>sc_ID = cf_EventSchemaID cfg, sc_Version = cf_EventSchemaVersion cfg\<rparr>,
           md_Format = cf_EventFormat cfg, md_CreatedAt = createdAt,
           md_TransactionID = cc_TransactionID (cj_Context j), md_CorrelationID = cc_CorrelationID (cj_Context j),
           md_TraceID = cc_TraceID (cj_Context j)\<rparr>,
         en_Source = \<lparr>so_Type = ''s3'', so_System = cc_SourceSystem (cj_Context j), so_Bucket = cj_Bucket j,
           so_Key = cj_Key j, so_VersionID = cj_VersionID j, so_ETag = cj_ETag j, so_FileName = path_base (cj_Key j),
           so_FileFormat = cj_DataType j, so_FileSize = cj_FileSize j\<rparr>,
         en_Processing = \<lparr>pr_JobID = cj_JobID j, pr_ChunkID = cj_ChunkID j, pr_RecordNumber = recordNumber,
           pr_ByteOffset = Some byteOffset, pr_ByteLength = byteLen\<rparr>,
         en_Data = \<lparr>rp_Raw = raw\<rparr>\<rparr>)"

definition message_attributes :: "Envelope \<Rightarrow> (string \<times> MessageAttribute) list" where
  "message_attributes env =
    (let m = en_Metadata env; attr = (\<lambda>v. \<lparr>ma_DataType = ''String'', ma_Value = v\<rparr>) in
     [(''schema'', attr (sc_ID (md_Schema m) @ '':'' @ sc_Version (md_Schema m))), (''format'', attr (md_Format m))]
     @ map (\<lambda>(k, v). (k, attr v)) (filter (\<lambda>(k, v). v \<noteq> [])
         [(''transactionId'', md_TransactionID m), (''correlationId'', md_CorrelationID m),
          (''traceId'', md_TraceID m), (''sourceSystem'', so_System (en_Source env))]))"

subsection \<open>Publishing\<close>

datatype publish_error =
    SubmitFailed send_failure
  | PackFailed pack_error
  | EventTooLong int int
  | TooManyMessageAttributes
  | ElementTooLong int
  | ContextCancelled string

record 'w stream_state =
  ss_batch :: "OutboundMessage list"
  ss_packer :: "bundlePacker option"
  ss_counts :: Counts
  ss_world :: 'w

definition sendBatch :: "'w worker_ports \<Rightarrow> 'w stream_state \<Rightarrow> publish_error option \<times> 'w stream_state" where
  "sendBatch ports st =
    (case wp_submit ports (ss_batch st) (ss_world st) of
       (w, Some e) \<Rightarrow> (Some (SubmitFailed e), st\<lparr>ss_world := w\<rparr>)
     | (w, None) \<Rightarrow> (None, st\<lparr>ss_batch := [], ss_world := w\<rparr>))"

definition enqueueSingle ::
  "'w worker_ports \<Rightarrow> int \<Rightarrow> OutboundMessage \<Rightarrow> 'w stream_state \<Rightarrow> publish_error option \<times> 'w stream_state" where
  "enqueueSingle ports batchSz msg st =
    (let st' = st\<lparr>ss_batch := ss_batch st @ [msg]\<rparr> in
     if int (length (ss_batch st')) = batchSz then sendBatch ports st' else (None, st'))"

definition enqueueBundle ::
  "'w worker_ports \<Rightarrow> int \<Rightarrow> bundlePacker \<Rightarrow> Envelope \<Rightarrow> bytes \<Rightarrow> 'w stream_state
    \<Rightarrow> publish_error option \<times> 'w stream_state" where
  "enqueueBundle ports batchSz p env serialised st =
    (case add p env serialised of
       (p', Inl e) \<Rightarrow> (Some (PackFailed e), st\<lparr>ss_packer := Some p'\<rparr>)
     | (p', Inr None) \<Rightarrow> (None, st\<lparr>ss_packer := Some p'\<rparr>)
     | (p', Inr (Some flushed)) \<Rightarrow> enqueueSingle ports batchSz flushed (st\<lparr>ss_packer := Some p'\<rparr>))"

definition bump_reason :: "RejectionReason \<Rightarrow> int64 \<Rightarrow> Counts \<Rightarrow> Counts" where
  "bump_reason r k c =
    (let old = (case map_of (co_Reasons c) r of None \<Rightarrow> 0 | Some n \<Rightarrow> n)
     in c\<lparr>co_Reasons := AList.update r (old + k) (co_Reasons c)\<rparr>)"

definition reject_record :: "Counts \<Rightarrow> Counts" where
  "reject_record c = bump_reason RejectionMessageTooLarge 1 (c\<lparr>co_RecordsRejected := co_RecordsRejected c + 1\<rparr>)"

definition event_limit :: "Config \<Rightarrow> int" where
  "event_limit cfg = (if cf_MaxEventBytes cfg = 0 then DefaultMaxEventBytes else cf_MaxEventBytes cfg)"

definition publish ::
  "'w worker_ports \<Rightarrow> Config \<Rightarrow> int \<Rightarrow> ChunkJob \<Rightarrow> int64 \<Rightarrow> int64 \<Rightarrow> (publish_error, 'w stream_state) line_fn" where
  "publish ports cfg batchSz j readStart physicalLength n off raw st0 =
    (let st = st0\<lparr>ss_counts := (ss_counts st0)\<lparr>co_RecordsRead := co_RecordsRead (ss_counts st0) + 1\<rparr>\<rparr>;
         env = record_envelope cfg (wp_now ports (ss_world st)) j readStart physicalLength n off raw;
         b = marshal_envelope env;
         maxEventBytes = event_limit cfg
     in if int (length b) > maxEventBytes \<and> maxEventBytes < MaxPhysicalMessageBytes
        then (Some (EventTooLong (int (length b)) maxEventBytes), st)
        else
          let attrs = message_attributes env in
          if length attrs > 10 then (Some TooManyMessageAttributes, st)
          else (case ss_packer st of
              Some p \<Rightarrow>
                (case enqueueBundle ports batchSz p env b st of
                   (Some (PackFailed (EnvelopeTooLarge big)), st') \<Rightarrow>
                     (None, st'\<lparr>ss_counts := reject_record (ss_counts st')\<rparr>)
                 | (Some e, st') \<Rightarrow> (Some e, st')
                 | (None, st') \<Rightarrow> (None, st'))
            | None \<Rightarrow>
                let message = \<lparr>om_Body = b, om_Attributes = attrs, om_LogicalEvents = 1\<rparr> in
                if OutboundMessageSize message > MaxPhysicalMessageBytes
                then (None, st\<lparr>ss_counts := reject_record (ss_counts st)\<rparr>)
                else enqueueSingle ports batchSz message st))"

text \<open>The closure \<^verbatim>\<open>flush\<close>: the packer's remainder, the last batch, and the end of all sends.\<close>

definition flush_batch :: "'w worker_ports \<Rightarrow> 'w stream_state \<Rightarrow> publish_error option \<times> 'w stream_state" where
  "flush_batch ports st = (if ss_batch st \<noteq> [] then sendBatch ports st else (None, st))"

definition wait_and_count :: "'w worker_ports \<Rightarrow> 'w stream_state \<Rightarrow> publish_error option \<times> 'w stream_state" where
  "wait_and_count ports st =
    (case wp_wait ports (ss_world st) of
       (w, Some e, c) \<Rightarrow> (Some (SubmitFailed e), st\<lparr>ss_world := w\<rparr>)
     | (w, None, c) \<Rightarrow> (None, st\<lparr>ss_world := w,
         ss_counts := (ss_counts st)\<lparr>co_MessagesPublished := ct_messages c, co_RecordsPublished := ct_events c,
                                     co_SendMessageBatchCalls := ct_calls c\<rparr>\<rparr>))"

definition flush_packer :: "'w stream_state \<Rightarrow> publish_error option \<times> 'w stream_state" where
  "flush_packer st =
    (case ss_packer st of
       None \<Rightarrow> (None, st)
     | Some p \<Rightarrow>
         (case flush p of
            (p', Inl e) \<Rightarrow> (Some (PackFailed e), st\<lparr>ss_packer := Some p'\<rparr>)
          | (p', Inr None) \<Rightarrow> (None, st\<lparr>ss_packer := Some p'\<rparr>)
          | (p', Inr (Some m)) \<Rightarrow> (None, st\<lparr>ss_packer := Some p', ss_batch := ss_batch st @ [m]\<rparr>)))"

definition flush_stream :: "'w worker_ports \<Rightarrow> 'w stream_state \<Rightarrow> publish_error option \<times> 'w stream_state" where
  "flush_stream ports st =
    (case flush_packer st of
       (Some e, st') \<Rightarrow> (Some e, st')
     | (None, st') \<Rightarrow>
         (case flush_batch ports st' of
            (Some e, st'') \<Rightarrow> (Some e, st'')
          | (None, st'') \<Rightarrow> wait_and_count ports st''))"

subsection \<open>The record readers\<close>

text \<open>The callback of a reader that owns a range: records that start elsewhere are skipped.\<close>

definition owned_only :: "bool \<Rightarrow> ChunkJob \<Rightarrow> int64 \<Rightarrow> ('e, 's) line_fn \<Rightarrow> ('e, 's) line_fn" where
  "owned_only always j readStart pub n off raw s =
    (if (always \<or> cj_MaxRecordLengthBytes j > 0) \<and>
        (wrap64 (readStart + off) < cj_StartByte j
         \<or> wrap64 (readStart + off) > wrap64 (cj_EndByteInclusive j - cj_TrailingPaddingBytes j))
     then (None, s) else pub n off raw s)"

definition read_text ::
  "(nat \<Rightarrow> string option) \<Rightarrow> Config \<Rightarrow> ChunkJob \<Rightarrow> bytes \<Rightarrow> read_end \<Rightarrow> int64 \<Rightarrow> ('e, 's) line_fn \<Rightarrow> 's
    \<Rightarrow> 'e line_error option \<times> 's" where
  "read_text ctx cfg j data re readStart pub s =
    (let lineLimit = (if cj_MaxRecordLengthBytes j = 0 then event_limit cfg else cj_MaxRecordLengthBytes j)
     in ReadLines ctx data re lineLimit (cj_MaxRecordLengthBytes j > 0 \<and> readStart > 0)
          (owned_only False j readStart pub) s)"

definition read_multiline ::
  "(nat \<Rightarrow> string option) \<Rightarrow> ChunkJob \<Rightarrow> bytes \<Rightarrow> read_end \<Rightarrow> int64 \<Rightarrow> ('e, 's) line_fn \<Rightarrow> 's
    \<Rightarrow> 'e line_error option \<times> Stats \<times> 's" where
  "read_multiline ctx j data re readStart pub s =
     ReadMultiLineLayoutWithStats ctx data re (cj_MultiLineLayout j) (owned_only True j readStart pub) s"

text \<open>\<^verbatim>\<open>alignJSONRead\<close>: drop the bytes before the first complete object of the array.\<close>

function align_from :: "string \<Rightarrow> nat \<Rightarrow> bytes \<Rightarrow> nat option" where
  "align_from name offset data =
    (let rest = dropWhile (\<lambda>c. c \<noteq> CHR ''{'') data; offset' = offset + (length data - length rest);
         starts = FindJSONObjectStarts rest name
     in if rest = [] then None
        else if starts \<noteq> [] \<and> fst (hd starts) = 0 then Some offset'
        else align_from name (offset' + 1) (tl rest))"
  by pat_completeness auto
termination
proof (relation "measure (\<lambda>(name, offset, data). length data)")
  fix name :: string and offset :: nat and data x xa xb
  assume x: "x = dropWhile (\<lambda>c. c \<noteq> CHR ''{'') data" and ne: "x \<noteq> []"
  have "length x \<le> length data" unfolding x by (rule length_dropWhile_le)
  moreover have "0 < length x" using ne by (rule length_greater_0_conv [THEN iffD2])
  ultimately have "length (tl x) < length data" unfolding length_tl by linarith
  then show "((name, xa + 1, tl x), name, offset, data) \<in> measure (\<lambda>(name, offset, data). length data)" by simp
qed simp_all

declare align_from.simps [simp del]

definition alignJSONRead :: "bytes \<Rightarrow> int64 \<Rightarrow> string \<Rightarrow> bytes \<times> int64" where
  "alignJSONRead data readStart firstFieldName =
    (case align_from firstFieldName 0 data of
       None \<Rightarrow> (data, readStart)
     | Some offset \<Rightarrow> (drop offset data, wrap64 (readStart + int offset)))"

fun read_elements ::
  "(nat \<Rightarrow> string option) \<Rightarrow> ChunkJob \<Rightarrow> bytes \<Rightarrow> int64 \<Rightarrow> nat \<Rightarrow> int64 \<Rightarrow> (nat \<times> nat) list
    \<Rightarrow> (publish_error, 's) line_fn \<Rightarrow> 's \<Rightarrow> publish_error option \<times> 's" where
  "read_elements ctx j data readStart it n [] fn s = (None, s)"
| "read_elements ctx j data readStart it n ((a, b) # els) fn s =
    (case ctx it of
       Some e \<Rightarrow> (Some (ContextCancelled e), s)
     | None \<Rightarrow>
         let fileOffset = wrap64 (readStart + int a) in
         if fileOffset \<ge> cj_StartByte j \<and> fileOffset \<le> cj_EndByteInclusive j then
           (if int (b - a) > ja_MaxBytesPerElement (cj_JSONArrayLayout j) then (Some (ElementTooLong fileOffset), s)
            else (case fn n (wrap64 (fileOffset - readStart)) (take (b - a) (drop a data)) s of
                (Some e, s') \<Rightarrow> (Some e, s')
              | (None, s') \<Rightarrow> read_elements ctx j data readStart (Suc it) (n + 1) els fn s'))
         else read_elements ctx j data readStart (Suc it) n els fn s)"

definition readJSONArray ::
  "(nat \<Rightarrow> string option) \<Rightarrow> ChunkJob \<Rightarrow> bytes \<Rightarrow> int64 \<Rightarrow> (publish_error, 's) line_fn \<Rightarrow> 's
    \<Rightarrow> publish_error option \<times> 's" where
  "readJSONArray ctx j data0 readStart0 fn s =
    (let name = ja_FirstFieldName (cj_JSONArrayLayout j); (data, readStart) = alignJSONRead data0 readStart0 name
     in read_elements ctx j data readStart 0 0 (FindJSONObjectStarts data name) fn s)"

subsection \<open>Streaming a chunk\<close>

datatype stream_error =
    LineFailed "publish_error line_error"
  | ReadAllFailed string
  | PublishFailed publish_error

definition stream_start :: "ChunkJob \<Rightarrow> 'w \<Rightarrow> 'w stream_state" where
  "stream_start j w =
    \<lparr>ss_batch = [],
     ss_packer = (if (if jc_OutputMode (cj_Configuration j) = [] then OutputModeSingle
                      else jc_OutputMode (cj_Configuration j)) = OutputModeBundle
                  then Some (newBundlePacker j (cj_Configuration j)) else None),
     ss_counts = zero_Counts\<lparr>co_CountsComplete := True\<rparr>, ss_world = w\<rparr>"

definition effective_batch_size :: "Config \<Rightarrow> int" where
  "effective_batch_size cfg = (if cf_BatchSize cfg = 0 then 10 else cf_BatchSize cfg)"

definition count_ignored :: "Stats \<Rightarrow> Counts \<Rightarrow> Counts" where
  "count_ignored stats c =
    (let c' = c\<lparr>co_PhysicalLinesIgnored := co_PhysicalLinesIgnored c + st_HeaderLinesIgnored stats + st_TrailerLinesIgnored stats\<rparr>
     in if st_HeaderLinesIgnored stats > 0 \<or> st_TrailerLinesIgnored stats > 0
        then bump_reason IgnoreMultiLineTrailer (st_TrailerLinesIgnored stats)
               (bump_reason IgnoreMultiLineHeader (st_HeaderLinesIgnored stats) c')
        else c')"

text \<open>The \<^verbatim>\<open>switch\<close> on the data type; any other type reads nothing.\<close>

definition read_records ::
  "'w worker_ports \<Rightarrow> (nat \<Rightarrow> string option) \<Rightarrow> Config \<Rightarrow> ChunkJob \<Rightarrow> bytes \<Rightarrow> read_end \<Rightarrow> int64 \<Rightarrow> 'w stream_state
    \<Rightarrow> stream_error option \<times> 'w stream_state" where
  "read_records ports ctx cfg j data re readStart st =
    (let batchSz = effective_batch_size cfg in
     if cj_DataType j = DataTypeText then
       map_prod (map_option LineFailed) id
         (read_text ctx cfg j data re readStart (publish ports cfg batchSz j readStart 0) st)
     else if cj_DataType j = DataTypeMultiLine then
       (case read_multiline ctx j data re readStart (publish ports cfg batchSz j readStart 0) st of
          (e, stats, st') \<Rightarrow> (map_option LineFailed e, st'\<lparr>ss_counts := count_ignored stats (ss_counts st')\<rparr>))
     else if cj_DataType j = DataTypeJSON then
       (case re of
          ReadErr e \<Rightarrow> (Some (ReadAllFailed e), st)
        | EOF \<Rightarrow> map_prod (map_option PublishFailed) id
            (readJSONArray ctx j data readStart
               (\<lambda>n off raw. publish ports cfg batchSz j readStart (int (length raw)) n off raw) st))
     else (None, st))"

definition streamWithMetrics ::
  "'w worker_ports \<Rightarrow> (nat \<Rightarrow> string option) \<Rightarrow> Config \<Rightarrow> ChunkJob \<Rightarrow> bytes \<Rightarrow> read_end \<Rightarrow> int64 \<Rightarrow> 'w
    \<Rightarrow> 'w \<times> (stream_error + Counts)" where
  "streamWithMetrics ports ctx cfg j data re readStart w =
    (case read_records ports ctx cfg j data re readStart (stream_start j w) of
       (Some e, st) \<Rightarrow> (ss_world st, Inl e)
     | (None, st) \<Rightarrow>
         (case flush_stream ports st of
            (Some e, st') \<Rightarrow> (ss_world st', Inl (PublishFailed e))
          | (None, st') \<Rightarrow> (ss_world st', Inr (ss_counts st'))))"

subsection \<open>Completion\<close>

datatype completion_error =
    ReconcileFailed string
  | QueueNotConfigured
  | CompletionSendFailed string
  | CompletionPartialFailure
  | MarkFailed string

definition publishCompletion ::
  "'w worker_ports \<Rightarrow> Config \<Rightarrow> string \<Rightarrow> 'w \<Rightarrow> 'w \<times> completion_error option" where
  "publishCompletion ports cfg jobID w =
    (case wp_CompletionLedger ports of
       None \<Rightarrow> (w, None)
     | Some k \<Rightarrow>
         (case kp_ReconcileCompletion k jobID w of
            (w1, Inl e) \<Rightarrow> (w1, Some (ReconcileFailed e))
          | (w1, Inr None) \<Rightarrow> (w1, None)
          | (w1, Inr (Some intent)) \<Rightarrow>
              if cf_CompletionQueueURL cfg = [] then (w1, Some QueueNotConfigured)
              else (case wp_Send ports (cf_CompletionQueueURL cfg)
                       [\<lparr>om_Body = wp_marshalEvent ports (ci_Event intent), om_Attributes = [], om_LogicalEvents = 0\<rparr>] w1 of
                  (w2, Inl e) \<Rightarrow> (w2, Some (CompletionSendFailed e))
                | (w2, Inr failed) \<Rightarrow>
                    if failed \<noteq> [] then (w2, Some CompletionPartialFailure)
                    else (case kp_MarkIntentDelivered k (ci_JobID intent) (ci_Version intent) w2 of
                        (w3, Some e) \<Rightarrow> (w3, Some (MarkFailed e))
                      | (w3, None) \<Rightarrow> (w3, None)))))"

subsection \<open>One delivery\<close>

datatype worker_error =
    DecodeFailed string
  | CompletionWithoutJob
  | CompletionFailed completion_error
  | InvalidChunk chunk_error
  | StartFailed string
  | WindowFailed window_error
  | OpenFailed string
  | BoundaryReadFailed string
  | NoBoundary "boundary_side \<times> int64 \<times> int64"
  | StreamFailed stream_error
  | CloseFailed string
  | CompleteFailed ledger_error

record ChunkProcessingResult =
  xr_JobID :: string
  xr_FileID :: string
  xr_ChunkID :: string
  xr_Bucket :: string
  xr_Key :: string
  xr_StartByte :: int64
  xr_EndByte :: int64
  xr_Attempt :: int
  xr_BytesProcessed :: int64
  xr_RecordsProcessed :: int64
  xr_ProcessingTimeMillis :: int64

text \<open>The job carries its own limits and schema; set fields override the environment.\<close>

definition job_config :: "ChunkJob \<Rightarrow> Config \<Rightarrow> Config" where
  "job_config j cfg =
    (let c = cj_Configuration j in
     cfg\<lparr>cf_BatchSize := (if jc_BatchSize c > 0 then jc_BatchSize c else cf_BatchSize cfg),
         cf_MaxEventBytes := (if jc_MaxEventBytes c > 0 then jc_MaxEventBytes c else cf_MaxEventBytes cfg),
         cf_MaxChunkBytes := (if jc_MaxChunkBytes c > 0 then jc_MaxChunkBytes c else cf_MaxChunkBytes cfg),
         cf_EventSchemaID := (if jc_EventSchemaID c \<noteq> [] then jc_EventSchemaID c else cf_EventSchemaID cfg),
         cf_EventSchemaVersion := (if jc_EventSchemaVersion c \<noteq> [] then jc_EventSchemaVersion c else cf_EventSchemaVersion cfg),
         cf_EventFormat := (if jc_EventFormat c \<noteq> [] then jc_EventFormat c else cf_EventFormat cfg),
         cf_OutputQueueURL := (if jc_OutputQueueURL c \<noteq> [] then jc_OutputQueueURL c else cf_OutputQueueURL cfg)\<rparr>)"

text \<open>The in-memory view of a text window: a synthetic LF closes the last record of the file.\<close>

definition text_view :: "ChunkJob \<Rightarrow> int64 \<Rightarrow> bytes \<Rightarrow> bytes" where
  "text_view j readEnd data =
    (if readEnd = cj_FileSize j - 1 \<and> length data > 0 \<and> last data \<noteq> LF \<and> last data \<noteq> CR then data @ [LF] else data)"

text \<open>From the opened body to the counts: the boundary checks, the stream, the close.\<close>

definition process_body ::
  "'w worker_ports \<Rightarrow> (nat \<Rightarrow> string option) \<Rightarrow> Config \<Rightarrow> ChunkJob \<Rightarrow> int64 \<Rightarrow> int64 \<Rightarrow> chunk_body \<Rightarrow> 'w
    \<Rightarrow> 'w \<times> (worker_error + Counts)" where
  "process_body ports ctx cfg j readStart readEnd r w =
    (let finish = (\<lambda>data re. case streamWithMetrics ports ctx cfg j data re readStart w of
            (w', Inl e) \<Rightarrow> (w', Inl (StreamFailed e))
          | (w', Inr counts) \<Rightarrow> (case cb_close r of Some e \<Rightarrow> (w', Inl (CloseFailed e)) | None \<Rightarrow> (w', Inr counts)))
     in if cj_DataType j = DataTypeText \<and> cj_MaxRecordLengthBytes j > 0 then
          (case cb_end r of
             ReadErr e \<Rightarrow> (w, Inl (BoundaryReadFailed e))
           | EOF \<Rightarrow>
               (case validateTextBoundaries j readStart readEnd (cb_bytes r) of
                  Some b \<Rightarrow> (w, Inl (NoBoundary b))
                | None \<Rightarrow> finish (text_view j readEnd (cb_bytes r)) EOF))
        else finish (cb_bytes r) (cb_end r))"

definition complete_chunk ::
  "'w worker_ports \<Rightarrow> Config \<Rightarrow> ChunkJob \<Rightarrow> int \<Rightarrow> int64 \<Rightarrow> Counts \<Rightarrow> 'w \<Rightarrow> 'w \<times> worker_error option" where
  "complete_chunk ports cfg j attempt nbytes counts w =
    (case wp_Ledger ports of
       None \<Rightarrow> (w, None)
     | Some l \<Rightarrow>
         (case lp_CompleteChunk l \<lparr>cr_JobID = cj_JobID j, cr_ChunkID = cj_ChunkID j, cr_Attempt = attempt,
                 cr_RecordsProduced = co_RecordsPublished counts, cr_BytesProcessed = nbytes, cr_Error = [],
                 cr_OccurredAt = wp_nowInstant ports w, cr_Counts = counts\<rparr> w of
            (w1, Some e) \<Rightarrow> (w1, Some (CompleteFailed e))
          | (w1, None) \<Rightarrow>
              (case publishCompletion ports cfg (cj_JobID j) w1 of
                 (w2, Some e) \<Rightarrow> (w2, Some (CompletionFailed e))
               | (w2, None) \<Rightarrow> (w2, None))))"

text \<open>A valid chunk whose ledger checkpoint is taken: window, body, result.\<close>

definition run_chunk ::
  "'w worker_ports \<Rightarrow> (nat \<Rightarrow> string option) \<Rightarrow> Config \<Rightarrow> ChunkJob \<Rightarrow> int \<Rightarrow> int64 \<Rightarrow> 'w
    \<Rightarrow> 'w \<times> (worker_error + ChunkProcessingResult option)" where
  "run_chunk ports ctx cfg j attempt startTime w1 =
    (case chunkReadRange j of
       Inl e \<Rightarrow> (w1, Inl (WindowFailed e))
     | Inr (readStart, readEnd) \<Rightarrow>
         (case wp_OpenChunkRange ports j readStart readEnd w1 of
            (w2, Inl e) \<Rightarrow> (w2, Inl (OpenFailed e))
          | (w2, Inr r) \<Rightarrow>
              (case process_body ports ctx cfg j readStart readEnd r w2 of
                 (w3, Inl e) \<Rightarrow> (w3, Inl e)
               | (w3, Inr counts) \<Rightarrow>
                   let duration = wrap64 (wp_millis ports w3 - startTime); nbytes = wrap64 (wrap64 (readEnd - readStart) + 1) in
                   (case complete_chunk ports cfg j attempt nbytes counts w3 of
                      (w4, Some e) \<Rightarrow> (w4, Inl e)
                    | (w4, None) \<Rightarrow> (w4, Inr (Some
                        \<lparr>xr_JobID = cj_JobID j, xr_FileID = cj_FileID j, xr_ChunkID = cj_ChunkID j, xr_Bucket = cj_Bucket j,
                         xr_Key = cj_Key j, xr_StartByte = cj_StartByte j, xr_EndByte = cj_EndByteInclusive j,
                         xr_Attempt = attempt, xr_BytesProcessed = nbytes, xr_RecordsProcessed = co_RecordsRead counts,
                         xr_ProcessingTimeMillis = duration\<rparr>))))))"

definition processWithMetrics ::
  "'w worker_ports \<Rightarrow> (nat \<Rightarrow> string option) \<Rightarrow> Config \<Rightarrow> string + ChunkJob \<Rightarrow> int \<Rightarrow> 'w
    \<Rightarrow> 'w \<times> (worker_error + ChunkProcessingResult option)" where
  "processWithMetrics ports ctx cfg0 decoded attempt w =
    (let startTime = wp_millis ports w;
         completion = (\<lambda>cfg jobID w'. case publishCompletion ports cfg jobID w' of
            (w'', Some e) \<Rightarrow> (w'', Inl (CompletionFailed e)) | (w'', None) \<Rightarrow> (w'', Inr None))
     in case decoded of
       Inl e \<Rightarrow> (w, Inl (DecodeFailed e))
     | Inr j \<Rightarrow>
         if cj_Control j = ''completion'' then
           (if cj_JobID j = [] then (w, Inl CompletionWithoutJob) else completion cfg0 (cj_JobID j) w)
         else let cfg = job_config j cfg0 in
           (case valid cfg j of
              Some e \<Rightarrow> (w, Inl (InvalidChunk e))
            | None \<Rightarrow>
                (case wp_Ledger ports of
                   None \<Rightarrow> run_chunk ports ctx cfg j attempt startTime w
                 | Some l \<Rightarrow>
                     (case lp_StartChunk l (cj_JobID j) (cj_ChunkID j) attempt w of
                        (w1, Some ErrAlreadyCompleted) \<Rightarrow> completion cfg (cj_JobID j) w1
                      | (w1, Some (LedgerError e)) \<Rightarrow> (w1, Inl (StartFailed e))
                      | (w1, None) \<Rightarrow> run_chunk ports ctx cfg j attempt startTime w1))))"

text \<open>\<^verbatim>\<open>ProcessAttempt\<close>: a failed delivery is recorded in the ledger; \<open>render\<close> is \<^verbatim>\<open>Error()\<close>.\<close>

definition ProcessAttempt ::
  "'w worker_ports \<Rightarrow> (worker_error \<Rightarrow> string) \<Rightarrow> (nat \<Rightarrow> string option) \<Rightarrow> Config \<Rightarrow> string + ChunkJob \<Rightarrow> int \<Rightarrow> 'w
    \<Rightarrow> 'w \<times> worker_error option" where
  "ProcessAttempt ports render ctx cfg decoded attempt w =
    (case processWithMetrics ports ctx cfg decoded attempt w of
       (w1, Inr r) \<Rightarrow> (w1, None)
     | (w1, Inl e) \<Rightarrow>
         (case (wp_Ledger ports, decoded) of
            (Some l, Inr job) \<Rightarrow>
              if cj_JobID job \<noteq> [] then
                (fst (lp_FailChunk l \<lparr>cr_JobID = cj_JobID job, cr_ChunkID = cj_ChunkID job, cr_Attempt = attempt,
                        cr_RecordsProduced = 0, cr_BytesProcessed = 0, cr_Error = render e,
                        cr_OccurredAt = wp_nowInstant ports w1, cr_Counts = zero_Counts\<rparr> w1), Some e)
              else (w1, Some e)
          | _ \<Rightarrow> (w1, Some e)))"

end
