(* ===== verification/Worker_Text.thy ===== *)
theory Worker_Text
  imports Worker Planner_Props
begin

section \<open>Every line of a text object, once\<close>

text \<open>
  The contract between planner and Worker for text objects. A chunk publishes the lines that
  start in its range; it reads a window around the range. If the window ends at the end of
  the object or right after a line terminator, the chunk delivers exactly the lines of the
  object that start in its range, with their offsets; the ranges tile the object, so all
  chunks together deliver every line exactly once and in order. If the window ends inside a
  line, the chunk fails, whatever was read before.
\<close>

subsection \<open>Definitions of the statement\<close>

text \<open>The object with its last line closed, as the Worker's in-memory view closes it.\<close>

definition full_file :: "bytes \<Rightarrow> bytes" where
  "full_file fl = (if fl \<noteq> [] \<and> \<not> is_term (last fl) then fl @ [LF] else fl)"

definition collect :: "int64 \<Rightarrow> (publish_error, (int \<times> bytes) list) line_fn" where
  "collect readStart n off raw s = (None, s @ [(readStart + off, raw)])"

definition file_window :: "bytes \<Rightarrow> int64 \<Rightarrow> int64 \<Rightarrow> bytes" where
  "file_window fl a b = window fl (nat a) (nat (b - a + 1))"

text \<open>What one chunk hands to its callback, as offsets in the object and contents.\<close>

definition delivered :: "bytes \<Rightarrow> ChunkJob \<Rightarrow> publish_error line_error option \<times> (int \<times> bytes) list" where
  "delivered fl j =
    (case chunkReadRange j of
       Inl _ \<Rightarrow> (Some MaxLineTooSmall, [])
     | Inr (a, b) \<Rightarrow> read_text no_cancel zero_Config j (text_view j b (file_window fl a b)) EOF a (collect a) [])"

definition text_job :: "bytes \<Rightarrow> ChunkJob \<Rightarrow> bool" where
  "text_job fl j \<longleftrightarrow> cj_DataType j = DataTypeText \<and> 1 \<le> cj_MaxRecordLengthBytes j
     \<and> cj_MaxRecordLengthBytes j \<le> 2 ^ 58 \<and> cj_FileSize j = int (length fl) \<and> cj_FileSize j \<le> 2 ^ 62
     \<and> 0 \<le> cj_StartByte j \<and> cj_StartByte j \<le> cj_EndByteInclusive j \<and> cj_EndByteInclusive j < cj_FileSize j
     \<and> cj_TrailingPaddingBytes j = 0"

definition window_start :: "ChunkJob \<Rightarrow> int" where
  "window_start j = max 0 (cj_StartByte j - 9 * cj_MaxRecordLengthBytes j)"

definition window_end :: "ChunkJob \<Rightarrow> int" where
  "window_end j = min (cj_EndByteInclusive j + 9 * cj_MaxRecordLengthBytes j) (cj_FileSize j - 1)"

text \<open>The window of the chunk ends with the object or right after a terminator.\<close>

definition window_ends_well :: "bytes \<Rightarrow> ChunkJob \<Rightarrow> bool" where
  "window_ends_well fl j \<longleftrightarrow> window_end j = cj_FileSize j - 1 \<or> is_term (fl ! nat (window_end j))"

text \<open>ASCII content whose lines fit the configured limit.\<close>

definition readable :: "int64 \<Rightarrow> bytes \<Rightarrow> bool" where
  "readable mx fl \<longleftrightarrow> list_all is_ascii fl \<and> list_all (\<lambda>l. int (length (snd l)) \<le> mx) (phys_lines 0 (full_file fl))"

subsection \<open>Lemmas\<close>

lemma chunkReadRange_text:
  assumes "text_job fl j"
  shows "chunkReadRange j = Inr (window_start j, window_end j)"
proof -
  let ?M = "cj_MaxRecordLengthBytes j"
  have M: "1 \<le> ?M" "?M \<le> 2 ^ 58" using assms by (auto simp: text_job_def)
  then have w: "wrap64 (9 * ?M) = 9 * ?M" by (simp add: wrap64_nonneg max_int64_def)
  have g: "go_div (9 * ?M) ?M = 9" using M by (simp add: go_div_nonneg max_int64_def)
  have s: "wrap64 (cj_StartByte j - 9 * ?M) = cj_StartByte j - 9 * ?M"
    using assms by (intro wrap64_id) (auto simp: text_job_def in_int64_def min_int64_def max_int64_def)
  have e: "wrap64 (cj_EndByteInclusive j + 9 * ?M) = cj_EndByteInclusive j + 9 * ?M"
    using assms by (intro wrap64_id) (auto simp: text_job_def in_int64_def min_int64_def max_int64_def)
  show ?thesis
    using assms w g s e
    by (auto simp: chunkReadRange_def clamp_window_def text_job_def window_start_def window_end_def Let_def max_def min_def)
qed

lemma phys_lines_shift: "phys_lines (x + y) bs = map (\<lambda>l. (x + fst l, snd l)) (phys_lines y bs)"
  by (simp add: phys_lines_positions o_def add.assoc)

lemma line_head_stop:
  "\<forall>b\<in>set xs. \<not> is_term b \<Longrightarrow> ys \<noteq> [] \<Longrightarrow> is_term (hd ys) \<Longrightarrow> line_head (xs @ ys) = xs"
  by (cases ys) (simp_all add: line_head_def takeWhile_append_all)

lemma line_fragment:
  "line_rest (drop a bs) \<noteq> [] \<Longrightarrow> list_all (\<lambda>l. int (length (snd l)) \<le> mx) (phys_lines off bs) \<Longrightarrow> 0 \<le> mx
    \<Longrightarrow> int (length (line_head (drop a bs))) \<le> mx"
proof (induction off bs arbitrary: a rule: phys_lines.induct)
  case (1 off bs)
  have ne: "line_rest bs \<noteq> []" using "1.prems"(1) by (auto simp: line_rest_Nil_iff dest: in_set_dropD)
  let ?n = "length (line_head bs)"
  have lines: "int ?n \<le> mx" "list_all (\<lambda>l. int (length (snd l)) \<le> mx)
      (phys_lines (off + int ?n + int (term_len (line_rest bs))) (drop (term_len (line_rest bs)) (line_rest bs)))"
    using "1.prems"(2) ne by (simp_all add: phys_lines.simps [of off bs])
  consider (head) "a \<le> ?n" | (mid) "?n < a" "a < next_start bs" | (rest) "next_start bs \<le> a" by linarith
  then show ?case
  proof cases
    case head
    have "drop a bs = drop a (line_head bs @ line_rest bs)" by (simp only: line_head_rest)
    also have "\<dots> = drop a (line_head bs) @ line_rest bs" using head by simp
    finally have "drop a bs = drop a (line_head bs) @ line_rest bs" .
    moreover have "line_head (drop a (line_head bs) @ line_rest bs) = drop a (line_head bs)"
    proof (rule line_head_stop)
      show "\<forall>b\<in>set (drop a (line_head bs)). \<not> is_term b" using line_head_no_term by (auto dest: in_set_dropD)
      show "line_rest bs \<noteq> []" "is_term (hd (line_rest bs))" using ne line_rest_hd [OF ne] by auto
    qed
    ultimately show ?thesis using lines(1) by simp
  next
    case mid
    then have "a = ?n + 1" "term_len (line_rest bs) = 2"
      using term_len_cases [of "line_rest bs"] by (auto simp: next_start_def)
    then obtain r where "line_rest bs = CR # LF # r" by (auto simp: term_len_2)
    then have "bs = line_head bs @ CR # LF # r" using line_head_rest [of bs] by simp
    then have "drop a bs = drop a (line_head bs @ CR # LF # r)" by (rule arg_cong)
    also have "\<dots> = LF # r" using \<open>a = ?n + 1\<close> by simp
    finally have "drop a bs = LF # r" .
    with "1.prems"(3) show ?thesis by (simp add: line_head_def is_term_def)
  next
    case rest
    then have "drop a bs = drop (a - next_start bs) (drop (term_len (line_rest bs)) (line_rest bs))"
      by (simp add: drop_next_start)
    with "1.IH" [OF ne _ lines(2) "1.prems"(3), of "a - next_start bs"] "1.prems"(1) show ?thesis by simp
  qed
qed

text \<open>The view of a window is a window of the closed object with a good end.\<close>

lemma full_file_take: "k \<le> length fl \<Longrightarrow> take k (full_file fl) = take k fl"
  by (auto simp: full_file_def)

lemma full_file_length: "length fl \<le> length (full_file fl)" "length (full_file fl) \<le> length fl + 1"
  by (auto simp: full_file_def)

lemma full_file_last: "fl \<noteq> [] \<Longrightarrow> is_term (last (full_file fl))"
  by (auto simp: full_file_def is_term_def)

lemma full_file_nth: "i < length fl \<Longrightarrow> full_file fl ! i = fl ! i"
  by (auto simp: full_file_def nth_append)

lemma window_bounds:
  assumes "text_job fl j"
  shows "0 \<le> window_start j" "window_start j \<le> cj_StartByte j" "cj_EndByteInclusive j \<le> window_end j"
    "window_end j < int (length fl)" "window_start j = 0 \<or> window_start j < cj_StartByte j"
  using assms by (auto simp: text_job_def window_start_def window_end_def)

lemma text_view_window:
  assumes job: "text_job fl j" and well: "window_ends_well fl j"
  obtains k where "text_view j (window_end j) (file_window fl (window_start j) (window_end j))
        = window (full_file fl) (nat (window_start j)) k"
    "nat (window_start j) + k \<le> length (full_file fl)" "good_end (full_file fl) (nat (window_start j) + k)"
    "window_end j < window_start j + int k" "0 < k"
    "is_term (last (window (full_file fl) (nat (window_start j)) k))"
proof -
  let ?a = "nat (window_start j)" and ?b = "nat (window_end j)" and ?F = "full_file fl"
  note B = window_bounds [OF job]
  have ab: "0 \<le> window_start j" "window_start j \<le> window_end j" "window_end j < int (length fl)"
    using B job by (auto simp: text_job_def)
  have k0: "nat (window_end j - window_start j + 1) = ?b + 1 - ?a" using ab by simp
  have w0: "file_window fl (window_start j) (window_end j) = window fl ?a (?b + 1 - ?a)"
    by (simp only: file_window_def k0)
  have le: "?a + (?b + 1 - ?a) = ?b + 1" "?b + 1 \<le> length fl" using ab by auto
  have len: "length (window fl ?a (?b + 1 - ?a)) = ?b + 1 - ?a" using le by simp
  have "0 < length (window fl ?a (?b + 1 - ?a))" unfolding len using ab by simp
  then have ne: "window fl ?a (?b + 1 - ?a) \<noteq> []" by (rule length_greater_0_conv [THEN iffD1])
  have lst: "last (window fl ?a (?b + 1 - ?a)) = fl ! ?b"
    using ne len le ab nth_window [of ?a "?b + 1 - ?a" fl "?b - ?a"] by (simp add: last_conv_nth)
  have size: "cj_FileSize j = int (length fl)" using job by (simp add: text_job_def)
  show thesis
  proof (cases "window_end j = cj_FileSize j - 1 \<and> \<not> is_term (fl ! ?b)")
    case True
    then have b: "?b + 1 = length fl" using size ab by simp
    have fl: "fl \<noteq> []" using b by auto
    have "last fl = fl ! (length fl - 1)" using fl by (rule last_conv_nth)
    also have "length fl - 1 = ?b" using b by simp
    finally have "\<not> is_term (last fl)" using conjunct2 [OF True] by (simp only: not_False_eq_True)
    with fl have F: "?F = fl @ [LF]" by (simp add: full_file_def)
    have "last (window fl ?a (?b + 1 - ?a)) \<noteq> LF" "last (window fl ?a (?b + 1 - ?a)) \<noteq> CR"
      using conjunct2 [OF True] unfolding lst is_term_def by simp_all
    then have view: "text_view j (window_end j) (window fl ?a (?b + 1 - ?a)) = window fl ?a (?b + 1 - ?a) @ [LF]"
      using conjunct1 [OF True] ne by (simp only: text_view_def length_greater_0_conv simp_thms if_True)
    also have "\<dots> = window ?F ?a (?b + 2 - ?a)"
    proof -
      have "drop ?a ?F = drop ?a fl @ [LF]" using F le ab b by simp
      moreover have "window fl ?a (?b + 1 - ?a) = drop ?a fl" using b le by (simp add: window_def)
      ultimately show ?thesis using b le ab by (simp add: window_def)
    qed
    finally have v: "text_view j (window_end j) (window fl ?a (?b + 1 - ?a)) = window ?F ?a (?b + 2 - ?a)" .
    have last: "is_term (last (window ?F ?a (?b + 2 - ?a)))"
      unfolding v [symmetric] view by (simp add: is_term_def)
    show thesis
      by (rule that [of "?b + 2 - ?a", folded w0]) (use v w0 last b F ab in \<open>auto simp: good_end_def\<close>)
  next
    case False
    have tm: "is_term (fl ! ?b)" using False well by (auto simp: window_ends_well_def)
    have v: "text_view j (window_end j) (window fl ?a (?b + 1 - ?a)) = window fl ?a (?b + 1 - ?a)"
      using tm lst by (auto simp: text_view_def is_term_def)
    have w: "window fl ?a (?b + 1 - ?a) = window ?F ?a (?b + 1 - ?a)"
      using le by (simp add: window_def take_drop full_file_take)
    have g: "good_end ?F (?b + 1)"
      using tm le(2) full_file_nth [of ?b fl] full_file_length(1) [of fl]
      by (cases "?b + 1 = length ?F") (auto simp: good_end_def)
    show thesis
      by (rule that [of "?b + 1 - ?a"])
        (use v w w0 g le ab tm lst full_file_length(1) [of fl] in auto)
  qed
qed

lemma run_owned:
  assumes "always \<or> cj_MaxRecordLengthBytes j > 0"
    "0 \<le> cj_EndByteInclusive j - cj_TrailingPaddingBytes j" "cj_EndByteInclusive j - cj_TrailingPaddingBytes j \<le> max_int64"
    "\<forall>l\<in>set ls. 0 \<le> a + fst l \<and> a + fst l \<le> max_int64"
  shows "run_callbacks (owned_only always j a (collect a)) ls n s
    = (None, s @ filter (\<lambda>l. in_range (fst l) (cj_StartByte j, cj_EndByteInclusive j - cj_TrailingPaddingBytes j))
                        (map (\<lambda>l. (a + fst l, snd l)) ls))"
  using assms(4)
proof (induction ls arbitrary: n s)
  case (Cons l ls)
  obtain off raw where l: "l = (off, raw)" by (cases l)
  have w: "wrap64 (a + off) = a + off"
    "wrap64 (cj_EndByteInclusive j - cj_TrailingPaddingBytes j) = cj_EndByteInclusive j - cj_TrailingPaddingBytes j"
    using Cons.prems assms(2,3) l by (simp_all add: wrap64_nonneg)
  with Cons l assms(1) show ?case
    by (auto simp: owned_only_def collect_def in_range_def not_less not_le)
qed simp

lemma run_collect:
  assumes "cj_MaxRecordLengthBytes j > 0" "cj_TrailingPaddingBytes j = 0" "0 \<le> cj_EndByteInclusive j"
    "cj_EndByteInclusive j \<le> max_int64" "\<forall>l\<in>set ls. 0 \<le> a + fst l \<and> a + fst l \<le> max_int64"
  shows "run_callbacks (owned_only False j a (collect a)) ls n s
    = (None, s @ filter (\<lambda>l. in_range (fst l) (cj_StartByte j, cj_EndByteInclusive j)) (map (\<lambda>l. (a + fst l, snd l)) ls))"
  using run_owned [of False j ls a n s] assms by simp

text \<open>The lines of a window are no longer than those of the object, also the cut one at its start.\<close>

lemma window_clean:
  assumes "list_all is_ascii F" "list_all (\<lambda>l. int (length (snd l)) \<le> mx) (phys_lines 0 F)" "0 \<le> mx"
    and k: "a + k \<le> length F" "good_end F (a + k)"
  shows "list_all (clean_line mx) (phys_lines off (window F a k))"
proof -
  let ?V = "window F a k"
  have lenV: "length ?V = k" using k(1) by simp
  have "clean_line mx (off + int p, line_head (drop p ?V))" if p: "p \<in> set (line_positions ?V)" for p
  proof -
    have pk: "p < k" and ne: "line_rest (drop p ?V) \<noteq> []" using p lenV by (auto simp: line_positions_def)
    have h: "line_head (drop p ?V) = line_head (drop (a + p) F)" "line_rest (drop (a + p) F) \<noteq> []"
      using line_rest_window [OF k(1) pk k(2)] ne by auto
    have "int (length (line_head (drop (a + p) F))) \<le> mx"
      using line_fragment [OF h(2) assms(2,3)] .
    moreover have "list_all is_ascii (line_head (drop (a + p) F))"
      using assms(1) by (auto simp: list_all_iff line_head_def dest!: set_takeWhileD in_set_dropD)
    ultimately show ?thesis using h(1) by (simp add: clean_line_def utf8_valid_ascii)
  qed
  then show ?thesis by (auto simp: phys_lines_positions list_all_iff)
qed

text \<open>One chunk delivers exactly the lines that start in its range.\<close>

lemma chunk_delivers:
  assumes job: "text_job fl j" and well: "window_ends_well fl j" and ok: "readable (cj_MaxRecordLengthBytes j) fl"
  shows "delivered fl j = (None, filter (\<lambda>l. in_range (fst l) (cj_StartByte j, cj_EndByteInclusive j))
                                   (phys_lines 0 (full_file fl)))"
proof -
  let ?F = "full_file fl" and ?M = "cj_MaxRecordLengthBytes j" and ?a = "nat (window_start j)"
  obtain k where V: "text_view j (window_end j) (file_window fl (window_start j) (window_end j)) = window ?F ?a k"
    and k: "?a + k \<le> length ?F" "good_end ?F (?a + k)" "window_end j < window_start j + int k" "0 < k"
    and last: "is_term (last (window ?F ?a k))"
    using text_view_window [OF job well] by blast
  let ?V = "window ?F ?a k"
  note B = window_bounds [OF job]
  have M: "1 \<le> ?M" and Mle: "0 \<le> ?M" using job by (auto simp: text_job_def)
  have E: "0 \<le> cj_EndByteInclusive j" "cj_EndByteInclusive j \<le> max_int64" "cj_TrailingPaddingBytes j = 0"
    using job by (auto simp: text_job_def max_int64_def)
  have lenV: "length ?V = k" using k(1) by simp
  have ascii: "list_all is_ascii ?F" using ok by (auto simp: readable_def full_file_def is_ascii_def)
  have clean: "list_all (clean_line ?M) (phys_lines 0 ?V)"
    using window_clean [OF ascii _ Mle k(1,2)] ok by (simp add: readable_def)
  have tail: "snd (line_tail 0 ?V) = []" using last by (simp add: line_tail_Nil_iff)
  have small: "\<forall>l\<in>set (phys_lines 0 ?V). 0 \<le> window_start j + fst l \<and> window_start j + fst l \<le> max_int64"
  proof
    fix l assume "l \<in> set (phys_lines 0 ?V)"
    then obtain p where p: "fst l = int p" "p < k" using lenV by (auto simp: phys_lines_positions line_positions_def)
    have "int (length ?F) \<le> 2 ^ 62 + 1" using full_file_length(2) [of fl] job by (auto simp: text_job_def)
    with p k(1) B(1) show "0 \<le> window_start j + fst l \<and> window_start j + fst l \<le> max_int64"
      by (auto simp: max_int64_def)
  qed
  let ?own = "\<lambda>l. in_range (fst l) (cj_StartByte j, cj_EndByteInclusive j)"
  have shift: "map (\<lambda>l. (window_start j + fst l, snd l)) (phys_lines 0 ?V) = phys_lines (window_start j) ?V"
    using phys_lines_shift [of "window_start j" 0 ?V] by simp
  have read: "delivered fl j = map_prod (map_option CallbackError) id
      (run_callbacks (owned_only False j (window_start j) (collect (window_start j)))
        (if window_start j > 0 then tl (phys_lines 0 ?V) else phys_lines 0 ?V) 0 [])"
  proof (cases "window_start j > 0")
    case True
    with M run_lines_clean_skip [OF clean tail Mle] show ?thesis
      by (simp add: delivered_def chunkReadRange_text [OF job] V read_text_def ReadLines_eq_run_lines)
  next
    case False
    with M run_lines_clean [OF clean tail Mle, of False 0] show ?thesis
      by (simp add: delivered_def chunkReadRange_text [OF job] V read_text_def ReadLines_eq_run_lines del: nat_0_iff)
  qed
  show ?thesis
  proof (cases "window_start j > 0")
    case True
    have sub: "set (tl (phys_lines 0 ?V)) \<subseteq> set (phys_lines 0 ?V)" by (cases "phys_lines 0 ?V") auto
    have "delivered fl j = (None, filter ?own (map (\<lambda>l. (window_start j + fst l, snd l)) (tl (phys_lines 0 ?V))))"
      unfolding read using True M E small sub by (subst run_collect) auto
    also have "map (\<lambda>l. (window_start j + fst l, snd l)) (tl (phys_lines 0 ?V)) = tl (phys_lines (int ?a) ?V)"
      using shift B(1) by (simp add: map_tl)
    also have "\<dots> = filter (\<lambda>l. int ?a < fst l) (phys_lines (int ?a) ?V)" by (rule phys_lines_tl)
    also have "\<dots> = filter (\<lambda>l. int ?a < fst l \<and> fst l < int (?a + k)) (phys_lines 0 ?F)"
      by (rule window_lines [OF k(1,2)])
    also have "filter ?own \<dots> = filter ?own (phys_lines 0 ?F)"
      using True B k(3) by (auto simp: in_range_def intro!: filter_cong)
    finally show ?thesis .
  next
    case False
    then have a0: "window_start j = 0" using B(1) by simp
    have "delivered fl j = (None, filter ?own (phys_lines 0 ?V))"
      unfolding read using False M E small shift a0 by (subst run_collect) auto
    also have "phys_lines 0 ?V = filter (\<lambda>l. fst l < int k) (phys_lines 0 ?F)"
      using window_lines_0 [of k ?F] k a0 by simp
    also have "filter ?own \<dots> = filter ?own (phys_lines 0 ?F)"
      using a0 B k(3) by (auto simp: in_range_def intro!: filter_cong)
    finally show ?thesis .
  qed
qed


subsection \<open>All chunks of a plan\<close>

lemma variableJobs_fields:
  assumes "variableJobs cfg fl n etag ver ex = Inr jobs" "j \<in> set jobs"
  shows "cj_DataType j = fr_DataType fl \<and> cj_MaxRecordLengthBytes j = fr_MaxRecordLengthBytes fl
    \<and> cj_FileSize j = n \<and> cj_TrailingPaddingBytes j = 0 \<and> 1 \<le> fr_MaxRecordLengthBytes fl"
  using assms by (auto simp: variableJobs_def mk_job_def zero_records Let_def split: if_splits sum.splits)

lemma full_lines_inside:
  assumes "l \<in> set (phys_lines 0 (full_file fl))"
  shows "0 \<le> fst l \<and> fst l < int (length fl)"
proof -
  let ?F = "full_file fl"
  obtain p where p: "fst l = int p" "p < length ?F" "line_start ?F p"
    using assms by (auto simp: phys_lines_positions line_positions_def)
  show ?thesis
  proof (cases "p < length fl")
    case False
    with p(2) have F: "fl \<noteq> []" "\<not> is_term (last fl)" "p = length fl"
      by (auto simp: full_file_def split: if_splits)
    then have "?F ! (p - 1) = last fl" by (simp add: full_file_nth last_conv_nth)
    with F p(3) show ?thesis by (simp add: line_start_def)
  qed (use p in simp)
qed

lemma text_plan_jobs:
  assumes plan: "variableJobs cfg fl n etag ver ex = Inr jobs"
    and n: "n = int (length object)" "0 < n" "n \<le> max_object_size" "sane_config cfg"
    and fl: "fr_DataType fl = DataTypeText" "fr_MaxRecordLengthBytes fl \<le> 2 ^ 58"
    and j: "j \<in> set jobs"
  shows "text_job object j"
proof -
  obtain c where c: "textChunkCount cfg n = Inr c" "1 \<le> c" "c \<le> n"
    "map owned_range jobs = map (\<lambda>k. (balanced_start n c k, balanced_start n c (Suc k) - 1)) [0..<nat c]"
    "map (\<lambda>j. (cj_StartByte j, cj_EndByteInclusive j)) jobs = map owned_range jobs"
    by (rule variableJobs_ranges [OF plan n(2-4)])
  have "text_accepts (cfg, fl, etag, ver, ex) n"
    using plan n by (simp add: text_accepts_def accepted_def text_plan_def)
  from text_tiles [OF this] plan have "tiles 0 n (map owned_range jobs)"
    by (simp add: text_plan_def plan_ranges_def)
  then have "tiles 0 n (map (\<lambda>j. (cj_StartByte j, cj_EndByteInclusive j)) jobs)" by (simp only: c(5))
  from tiles_bounds [OF this, of "(cj_StartByte j, cj_EndByteInclusive j)"] j
  have "0 \<le> cj_StartByte j \<and> cj_StartByte j \<le> cj_EndByteInclusive j \<and> cj_EndByteInclusive j < n" by auto
  with variableJobs_fields [OF plan j] n fl show ?thesis
    by (auto simp: text_job_def max_object_size_def)
qed

text \<open>A window that ends inside a line makes its chunk fail, with any callback and any configuration.\<close>

lemma read_text_mid_line:
  assumes "data \<noteq> []" "\<not> is_term (last data)"
  shows "fst (read_text no_cancel cfg j data EOF readStart pub s) \<noteq> None"
proof (cases "(if cj_MaxRecordLengthBytes j = 0 then event_limit cfg else cj_MaxRecordLengthBytes j) < 1")
  case True
  then show ?thesis by (simp add: read_text_def ReadLines_def)
next
  case False
  have "snd (line_tail 0 data) \<noteq> []" using assms by (simp add: line_tail_Nil_iff)
  note err = run_lines_tail_error [OF this]
  show ?thesis
    unfolding read_text_def Let_def using False by (subst ReadLines_eq_run_lines) (simp_all only: err not_less not_False_eq_True)
qed

subsection \<open>Properties\<close>


definition sample_text :: bytes where
  "sample_text = ''ab'' @ [LF] @ ''c'' @ [CR, LF] @ ''de''"

definition sample_request :: FileRequest where
  "sample_request = \<lparr>fr_Bucket = ''b'', fr_Key = ''k'', fr_VersionID = [], fr_ETag = [], fr_PresignedURL = [],
     fr_DataType = DataTypeText, fr_MaxRecordLengthBytes = 4, fr_MultiLineLayout = zero_MultiLineLayout,
     fr_JSONArrayLayout = zero_JSONArrayLayout, fr_Context = zero_CorporateContext\<rparr>"

definition sample_chunk :: ChunkJob where
  "sample_chunk = mk_job sample_request 8 ''e'' [] ''x'' 1 0 7 4"

lemma sample_plan: "variableJobs zero_Config sample_request (int (length sample_text)) ''e'' [] ''x'' = Inr [sample_chunk]"
  by (simp add: variableJobs_def sample_request_def sample_text_def textChunkCount_def minimumTargetChunkBytes_def
      sample_chunk_def go_div_nonneg wrap64_nonneg max_int64_def)


text \<open>
  C5. The read window of a text chunk has to end well: when the window of a planned chunk stops
  short of the end of the object and inside a line, processing the chunk fails, whatever it
  published before and even if the boundary checks pass. The planner does not choose the ranges
  (and nine record lengths of overlap) so that windows end at terminators; such a chunk fails
  on every attempt, so the object is never completed.
\<close>

theorem text_window_inside_line_fails:
  assumes job: "text_job object j" and bad: "\<not> window_ends_well object j"
    and body: "cb_bytes r = file_window object (window_start j) (window_end j)"
  shows "\<exists>w' e. process_body ports no_cancel cfg j (window_start j) (window_end j) r w = (w', Inl e)"
proof -
  let ?a = "nat (window_start j)" and ?b = "nat (window_end j)"
  note B = window_bounds [OF job]
  have ab: "?a \<le> ?b" "?b < length object" using B job by (auto simp: text_job_def)
  have M: "cj_MaxRecordLengthBytes j > 0" "cj_DataType j = DataTypeText" using job by (auto simp: text_job_def)
  have "0 \<le> window_start j" "window_start j \<le> window_end j" using B job by (auto simp: text_job_def)
  then have k: "nat (window_end j - window_start j + 1) = ?b + 1 - ?a" by simp
  have len: "length (cb_bytes r) = ?b + 1 - ?a" unfolding body file_window_def k using ab by simp
  have ne: "cb_bytes r \<noteq> []" using len ab by auto
  have "last (cb_bytes r) = cb_bytes r ! (?b - ?a)" using ne len ab by (simp add: last_conv_nth)
  also have "\<dots> = object ! ?b"
    unfolding body file_window_def k using ab nth_window [of ?a "?b + 1 - ?a" object "?b - ?a"] by simp
  finally have last: "\<not> is_term (last (cb_bytes r))" using bad by (simp add: window_ends_well_def)
  have view: "text_view j (window_end j) (cb_bytes r) = cb_bytes r"
    using bad by (simp add: text_view_def window_ends_well_def)
  have "fst (read_records ports no_cancel cfg j (cb_bytes r) EOF (window_start j) (stream_start j w)) \<noteq> None"
    using M read_text_mid_line [OF ne last] by (simp add: read_records_def Let_def)
  then show ?thesis
    using M view
    by (auto simp: process_body_def streamWithMetrics_def Let_def split: prod.splits option.splits read_end.splits)
qed

text \<open>A chunk of an object of five-byte lines whose window (0 to 10) ends inside the third line.\<close>

definition long_text :: bytes where
  "long_text = concat (replicate 4 (''abcd'' @ [LF]))"

definition cut_chunk :: ChunkJob where
  "cut_chunk = mk_job (sample_request\<lparr>fr_MaxRecordLengthBytes := 1\<rparr>) 20 ''e'' [] ''x'' 1 0 1 1"

theorem text_window_inside_line_fails_witness:
  "\<exists>w' e. process_body undefined no_cancel zero_Config cut_chunk 0 10
     \<lparr>cb_bytes = ''abcd'' @ [LF] @ ''abcd'' @ [LF] @ ''a'', cb_end = EOF, cb_close = None\<rparr> () = (w', Inl e)"
proof -
  have job: "text_job long_text cut_chunk"
    by (simp add: text_job_def cut_chunk_def mk_job_def zero_records sample_request_def long_text_def numeral_eq_Suc)
  have w: "window_start cut_chunk = 0" "window_end cut_chunk = 10"
    by (simp_all add: window_start_def window_end_def cut_chunk_def mk_job_def zero_records)
  have "long_text ! 10 = CHR ''a''" by code_simp
  then have bad: "\<not> window_ends_well long_text cut_chunk"
    by (simp add: window_ends_well_def w is_term_def) (simp add: cut_chunk_def mk_job_def zero_records)
  have "file_window long_text 0 10 = ''abcd'' @ [LF] @ ''abcd'' @ [LF] @ ''a''" by code_simp
  then show ?thesis
    using text_window_inside_line_fails [OF job bad, of "\<lparr>cb_bytes = ''abcd'' @ [LF] @ ''abcd'' @ [LF] @ ''a'',
        cb_end = EOF, cb_close = None\<rparr>" undefined zero_Config "()"] by (simp add: w)
qed

end
