(* ===== verification/Worker_Counts.thy ===== *)
theory Worker_Counts
  imports Worker Tiling
begin

section \<open>The counts of a chunk balance\<close>

text \<open>
  What the Worker reports to the ledger: every record read is published or rejected. The
  sender is used through \<open>sender_contract\<close>, which is what \<open>concurrent_sender_delivers\<close> shows of
  the sender: a successful \<^verbatim>\<open>submit\<close> takes the batch, and a successful \<^verbatim>\<open>wait\<close> counts exactly
  the submitted messages and events. Also here: the other callbacks' invariants (any property
  the callback keeps, the readers keep) and the offset of JSON records.
\<close>

definition sender_contract :: "'w worker_ports \<Rightarrow> ('w \<Rightarrow> OutboundMessage list) \<Rightarrow> bool" where
  "sender_contract ports submitted \<longleftrightarrow>
    (\<forall>b w w'. wp_submit ports b w = (w', None) \<longrightarrow> submitted w' = submitted w @ b) \<and>
    (\<forall>w w' c. wp_wait ports w = (w', None, c) \<longrightarrow>
        ct_events c = sum_list (map logical_events (submitted w)) \<and> ct_messages c = int (length (submitted w)))"

subsection \<open>Invariants of callbacks\<close>

definition keeps :: "('s \<Rightarrow> bool) \<Rightarrow> ('e, 's) line_fn \<Rightarrow> bool" where
  "keeps P fn \<longleftrightarrow> (\<forall>n off raw s s'. P s \<longrightarrow> fn n off raw s = (None, s') \<longrightarrow> P s')"

lemma keepsD: "keeps P fn \<Longrightarrow> P s \<Longrightarrow> fn n off raw s = (None, s') \<Longrightarrow> P s'"
  by (auto simp: keeps_def)

lemma emitLine_keeps: "keeps P fn \<Longrightarrow> P s \<Longrightarrow> emitLine c sk fn st s = (None, st', s') \<Longrightarrow> P s'"
  by (auto simp: emitLine_def dest: keepsD split: if_splits prod.splits option.splits)

lemma read_loop_keeps:
  "keeps P fn \<Longrightarrow> P s \<Longrightarrow> read_loop ctx re mx sk fn it bs st s = (None, s') \<Longrightarrow> P s'"
proof (induction ctx re mx sk fn it bs st s rule: read_loop.induct)
  case (1 ctx re mx sk fn it bs st s)
  note run = "1.prems"(3) [unfolded read_loop.simps [of ctx re mx sk fn it bs st s]]
  have c: "ctx it = None" using run by (cases "ctx it") auto
  show ?case
  proof (cases bs)
    case Nil
    with run c "1.prems"(2) show ?thesis by (auto split: read_end.splits if_splits)
  next
    case (Cons b rest)
    show ?thesis
    proof (cases "b = CR \<or> b = LF")
      case False
      with run c Cons have "read_loop ctx re mx sk fn (Suc it) rest (st\<lparr>ls_buf := ls_buf st @ [b]\<rparr>) s = (None, s')"
        and "\<not> mx \<le> int (length (ls_buf st))" by (auto split: if_splits)
      from "1.IH"(2) [OF c Cons False this(2) "1.prems"(1,2) this(1)] show ?thesis .
    next
      case True
      obtain k where k: "terminator_len re bs = Inr k" using run c Cons True by (auto split: sum.splits)
      obtain e st' s1 where em: "emitLine (ls_buf st) sk fn st s = (e, st', s1)" by (cases "emitLine (ls_buf st) sk fn st s") auto
      have e: "e = None" using run c Cons True k em by (cases e) auto
      with run c Cons True k em
      have r: "read_loop ctx re mx sk fn (Suc it) (drop k bs) (next_line_state st' k) s1 = (None, s')" by simp
      have "P s1" using emitLine_keeps [OF "1.prems"(1,2)] em e by blast
      from "1.IH"(1) [OF c Cons True k em [symmetric] e refl "1.prems"(1) this r]
      show ?thesis .
    qed
  qed
qed

lemma ReadLines_keeps: "keeps P fn \<Longrightarrow> P s \<Longrightarrow> ReadLines ctx bs re mx sk fn s = (None, s') \<Longrightarrow> P s'"
  by (auto simp: ReadLines_def dest: read_loop_keeps split: if_splits)

lemma emit_record_keeps: "keeps P fn \<Longrightarrow> P s \<Longrightarrow> emit_record sep fn (g, s) = (None, g', s') \<Longrightarrow> P s'"
  by (auto simp: emit_record_def Let_def dest: keepsD split: if_splits prod.splits option.splits)

lemma group_line_keeps: "keeps P fn \<Longrightarrow> keeps (P \<circ> snd) (group_line layout sep fn)"
  unfolding keeps_def [of "P \<circ> snd"]
  by (auto simp: group_line_def dest: emit_record_keeps split: if_splits prod.splits option.splits)

lemma ReadMultiLine_keeps:
  assumes "keeps P fn" "P s" "ReadMultiLineLayoutWithStats ctx bs re layout fn s = (None, stats, s')"
  shows "P s'"
proof -
  obtain g s1 where r: "ReadLines ctx bs re (ml_MaxBytesPerRecord layout) False
      (group_line layout (layout_separator layout) fn) (group_state0, s) = (None, g, s1)"
    and e: "fst (emit_record (layout_separator layout) fn (g, s1)) = None"
      "s' = snd (snd (emit_record (layout_separator layout) fn (g, s1)))"
    using assms(3) by (auto simp: ReadMultiLineLayoutWithStats_def Let_def split: prod.splits option.splits)
  have "(P \<circ> snd) (g, s1)" using ReadLines_keeps [OF group_line_keeps [OF assms(1)] _ r] assms(2) by simp
  then have "P s1" by simp
  with emit_record_keeps [OF assms(1), of s1 "layout_separator layout" g] e show ?thesis
    by (cases "emit_record (layout_separator layout) fn (g, s1)") auto
qed

lemma read_elements_keeps:
  "keeps P fn \<Longrightarrow> P s \<Longrightarrow> read_elements ctx j data rs it n els fn s = (None, s') \<Longrightarrow> P s'"
  by (induction ctx j data rs it n els fn s rule: read_elements.induct)
    (auto simp: Let_def dest: keepsD split: option.splits if_splits prod.splits)

lemma owned_only_keeps: "keeps P pub \<Longrightarrow> keeps P (owned_only always j rs pub)"
  by (auto simp: keeps_def owned_only_def split: if_splits)

subsection \<open>The balance\<close>

definition packed_events :: "bundlePacker option \<Rightarrow> int" where
  "packed_events p = (case p of None \<Rightarrow> 0 | Some q \<Rightarrow> int (length (bp_items q)))"

definition balanced :: "('w \<Rightarrow> OutboundMessage list) \<Rightarrow> 'w stream_state \<Rightarrow> bool" where
  "balanced submitted st \<longleftrightarrow>
     co_RecordsRead (ss_counts st) = co_RecordsRejected (ss_counts st)
       + sum_list (map logical_events (submitted (ss_world st) @ ss_batch st)) + packed_events (ss_packer st)
     \<and> co_RecordsIgnored (ss_counts st) = 0 \<and> co_CountsComplete (ss_counts st)
     \<and> (\<forall>p. ss_packer st = Some p \<longrightarrow> packer_ok p)"

lemma bump_reason_fields [simp]:
  "co_RecordsRead (bump_reason r k c) = co_RecordsRead c" "co_RecordsRejected (bump_reason r k c) = co_RecordsRejected c"
  "co_RecordsIgnored (bump_reason r k c) = co_RecordsIgnored c" "co_CountsComplete (bump_reason r k c) = co_CountsComplete c"
  by (simp_all add: bump_reason_def Let_def)

lemma count_ignored_fields [simp]:
  "co_RecordsRead (count_ignored s c) = co_RecordsRead c" "co_RecordsRejected (count_ignored s c) = co_RecordsRejected c"
  "co_RecordsIgnored (count_ignored s c) = co_RecordsIgnored c" "co_CountsComplete (count_ignored s c) = co_CountsComplete c"
  by (simp_all add: count_ignored_def Let_def)

lemma sendBatch_balanced:
  assumes "sender_contract ports submitted" "sendBatch ports st = (None, st')"
  shows "submitted (ss_world st') @ ss_batch st' = submitted (ss_world st) @ ss_batch st
    \<and> ss_counts st' = ss_counts st \<and> ss_packer st' = ss_packer st \<and> ss_batch st' = []"
  using assms by (auto simp: sendBatch_def sender_contract_def split: prod.splits option.splits)

lemma enqueueSingle_balanced:
  assumes "sender_contract ports submitted" "enqueueSingle ports k msg st = (None, st')"
  shows "submitted (ss_world st') @ ss_batch st' = submitted (ss_world st) @ ss_batch st @ [msg]
    \<and> ss_counts st' = ss_counts st \<and> ss_packer st' = ss_packer st"
  using assms sendBatch_balanced [OF assms(1)]
  by (fastforce simp: enqueueSingle_def Let_def split: if_splits)

lemma enqueueBundle_balanced:
  assumes C: "sender_contract ports submitted" and ok: "packer_ok p" and st: "ss_packer st = Some p"
    and run: "enqueueBundle ports k p env b st = (None, st')"
  shows "sum_list (map logical_events (submitted (ss_world st') @ ss_batch st')) + packed_events (ss_packer st')
      = sum_list (map logical_events (submitted (ss_world st) @ ss_batch st)) + packed_events (ss_packer st) + 1
    \<and> ss_counts st' = ss_counts st \<and> (\<forall>p'. ss_packer st' = Some p' \<longrightarrow> packer_ok p')"
proof -
  have ok': "packer_ok (fst (add p env b))" by (rule packer_ok_add [OF ok])
  show ?thesis
    using ok
  proof (cases rule: add_cases [of p b env])
    case (Flushed p' m)
    then have "enqueueSingle ports k m (st\<lparr>ss_packer := Some (append_item p' (md_EventID (en_Metadata env)) b (sizeWith p' b))\<rparr>) = (None, st')"
      using run by (simp add: enqueueBundle_def)
    note E = enqueueSingle_balanced [OF C this]
    have "m = bundle_message p (pending_items p)" by (rule flush_message [OF ok Flushed(3)])
    then have "logical_events m = int (length (bp_items p))"
      using ok Flushed(2) by (simp add: bundle_message_def Let_def pending_items_def packer_ok_def logical_events_def)
    moreover have "length (bp_items (append_item p' (md_EventID (en_Metadata env)) b (sizeWith p' b))) = 1"
      using Flushed(4) by (simp add: append_item_def)
    ultimately have sizes: "logical_events m = packed_events (ss_packer st)" "packed_events (ss_packer st') = 1"
      using E st by (simp_all add: packed_events_def)
    from E have "sum_list (map logical_events (submitted (ss_world st') @ ss_batch st'))
        = sum_list (map logical_events ((submitted (ss_world st) @ ss_batch st) @ [m]))" by simp
    with sizes have "sum_list (map logical_events (submitted (ss_world st') @ ss_batch st')) + packed_events (ss_packer st')
        = sum_list (map logical_events (submitted (ss_world st) @ ss_batch st)) + packed_events (ss_packer st) + 1" by simp
    moreover have "packer_ok (append_item p' (md_EventID (en_Metadata env)) b (sizeWith p' b))"
      using ok' Flushed(13) by simp
    ultimately show ?thesis using E by simp
  next
    case Kept
    with run ok' st show ?thesis
      by (auto simp: enqueueBundle_def packed_events_def append_item_def)
  qed (use run in \<open>simp_all add: enqueueBundle_def\<close>)
qed

lemma enqueueBundle_rejects:
  assumes "packer_ok p" "ss_packer st = Some p" "enqueueBundle ports k p env b st = (Some (PackFailed (EnvelopeTooLarge big)), st')"
  shows "ss_counts st' = ss_counts st \<and> ss_world st' = ss_world st \<and> ss_batch st' = ss_batch st \<and> ss_packer st' = Some p"
  using assms
  by (cases rule: add_cases [of p b env])
    (auto simp: enqueueBundle_def enqueueSingle_def sendBatch_def Let_def split: if_splits prod.splits option.splits)

lemma publish_balanced:
  assumes C: "sender_contract ports submitted"
  shows "keeps (balanced submitted) (publish ports cfg k j rs pl)"
  unfolding keeps_def
proof (intro allI impI)
  fix n off raw st0 st'
  assume B: "balanced submitted st0" and run: "publish ports cfg k j rs pl n off raw st0 = (None, st')"
  define st where "st = st0\<lparr>ss_counts := (ss_counts st0)\<lparr>co_RecordsRead := co_RecordsRead (ss_counts st0) + 1\<rparr>\<rparr>"
  define env where "env = record_envelope cfg (wp_now ports (ss_world st)) j rs pl n off raw"
  define b where "b = marshal_envelope env"
  have st: "ss_packer st = ss_packer st0" "ss_batch st = ss_batch st0" "ss_world st = ss_world st0"
    by (simp_all add: st_def)
  note run' = run [unfolded publish_def Let_def, folded st_def, folded env_def, folded b_def]
  show "balanced submitted st'"
  proof (cases "ss_packer st")
    case None
    let ?m = "\<lparr>om_Body = b, om_Attributes = message_attributes env, om_LogicalEvents = 1\<rparr>"
    have "(if OutboundMessageSize ?m > MaxPhysicalMessageBytes
           then (None, st\<lparr>ss_counts := reject_record (ss_counts st)\<rparr>)
           else enqueueSingle ports k ?m st) = (None, st')"
      using run' None by (simp only: option.case split: if_split_asm) simp_all
    then consider "st' = st\<lparr>ss_counts := reject_record (ss_counts st)\<rparr>"
      | "enqueueSingle ports k ?m st = (None, st')"
      by (cases "OutboundMessageSize ?m > MaxPhysicalMessageBytes") simp_all
    then show ?thesis
    proof cases
      case 1
      with B st show ?thesis by (simp add: balanced_def reject_record_def st_def)
    next
      case 2
      from enqueueSingle_balanced [OF C 2] B st show ?thesis
        by (auto simp: balanced_def st_def logical_events_def)
    qed
  next
    case (Some p)
    have ok: "packer_ok p" using B Some st by (simp add: balanced_def)
    have "(case enqueueBundle ports k p env b st of
             (Some (PackFailed (EnvelopeTooLarge big)), st') \<Rightarrow> (None, st'\<lparr>ss_counts := reject_record (ss_counts st')\<rparr>)
           | (Some e, st') \<Rightarrow> (Some e, st') | (None, st') \<Rightarrow> (None, st')) = (None, st')"
      using run' Some by (simp only: option.case split: if_split_asm) simp_all
    then consider (rej) big st1 where
        "enqueueBundle ports k p env b st = (Some (PackFailed (EnvelopeTooLarge big)), st1)"
        "st' = st1\<lparr>ss_counts := reject_record (ss_counts st1)\<rparr>"
      | (ok) "enqueueBundle ports k p env b st = (None, st')"
      by (auto split: prod.splits option.splits publish_error.splits pack_error.splits)
    then show ?thesis
    proof cases
      case rej
      from enqueueBundle_rejects [OF ok Some rej(1)] B st Some rej(2) show ?thesis
        by (simp add: balanced_def reject_record_def st_def)
    next
      case ok
      from enqueueBundle_balanced [OF C \<open>packer_ok p\<close> Some ok] B st show ?thesis
        by (auto simp: balanced_def st_def)
    qed
  qed
qed

lemma publish_json_balanced:
  assumes "sender_contract ports submitted"
  shows "keeps (balanced submitted) (\<lambda>n off raw. publish ports cfg k j rs (int (length raw)) n off raw)"
  using publish_balanced [OF assms] by (simp add: keeps_def)

lemma read_records_balanced:
  assumes C: "sender_contract ports submitted" and B: "balanced submitted st"
    and run: "read_records ports ctx cfg j data re rs st = (None, st')"
  shows "balanced submitted st'"
proof -
  note P = publish_balanced [OF C, of cfg "effective_batch_size cfg" j rs 0]
  consider (is_text) "cj_DataType j = DataTypeText" | (is_multi) "cj_DataType j = DataTypeMultiLine"
    | (is_json) "cj_DataType j = DataTypeJSON"
    | (other) "cj_DataType j \<noteq> DataTypeText" "cj_DataType j \<noteq> DataTypeMultiLine" "cj_DataType j \<noteq> DataTypeJSON" by blast
  then show ?thesis
  proof cases
    case is_text
    with run have "read_text ctx cfg j data re rs (publish ports cfg (effective_batch_size cfg) j rs 0) st = (None, st')"
      by (cases "read_text ctx cfg j data re rs (publish ports cfg (effective_batch_size cfg) j rs 0) st")
        (simp add: read_records_def Let_def)
    then show ?thesis
      unfolding read_text_def Let_def by (rule ReadLines_keeps [OF owned_only_keeps [OF P] B])
  next
    case is_multi
    with run obtain stats st1
      where r: "read_multiline ctx j data re rs (publish ports cfg (effective_batch_size cfg) j rs 0) st = (None, stats, st1)"
        and st': "st' = st1\<lparr>ss_counts := count_ignored stats (ss_counts st1)\<rparr>"
      by (auto simp: read_records_def Let_def split: prod.splits)
    have "balanced submitted st1"
      using r unfolding read_multiline_def by (rule ReadMultiLine_keeps [OF owned_only_keeps [OF P] B])
    then show ?thesis by (simp add: st' balanced_def)
  next
    case is_json
    let ?fn = "\<lambda>n off raw. publish ports cfg (effective_batch_size cfg) j rs (int (length raw)) n off raw"
    from is_json run have "readJSONArray ctx j data rs ?fn st = (None, st')"
      by (cases "readJSONArray ctx j data rs ?fn st") (simp add: read_records_def Let_def split: read_end.splits)
    then show ?thesis
      using read_elements_keeps [OF publish_json_balanced [OF C] B]
      by (auto simp: readJSONArray_def Let_def split: prod.splits)
  next
    case other
    with run B show ?thesis by (simp add: read_records_def Let_def)
  qed
qed

lemma flush_packer_balanced:
  assumes B: "balanced submitted st" and run: "flush_packer st = (None, st')"
  shows "balanced submitted st' \<and> packed_events (ss_packer st') = 0"
proof (cases "ss_packer st")
  case None
  with assms show ?thesis by (auto simp: flush_packer_def packed_events_def)
next
  case (Some p)
  have ok: "packer_ok p" using B Some by (simp add: balanced_def)
  then show ?thesis
  proof (cases rule: flush_cases)
    case Empty
    with run Some B ok show ?thesis by (auto simp: flush_packer_def packed_events_def balanced_def)
  next
    case (TooBig sz)
    with run Some show ?thesis by (simp add: flush_packer_def)
  next
    case (Full p' msg)
    have st': "st' = st\<lparr>ss_packer := Some p', ss_batch := ss_batch st @ [msg]\<rparr>"
      using run Some Full(2) by (simp add: flush_packer_def)
    have p': "packer_ok p'" "bp_items p' = []" using packer_ok_flush [OF ok] Full by simp_all
    have "logical_events msg = int (length (bp_items p))" using Full(1,5) by (simp add: logical_events_def)
    with B Some p' st' show ?thesis by (simp add: balanced_def packed_events_def)
  qed
qed

lemma flush_stream_balanced:
  assumes C: "sender_contract ports submitted" and B: "balanced submitted st"
    and run: "flush_stream ports st = (None, st')"
  shows "co_RecordsRead (ss_counts st') = co_RecordsPublished (ss_counts st') + co_RecordsRejected (ss_counts st')
    \<and> co_RecordsIgnored (ss_counts st') = 0 \<and> co_CountsComplete (ss_counts st')"
proof -
  obtain st1 where s1: "flush_packer st = (None, st1)"
    and r1: "(case flush_batch ports st1 of (Some e, st'') \<Rightarrow> (Some e, st'') | (None, st'') \<Rightarrow> wait_and_count ports st'') = (None, st')"
    using run by (auto simp: flush_stream_def split: prod.splits option.splits)
  obtain st2 where s2: "flush_batch ports st1 = (None, st2)" and r2: "wait_and_count ports st2 = (None, st')"
    using r1 by (auto split: prod.splits option.splits)
  note B1 = flush_packer_balanced [OF B s1]
  have "submitted (ss_world st2) @ ss_batch st2 = submitted (ss_world st1) @ ss_batch st1
      \<and> ss_counts st2 = ss_counts st1 \<and> ss_packer st2 = ss_packer st1 \<and> ss_batch st2 = []"
  proof (cases "ss_batch st1 = []")
    case True
    with s2 show ?thesis by (simp add: flush_batch_def)
  next
    case False
    with s2 have "sendBatch ports st1 = (None, st2)" by (simp add: flush_batch_def)
    from sendBatch_balanced [OF C this] show ?thesis using False by (elim conjE) (simp only: append_Nil2 simp_thms)
  qed
  then have S: "submitted (ss_world st2) @ ss_batch st2 = submitted (ss_world st1) @ ss_batch st1"
    "ss_counts st2 = ss_counts st1" "ss_packer st2 = ss_packer st1" "ss_batch st2 = []" by blast+
  from S(1,4) have "submitted (ss_world st2) = submitted (ss_world st1) @ ss_batch st1" by simp
  with S have B2: "balanced submitted st2" "packed_events (ss_packer st2) = 0" "ss_batch st2 = []"
    using B1 by (simp_all add: balanced_def)
  obtain w c where wt: "wp_wait ports (ss_world st2) = (w, None, c)"
    and st': "st' = st2\<lparr>ss_world := w, ss_counts := (ss_counts st2)\<lparr>co_MessagesPublished := ct_messages c,
      co_RecordsPublished := ct_events c, co_SendMessageBatchCalls := ct_calls c\<rparr>\<rparr>"
    using r2 by (auto simp: wait_and_count_def split: prod.splits option.splits)
  have "ct_events c = sum_list (map logical_events (submitted (ss_world st2)))"
    using C wt by (simp add: sender_contract_def)
  with B2 show ?thesis by (simp add: balanced_def st')
qed

lemma new_packer_empty: "bp_items (newBundlePacker j c) = []"
  by (simp add: newBundlePacker_def Let_def)

lemma stream_start_balanced: "submitted w = [] \<Longrightarrow> balanced submitted (stream_start j w)"
  using packer_ok_new [of j "cj_Configuration j"]
  by (simp add: balanced_def stream_start_def zero_Counts_def packed_events_def new_packer_empty)

subsection \<open>Properties\<close>


text \<open>A world in which the sender keeps what it is given, and a chunk of two records.\<close>

definition list_ports :: "OutboundMessage list worker_ports" where
  "list_ports = \<lparr>wp_OpenChunkRange = (\<lambda>_ _ _ w. (w, Inl [])), wp_submit = (\<lambda>b w. (w @ b, None)),
     wp_wait = (\<lambda>w. (w, None, \<lparr>ct_messages = int (length w), ct_events = sum_list (map logical_events w), ct_calls = 1\<rparr>)),
     wp_Send = (\<lambda>_ _ w. (w, Inr [])), wp_Ledger = None, wp_CompletionLedger = None, wp_now = (\<lambda>_. ''now''),
     wp_nowInstant = (\<lambda>_. 0), wp_millis = (\<lambda>_. 0), wp_marshalEvent = (\<lambda>_. [])\<rparr>"

lemma list_ports_contract: "sender_contract list_ports id"
  by (simp add: sender_contract_def list_ports_def)


lemma message_attributes_few: "length (message_attributes env) \<le> 10"
proof -
  have l: "length (filter P [u, v, x, y]) \<le> 4" for P and u v x y :: "string \<times> string"
    using length_filter_le [of P "[u, v, x, y]"] by simp
  show ?thesis
    unfolding message_attributes_def Let_def length_append length_map
    by (rule order_trans [OF add_mono [OF order_refl l]]) simp
qed

lemma publish_list_ports:
  assumes "event_limit cfg \<ge> MaxPhysicalMessageBytes" "ss_packer st = None"
  shows "\<exists>st'. publish list_ports cfg k j rs pl n off raw st = (None, st') \<and> ss_packer st' = None
    \<and> co_RecordsRead (ss_counts st') = co_RecordsRead (ss_counts st) + 1"
proof -
  have few: "\<not> 10 < length (message_attributes env)" for env using message_attributes_few [of env] by simp
  have lim: "\<not> event_limit cfg < MaxPhysicalMessageBytes" using assms(1) by simp
  show ?thesis
    using assms(2) few lim
    by (simp add: publish_def Let_def enqueueSingle_def sendBatch_def list_ports_def reject_record_def)
qed

lemma flush_list_ports: "ss_packer st = None \<Longrightarrow>
  \<exists>st'. flush_stream list_ports st = (None, st') \<and> co_RecordsRead (ss_counts st') = co_RecordsRead (ss_counts st)"
  by (auto simp: flush_stream_def flush_packer_def flush_batch_def sendBatch_def wait_and_count_def list_ports_def)

definition one_line_job :: ChunkJob where
  "one_line_job = zero_ChunkJob\<lparr>cj_JobID := ''j'', cj_FileID := ''f'', cj_ChunkID := ''00000001'', cj_Bucket := ''b'',
     cj_Key := ''k'', cj_FileSize := 2, cj_EndByteInclusive := 1, cj_MaxRecordLengthBytes := 5, cj_DataType := DataTypeText\<rparr>"

lemma one_line_stream:
  "\<exists>w' c. streamWithMetrics list_ports no_cancel (zero_Config\<lparr>cf_MaxEventBytes := 1048576\<rparr>) one_line_job (''a'' @ [LF]) EOF 0 []
    = (w', Inr c) \<and> co_RecordsRead c = 1"
proof -
  let ?cfg = "zero_Config\<lparr>cf_MaxEventBytes := 1048576\<rparr>" and ?j = one_line_job
  let ?pub = "publish list_ports ?cfg 10 ?j 0 0" and ?st = "stream_start ?j []"
  have start: "ss_packer ?st = None" "co_RecordsRead (ss_counts ?st) = 0"
    by (simp_all add: stream_start_def one_line_job_def zero_records OutputModeSingle_def OutputModeBundle_def zero_Counts_def)
  have lim: "event_limit ?cfg \<ge> MaxPhysicalMessageBytes" by (simp add: event_limit_def zero_Config_def port_limits)
  obtain st' where st': "?pub 0 0 ''a'' ?st = (None, st')" "ss_packer st' = None" "co_RecordsRead (ss_counts st') = 1"
    using publish_list_ports [OF lim start(1), of 10 ?j 0 0 0 0 "''a''"] start(2) by auto
  have lines: "phys_lines 0 (''a'' @ [LF]) = [(0, ''a'')]" "line_tail 0 (''a'' @ [LF]) = (2, [])" "utf8_valid ''a''"
    by code_simp+
  have owned: "owned_only False ?j 0 ?pub 0 0 ''a'' ?st = ?pub 0 0 ''a'' ?st"
    by (simp add: owned_only_def one_line_job_def zero_records wrap64_def)
  have jf: "cj_DataType ?j = DataTypeText" "cj_MaxRecordLengthBytes ?j = 5" "effective_batch_size ?cfg = 10"
    by (simp_all add: one_line_job_def effective_batch_size_def zero_Config_def)
  have "read_text no_cancel ?cfg ?j (''a'' @ [LF]) EOF 0 ?pub ?st = (None, st')"
    using lines owned st' by (simp add: read_text_def jf ReadLines_eq_run_lines)
  then have "read_records list_ports no_cancel ?cfg ?j (''a'' @ [LF]) EOF 0 ?st = (None, st')"
    by (simp add: read_records_def jf Let_def)
  then show ?thesis
    using flush_list_ports [OF st'(2)] st'(3) by (auto simp: streamWithMetrics_def split: prod.splits)
qed


end
