(* ===== verification/Worker_Checks.thy ===== *)
theory Worker_Checks
  imports Worker_Text Worker_Counts
begin

section \<open>Where planner, packer and Worker meet\<close>

text \<open>
  Facts that span two components: which planned chunks the Worker's validation accepts, what
  the packer does with an envelope that fits no bundle, and the byte offsets of JSON records.
\<close>

subsection \<open>Planned text chunks and the Worker's validation\<close>

lemma chunk_length_range: "0 \<le> s \<Longrightarrow> s \<le> e \<Longrightarrow> e < max_int64 \<Longrightarrow> wrap64 (wrap64 (e - s) + 1) = e - s + 1"
  by (rule range_length)

lemma valid_text:
  assumes "cj_SchemaVersion j = SchemaVersion" "cj_Bucket j \<noteq> []" "cj_Key j \<noteq> []" "cj_DataType j = DataTypeText"
    and "0 \<le> cj_StartByte j" "cj_StartByte j \<le> cj_EndByteInclusive j" "cj_EndByteInclusive j < max_int64"
    and "cj_TrailingPaddingBytes j = 0"
    and "cj_EndByteInclusive j - cj_StartByte j + 1 \<le> (if cf_MaxChunkBytes cfg = 0 then 64 * 1024 * 1024 else cf_MaxChunkBytes cfg)"
  shows "valid cfg j = None"
proof -
  have "chunk_length j = cj_EndByteInclusive j - cj_StartByte j + 1"
    unfolding chunk_length_def by (rule chunk_length_range [OF assms(5-7)])
  with assms show ?thesis by (simp add: valid_def Let_def)
qed

lemma variableJobs_header:
  assumes "variableJobs cfg fl n etag ver ex = Inr jobs" "j \<in> set jobs"
  shows "cj_SchemaVersion j = SchemaVersion \<and> cj_Bucket j = fr_Bucket fl \<and> cj_Key j = fr_Key fl"
  using assms by (auto simp: variableJobs_def mk_job_def zero_records Let_def split: if_splits sum.splits)

lemma job_config_limit:
  "cf_MaxChunkBytes (job_config (j\<lparr>cj_Configuration := job_configuration pcfg\<rparr>) wcfg)
     = (if cf_MaxChunkBytes pcfg > 0 then cf_MaxChunkBytes pcfg else cf_MaxChunkBytes wcfg)"
  by (simp add: job_config_def job_configuration_def zero_records Let_def)

text \<open>
  C26. The Worker accepts what the planner plans: every text chunk of a plan passes the Worker's
  validation, with the chunk limit the planner wrote into the job (or the default on both
  sides), provided the limit is at least twice the minimum chunk size of 5 MiB.
\<close>

theorem planned_text_chunks_are_valid:
  assumes "variableJobs cfg fl n etag ver ex = Inr jobs" "j \<in> set jobs"
    and "0 < n" "n \<le> max_object_size" "sane_config cfg" "2 * minimumTargetChunkBytes \<le> maxChunkBytes cfg"
    and "fr_DataType fl = DataTypeText" "fr_Bucket fl \<noteq> []" "fr_Key fl \<noteq> []"
    and "cf_MaxChunkBytes cfg > 0 \<or> cf_MaxChunkBytes wcfg = 0"
  shows "valid (job_config (j\<lparr>cj_Configuration := job_configuration cfg\<rparr>) wcfg)
           (j\<lparr>cj_Configuration := job_configuration cfg\<rparr>) = None"
proof -
  let ?j = "j\<lparr>cj_Configuration := job_configuration cfg\<rparr>"
  obtain c where c: "textChunkCount cfg n = Inr c" "1 \<le> c" "c \<le> n"
    "map owned_range jobs = map (\<lambda>k. (balanced_start n c k, balanced_start n c (Suc k) - 1)) [0..<nat c]"
    "map (\<lambda>j. (cj_StartByte j, cj_EndByteInclusive j)) jobs = map owned_range jobs"
    by (rule variableJobs_ranges [OF assms(1,3-5)])
  have acc: "text_accepts_bounded (cfg, fl, etag, ver, ex) n"
    using assms(1,3-6) by (simp add: text_accepts_bounded_def text_accepts_def accepted_def text_plan_def)
  have mem: "(cj_StartByte j, cj_EndByteInclusive j) \<in> set (plan_ranges (text_plan (cfg, fl, etag, ver, ex) n))"
    using assms(1,2) by (auto simp: text_plan_def plan_ranges_def c(5) [symmetric])
  from text_planner.range_inside [OF acc mem] text_planner.bounded [OF acc mem]
  have r: "0 \<le> cj_StartByte j" "cj_StartByte j \<le> cj_EndByteInclusive j" "cj_EndByteInclusive j < n"
    "cj_EndByteInclusive j - cj_StartByte j + 1 \<le> maxChunkBytes cfg"
    by (auto simp: range_len_def)
  show ?thesis
  proof (rule valid_text)
    show "cj_EndByteInclusive ?j < max_int64" using r(3) assms(4) by (simp add: size_consts)
    show "cj_EndByteInclusive ?j - cj_StartByte ?j + 1
      \<le> (if cf_MaxChunkBytes (job_config ?j wcfg) = 0 then 64 * 1024 * 1024 else cf_MaxChunkBytes (job_config ?j wcfg))"
      using r(4) assms(10) by (auto simp: job_config_limit maxChunkBytes_def split: if_splits)
  qed (use variableJobs_fields [OF assms(1,2)] variableJobs_header [OF assms(1,2)] assms(7-9) r in simp_all)
qed

theorem planned_text_chunks_are_valid_witness:
  "valid (job_config (sample_chunk\<lparr>cj_Configuration := job_configuration zero_Config\<rparr>) zero_Config)
     (sample_chunk\<lparr>cj_Configuration := job_configuration zero_Config\<rparr>) = None"
  using planned_text_chunks_are_valid [OF sample_plan, of sample_chunk zero_Config]
  by (simp add: sample_text_def max_object_size_def sane_config_def zero_Config_def maxChunkBytes_def
      minimumTargetChunkBytes_def sample_request_def)

definition tight_config :: Config where
  "tight_config = zero_Config\<lparr>cf_MaxChunkBytes := 5242880\<rparr>"


subsection \<open>The packer\<close>

text \<open>
  C28. Bundling conserves envelopes: packing any list of serialised envelopes and flushing at the
  end either fails or gives messages that carry exactly these envelopes, in order and each
  once; every message stays within \<^verbatim>\<open>maxMessageBytes\<close>, the SQS limit and \<^verbatim>\<open>maxEnvelopesPerMessage\<close>.
\<close>

theorem packer_conserves_envelopes:
  assumes "packer.batch_all (newBundlePacker job cfg) xs [] = Inr out"
  shows "(\<exists>xss. out = map (bundle_message (newBundlePacker job cfg)) xss \<and> concat xss = xs)
    \<and> (\<forall>m\<in>set out. message_within (newBundlePacker job cfg) m)"
  using packer.batch_all_split [OF packer_ok_new assms] packer_limits.batch_all_good [OF packer_ok_new assms]
  by (simp add: pending_items_def newBundlePacker_def Let_def)

text \<open>
  C34. The packer does not fail on envelopes that fit: when each envelope fits a bundle of its own,
  packing all of them and flushing succeeds, whatever their number and order.
\<close>

theorem packer_never_fails_on_fitting_envelopes:
  assumes "\<forall>x\<in>set xs. envelope_fits (newBundlePacker job cfg) x"
  shows "\<exists>out. packer.batch_all (newBundlePacker job cfg) xs [] = Inr out"
  using packer_total.batch_all_total [OF packer_ok_new, of job cfg xs "[]"] assms
  by (simp add: packer_safe_def newBundlePacker_def Let_def)


lemma empty_bundle_size:
  "bp_emptyMessageSize (newBundlePacker zero_ChunkJob (zero_JobConfiguration\<lparr>jc_MaxMessageBytes := 381\<rparr>)) = 380"
  "bp_maxMessageBytes (newBundlePacker zero_ChunkJob (zero_JobConfiguration\<lparr>jc_MaxMessageBytes := 381\<rparr>)) = 381"
  by code_simp+

theorem packer_conserves_envelopes_witness:
  "\<exists>xss. concat xss = [(''i'', ''x''), (''k'', ''y'')] \<and>
     (\<forall>m\<in>set (map (bundle_message (newBundlePacker zero_ChunkJob (zero_JobConfiguration\<lparr>jc_MaxMessageBytes := 381\<rparr>))) xss).
        OutboundMessageSize m \<le> 381)"
proof -
  let ?p = "newBundlePacker zero_ChunkJob (zero_JobConfiguration\<lparr>jc_MaxMessageBytes := 381\<rparr>)"
  have "\<exists>out. packer.batch_all ?p [(''i'', ''x''), (''k'', ''y'')] [] = Inr out"
    by (rule packer_total.batch_all_total [OF packer_ok_new])
      (simp_all add: envelope_fits_def empty_bundle_size packer_safe_def new_packer_empty)
  then obtain out where "packer.batch_all ?p [(''i'', ''x''), (''k'', ''y'')] [] = Inr out" by blast
  from packer_conserves_envelopes [OF this] show ?thesis
    by (auto simp: message_within_def empty_bundle_size)
qed

theorem packer_never_fails_on_fitting_envelopes_witness:
  "\<exists>out. packer.batch_all (newBundlePacker zero_ChunkJob (zero_JobConfiguration\<lparr>jc_MaxMessageBytes := 381\<rparr>))
     [(''i'', ''x''), (''k'', ''y'')] [] = Inr out"
  by (rule packer_never_fails_on_fitting_envelopes) (simp add: envelope_fits_def empty_bundle_size)

text \<open>
  C35. An oversized envelope is rejected only when it comes first: when the packer already holds a
  bundle, \<^verbatim>\<open>add\<close> flushes that bundle and then admits the oversized envelope without checking it
  again, and the next \<^verbatim>\<open>flush\<close> fails with an error that is not the rejection
  \<^verbatim>\<open>ErrEnvelopeTooLarge\<close>, so the whole chunk fails where the single-envelope mode rejects one record.
\<close>

theorem oversize_after_first_is_admitted:
  assumes "packer_ok p" "packer_safe p" "bp_items p \<noteq> []" "s \<noteq> []"
    and "bp_maxMessageBytes p < bp_emptyMessageSize p + int (length s)"
  shows "\<exists>p' m sz. add p env s = (p', Inr (Some m)) \<and> bp_items p' = [s]
    \<and> flush p' = (p', Inl (BundleOverLimit sz (bp_maxMessageBytes p))) \<and> bp_maxMessageBytes p < sz"
proof -
  have ge: "bp_emptyMessageSize p \<le> bp_currentMessageSize p"
    using assms(1) physicalMessageSize_items [of p bundleIDPlaceholder "bp_items p"] by (simp add: packer_ok_def)
  show ?thesis
  proof (cases rule: add_cases [OF assms(1), of s env])
    case (4 p' m)
    let ?q = "append_item p' (md_EventID (en_Metadata env)) s (sizeWith p' s)"
    have ok: "packer_ok ?q" by (rule packer_ok_append) (simp_all add: 4)
    have q: "bp_items ?q = [s]" "bp_maxMessageBytes ?q = bp_maxMessageBytes p"
      "bp_currentMessageSize ?q = bp_emptyMessageSize p + int (length s)"
      using 4 sizeWith_empty [of p' s] by (simp_all add: append_item_def)
    from ok show ?thesis
    proof (cases rule: flush_cases)
      case (TooBig sz)
      with 4 q show ?thesis by auto
    qed (use q assms(5) in simp_all)
  next
    case (3 e)
    with flush_safe [OF assms(1,2)] show ?thesis by simp
  next
    case 5
    with assms(3,5) ge show ?thesis by (simp add: sizeWith_def Let_def)
  qed (use assms in simp_all)
qed

theorem oversize_after_first_is_admitted_witness:
  "\<exists>p' m sz. add (append_item (newBundlePacker zero_ChunkJob (zero_JobConfiguration\<lparr>jc_MaxMessageBytes := 381\<rparr>)) ''i'' ''x'' 381)
       (item_envelope ''k'') ''yy'' = (p', Inr (Some m)) \<and> bp_items p' = [''yy'']
    \<and> flush p' = (p', Inl (BundleOverLimit sz 381)) \<and> 381 < sz"
proof -
  let ?n = "newBundlePacker zero_ChunkJob (zero_JobConfiguration\<lparr>jc_MaxMessageBytes := 381\<rparr>)"
  have e: "bp_items ?n = []" by (simp add: newBundlePacker_def Let_def)
  have s: "sizeWith ?n ''x'' = 381" using sizeWith_empty [OF packer_ok_new e] by (simp add: empty_bundle_size)
  let ?p = "append_item ?n ''i'' ''x'' 381"
  have ok: "packer_ok ?p" using packer_ok_append [OF packer_ok_new, of zero_ChunkJob "zero_JobConfiguration\<lparr>jc_MaxMessageBytes := 381\<rparr>" "''i''" "''x''"] e s by simp
  show ?thesis
    using oversize_after_first_is_admitted [OF ok, of "''yy''" "item_envelope ''k''"]
    by (simp add: packer_safe_def append_item_def empty_bundle_size e)
qed

text \<open>
  C36. The identity of a bundle does not depend on the order in which its envelopes were added.
\<close>

theorem bundle_identity_is_order_independent:
  assumes "mset ids = mset ids'"
  shows "bundleIDFromEventIDs ids = bundleIDFromEventIDs ids'"
proof -
  have "sort ids = sort ids'"
    using assms by (intro properties_for_sort) (simp_all flip: assms)
  then show ?thesis by (simp add: bundleIDFromEventIDs_def)
qed

theorem bundle_identity_is_order_independent_witness:
  "bundleIDFromEventIDs [''b'', ''a''] = bundleIDFromEventIDs [''a'', ''b'']"
  by (rule bundle_identity_is_order_independent) simp

subsection \<open>The offsets of JSON records\<close>

definition json_object_text :: bytes where
  "json_object_text = ''[{\"a\":1},{\"a\":123},{\"a\":2},{\"a\":3}]''"

definition json_request :: FileRequest where
  "json_request = sample_request\<lparr>fr_DataType := DataTypeJSON,
     fr_JSONArrayLayout := \<lparr>ja_FirstFieldName = ''a'', ja_MaxBytesPerElement = 10\<rparr>\<rparr>"

definition json_chunk :: "int \<Rightarrow> int \<Rightarrow> int \<Rightarrow> ChunkJob" where
  "json_chunk k s e = mk_job json_request 35 ''e'' [] ''x'' k s e 10
     \<lparr>cj_JSONArrayLayout := fr_JSONArrayLayout json_request\<rparr>"

text \<open>The records of a chunk with the byte offset \<^verbatim>\<open>publish\<close> gives them.\<close>

definition json_records :: "bytes \<Rightarrow> ChunkJob \<Rightarrow> publish_error option \<times> (int \<times> bytes) list" where
  "json_records object j =
    (case chunkReadRange j of
       Inl _ \<Rightarrow> (None, [])
     | Inr (a, b) \<Rightarrow> readJSONArray no_cancel j (file_window object a b) a
         (\<lambda>n off raw s. (None, s @ [(record_offset j a off, raw)])) [])"

lemma json_jobs: "jsonArrayJobs (zero_Config\<lparr>cf_RecordsPerChunk := 1\<rparr>) json_request 35 ''e'' [] ''x''
  = Inr [json_chunk 1 0 9, json_chunk 2 10 19, json_chunk 3 20 29, json_chunk 4 30 34]"
proof -
  have l: "json_loop (Suc (Suc (Suc (Suc (Suc k))))) json_request 35 ''e'' [] ''x'' 10 0 1
     = Inr [json_chunk 1 0 9, json_chunk 2 10 19, json_chunk 3 20 29, json_chunk 4 30 34]" for k
    by (simp add: wrap64_nonneg max_int64_def json_chunk_def Let_def) (simp add: json_request_def)
  have "Suc (nat 35) = Suc (Suc (Suc (Suc (Suc 31))))" by simp
  with l [of 31] show ?thesis
    by (simp add: jsonArrayJobs_def json_request_def zero_Config_def maxChunkBytes_def wrap64_nonneg max_int64_def
        Let_def del: json_loop.simps)
qed

lemma json_chunk_fields:
  "ja_FirstFieldName (cj_JSONArrayLayout (json_chunk k s e)) = ''a''"
  "ja_MaxBytesPerElement (cj_JSONArrayLayout (json_chunk k s e)) = 10"
  "cj_StartByte (json_chunk k s e) = s" "cj_EndByteInclusive (json_chunk k s e) = e"
  "cj_MaxRecordLengthBytes (json_chunk k s e) = 10" "cj_DataType (json_chunk k s e) = DataTypeJSON"
  "cj_FileSize (json_chunk k s e) = 35" "cj_JobID (json_chunk k s e) = ''x''"
  "cj_FileID (json_chunk k s e) = cj_FileID (json_chunk 0 0 0)"
  by (simp_all add: json_chunk_def json_request_def sample_request_def mk_job_def)

lemma json_windows:
  "file_window json_object_text 0 29 = ''[{\"a\":1},{\"a\":123},{\"a\":2},{\"a''"
  "file_window json_object_text 10 34 = ''\"a\":123},{\"a\":2},{\"a\":3}]''"
  by code_simp+

lemma json_aligned:
  "alignJSONRead ''[{\"a\":1},{\"a\":123},{\"a\":2},{\"a'' 0 ''a'' = (''{\"a\":1},{\"a\":123},{\"a\":2},{\"a'', 1)"
  "alignJSONRead ''\"a\":123},{\"a\":2},{\"a\":3}]'' 10 ''a'' = (''{\"a\":2},{\"a\":3}]'', 19)"
  by code_simp+

lemma json_found:
  "FindJSONObjectStarts ''{\"a\":1},{\"a\":123},{\"a\":2},{\"a'' ''a'' = [(0, 7), (8, 17), (18, 25)]"
  "FindJSONObjectStarts ''{\"a\":2},{\"a\":3}]'' ''a'' = [(0, 7), (8, 15)]"
  by code_simp+

lemma json_chunk_windows:
  "chunkReadRange (json_chunk 2 10 19) = Inr (0, 29)" "chunkReadRange (json_chunk 3 20 29) = Inr (10, 34)"
  by (simp_all add: chunkReadRange_def clamp_window_def json_chunk_fields wrap64_def Let_def)


end
