(* ===== verification/Dynamo.thy ===== *)
theory Dynamo
  imports Job_States Systems
begin

section \<open>The table and its requests\<close>

text \<open>
  The ledger talks to one DynamoDB table. The service is not part of the program: it is a
  record of functions on the state \<open>'w\<close> of the world (\<open>'w dynamo\<close>), and what the program relies
  on is the predicate \<open>dynamo_contract\<close>, the documented behaviour of conditional writes,
  transactions and consistent reads. The expressions the code writes as strings are syntax
  trees here (\<open>cond\<close>, \<open>action\<close>); \<open>holds\<close> and \<open>apply_write\<close> are their documented meaning. The
  names of attributes are the constructors of \<open>attr\<close>, the sort keys those of \<open>sort_key\<close>; the
  partition key is the job identifier. \<open>map_db\<close> is a concrete table that meets the contract.
\<close>

subsection \<open>Items\<close>

datatype attr =
    at_jobId | at_fileId | at_chunkId | at_receiptId | at_status | at_statusIndex | at_bucket | at_key | at_versionId
  | at_etag | at_size | at_environment | at_token | at_revision | at_receivedAt | at_createdAt | at_updatedAt
  | at_expiresAt | at_leaseExpiresAt | at_configSnapshot | at_prefixId | at_history | at_lastReason | at_rejection
  | at_expectedChunks | at_completedChunks | at_failedChunks | at_pendingChunks | at_recordsProduced | at_manifestSealed
  | at_sealedAt | at_startByte | at_endByte | at_attempt | at_payload | at_scheduledAt | at_lastError | at_startedAt
  | at_lastAttemptAt | at_completedAt | at_bytesProcessed | at_counts | at_result | at_acquiredAt
  | at_recordsRead | at_recordsPublished | at_recordsRejected | at_recordsIgnored | at_messagesPublished
  | at_sendMessageBatchCalls | at_physicalLinesIgnored | at_countsComplete | at_reasonCounts | at_reasonCount string
  | at_intentVersion | at_intentStatus | at_intentPending | at_deliveredAt | at_terminalAt
  | at_from | at_to | at_at | at_reason | at_named string

text \<open>
  A JSON document in a string attribute is represented by the value it encodes (\<open>J\<close>): what
  \<^verbatim>\<open>json.Marshal\<close> writes, \<^verbatim>\<open>json.Unmarshal\<close> reads back. The audit document of a replay is
  source job, new job, chunk ids and creation time.
\<close>

datatype document =
    JChunk ChunkJob
  | JIntent CompletionIntent
  | JSnapshot ConfigurationSnapshot
  | JRejection Rejection
  | JAudit string string "string list" string

datatype av = S string | J document | N int | BOOL bool | L "av list" | M "(attr \<times> av) list"

type_synonym item = "attr \<rightharpoonup> av"

datatype sort_key = SK_JOB | SK_CHUNK string | SK_INTENT int64 | SK_AUDIT string string | SK_RECEIPT

type_synonym ledger_key = "string \<times> sort_key"
type_synonym table = "ledger_key \<rightharpoonup> item"

definition num_of :: "item \<Rightarrow> attr \<Rightarrow> int" where
  "num_of it a = (case it a of Some (N n) \<Rightarrow> n | _ \<Rightarrow> 0)"

definition str_of :: "item \<Rightarrow> attr \<Rightarrow> string" where
  "str_of it a = (case it a of Some (S s) \<Rightarrow> s | _ \<Rightarrow> [])"

subsection \<open>Conditions\<close>

text \<open>\<^verbatim>\<open>attribute_exists(pk)\<close> asks whether the item exists.\<close>

datatype cond =
    ItemExists
  | ItemAbsent
  | HasAttr attr
  | LacksAttr attr
  | Equals attr av
  | AtMost attr int
  | Conj cond cond
  | Disj cond cond

fun holds :: "item option \<Rightarrow> cond \<Rightarrow> bool" where
  "holds it ItemExists \<longleftrightarrow> it \<noteq> None"
| "holds it ItemAbsent \<longleftrightarrow> it = None"
| "holds it (HasAttr a) \<longleftrightarrow> (case it of None \<Rightarrow> False | Some i \<Rightarrow> i a \<noteq> None)"
| "holds it (LacksAttr a) \<longleftrightarrow> (case it of None \<Rightarrow> True | Some i \<Rightarrow> i a = None)"
| "holds it (Equals a v) \<longleftrightarrow> (case it of None \<Rightarrow> False | Some i \<Rightarrow> i a = Some v)"
| "holds it (AtMost a n) \<longleftrightarrow> (case it of None \<Rightarrow> False | Some i \<Rightarrow> (case i a of Some (N m) \<Rightarrow> m \<le> n | _ \<Rightarrow> False))"
| "holds it (Conj c d) \<longleftrightarrow> holds it c \<and> holds it d"
| "holds it (Disj c d) \<longleftrightarrow> holds it c \<or> holds it d"

definition status_in :: "string list \<Rightarrow> cond" where
  "status_in ss = foldr (\<lambda>s c. Disj (Equals at_status (S s)) c) (butlast ss) (Equals at_status (S (last ss)))"

lemma holds_status_in: "ss \<noteq> [] \<Longrightarrow> holds it (status_in ss) \<longleftrightarrow> (\<exists>i. it = Some i \<and> (\<exists>s\<in>set ss. i at_status = Some (S s)))"
proof -
  assume "ss \<noteq> []"
  have "holds it (foldr (\<lambda>s c. Disj (Equals at_status (S s)) c) xs (Equals at_status (S y)))
      \<longleftrightarrow> (\<exists>i. it = Some i \<and> (\<exists>s\<in>set (xs @ [y]). i at_status = Some (S s)))" for xs y
    by (induction xs) (auto split: option.splits)
  from this [of "butlast ss" "last ss"] \<open>ss \<noteq> []\<close> show ?thesis by (simp add: status_in_def)
qed

subsection \<open>Updates\<close>

text \<open>
  \<open>Set\<close> writes a value, \<open>SetDefault\<close> is \<^verbatim>\<open>a = if_not_exists(a, :v)\<close>, \<open>Increment\<close> is
  \<^verbatim>\<open>a = if_not_exists(a, :zero) + :one\<close>, \<open>Append\<close> is \<^verbatim>\<open>list_append(if_not_exists(a, :empty), :entry)\<close>.
\<close>

datatype action = Set attr av | SetDefault attr av | Increment attr int | Append attr "av list" | Add attr int | Remove attr

definition list_of :: "av option \<Rightarrow> av list" where
  "list_of v = (case v of Some (L vs) \<Rightarrow> vs | _ \<Rightarrow> [])"

fun act :: "item \<Rightarrow> action \<Rightarrow> item" where
  "act it (Set a v) = it(a \<mapsto> v)"
| "act it (SetDefault a v) = (if it a = None then it(a \<mapsto> v) else it)"
| "act it (Increment a n) = it(a \<mapsto> N (num_of it a + n))"
| "act it (Append a vs) = it(a \<mapsto> L (list_of (it a) @ vs))"
| "act it (Add a n) = it(a \<mapsto> N (num_of it a + n))"
| "act it (Remove a) = it(a := None)"

text \<open>Every attribute is the target of at most one action of an expression, so the order does not matter.\<close>

definition acts :: "item option \<Rightarrow> action list \<Rightarrow> item" where
  "acts it us = foldl act (case it of None \<Rightarrow> (\<lambda>_. None) | Some i \<Rightarrow> i) us"

datatype request = Update ledger_key cond "action list" | Put ledger_key item cond

fun write_key :: "request \<Rightarrow> ledger_key" where
  "write_key (Update k c us) = k"
| "write_key (Put k i c) = k"

fun write_ok :: "table \<Rightarrow> request \<Rightarrow> bool" where
  "write_ok t (Update k c us) = holds (t k) c"
| "write_ok t (Put k i c) = holds (t k) c"

fun apply_write :: "table \<Rightarrow> request \<Rightarrow> table" where
  "apply_write t (Update k c us) = t(k \<mapsto> acts (t k) us)"
| "apply_write t (Put k i c) = t(k \<mapsto> i)"

text \<open>A transaction: all conditions on the state before, then all writes (to distinct keys).\<close>

definition transact_ok :: "table \<Rightarrow> request list \<Rightarrow> bool" where
  "transact_ok t ws = list_all (write_ok t) ws"

definition apply_writes :: "table \<Rightarrow> request list \<Rightarrow> table" where
  "apply_writes t ws = foldl apply_write t ws"

subsection \<open>The service\<close>

text \<open>A query of one partition: possibly only its chunk items, possibly only items lacking an attribute.\<close>

record query =
  q_pk :: string
  q_chunks_only :: bool
  q_lacks :: "attr option"

fun is_chunk_key :: "sort_key \<Rightarrow> bool" where
  "is_chunk_key (SK_CHUNK c) = True"
| "is_chunk_key _ = False"

definition matches :: "query \<Rightarrow> sort_key \<times> item \<Rightarrow> bool" where
  "matches q si \<longleftrightarrow> (q_chunks_only q \<longrightarrow> is_chunk_key (fst si)) \<and>
     (case q_lacks q of None \<Rightarrow> True | Some a \<Rightarrow> snd si a = None)"

definition in_table :: "table \<Rightarrow> query \<Rightarrow> sort_key \<times> item \<Rightarrow> bool" where
  "in_table t q si \<longleftrightarrow> t (q_pk q, fst si) = Some (snd si) \<and> matches q si"

datatype db_error = ConditionalCheckFailed | TransactionCanceled "string list" | ServiceError string

record 'w dynamo =
  db_Get :: "ledger_key \<Rightarrow> 'w \<Rightarrow> 'w \<times> (string + item option)"
  db_Write :: "request \<Rightarrow> 'w \<Rightarrow> 'w \<times> db_error option"
  db_Transact :: "string \<Rightarrow> request list \<Rightarrow> 'w \<Rightarrow> 'w \<times> db_error option"
  db_Query :: "query \<Rightarrow> sort_key option \<Rightarrow> 'w \<Rightarrow> 'w \<times> (string + (sort_key \<times> item) list \<times> sort_key option)"
  db_Wait :: "int \<Rightarrow> 'w \<Rightarrow> 'w \<times> string option"
  db_now :: "'w \<Rightarrow> int"
  db_random :: "'w \<Rightarrow> string"

text \<open>
  The contract, relative to what other clients may do meanwhile (\<open>others\<close>, a step relation on
  tables): a request takes effect at one instant between the steps of the others. A write that
  reports success was applied with its condition true; one that reports a failed condition
  found it false and changed nothing; with any other error it was applied completely or not at
  all. A transaction whose token was already used may report success without effect: then the
  writes were applied at an earlier time. Waiting lets the others step.
\<close>

definition effect :: "(table \<Rightarrow> table \<Rightarrow> bool) \<Rightarrow> table \<Rightarrow> table \<Rightarrow> (table \<Rightarrow> table \<Rightarrow> bool) \<Rightarrow> bool" where
  "effect others t t' own \<longleftrightarrow> (\<exists>t1 t2. others\<^sup>*\<^sup>* t t1 \<and> own t1 t2 \<and> others\<^sup>*\<^sup>* t2 t')"

definition own_transact :: "(table \<Rightarrow> table \<Rightarrow> bool) \<Rightarrow> string \<Rightarrow> request list \<Rightarrow> db_error option \<Rightarrow> table \<Rightarrow> table \<Rightarrow> bool" where
  "own_transact others token ws r t t' \<longleftrightarrow>
    (case r of
       None \<Rightarrow> transact_ok t ws \<and> t' = apply_writes t ws \<or>
         token \<noteq> [] \<and> t' = t \<and> (\<exists>t0. transact_ok t0 ws \<and> others\<^sup>*\<^sup>* (apply_writes t0 ws) t)
     | Some (TransactionCanceled cs) \<Rightarrow> t' = t
     | Some _ \<Rightarrow> t' = t \<or> transact_ok t ws \<and> t' = apply_writes t ws)"

definition own_write :: "request \<Rightarrow> db_error option \<Rightarrow> table \<Rightarrow> table \<Rightarrow> bool" where
  "own_write wr r t t' \<longleftrightarrow>
    (case r of
       None \<Rightarrow> write_ok t wr \<and> t' = apply_write t wr
     | Some ConditionalCheckFailed \<Rightarrow> \<not> write_ok t wr \<and> t' = t
     | Some _ \<Rightarrow> t' = t \<or> write_ok t wr \<and> t' = apply_write t wr)"

definition own_get :: "ledger_key \<Rightarrow> string + item option \<Rightarrow> table \<Rightarrow> table \<Rightarrow> bool" where
  "own_get k r t t' \<longleftrightarrow> t' = t \<and> (\<forall>i. r = Inr i \<longrightarrow> i = t k)"

definition own_query :: "query \<Rightarrow> sort_key option \<Rightarrow> string + (sort_key \<times> item) list \<times> sort_key option
    \<Rightarrow> table \<Rightarrow> table \<Rightarrow> bool" where
  "own_query q st r t t' \<longleftrightarrow> t' = t \<and>
    (\<forall>its nxt. r = Inr (its, nxt) \<longrightarrow> list_all (in_table t q) its \<and>
       (st = None \<longrightarrow> nxt = None \<longrightarrow> (\<forall>si. in_table t q si \<longrightarrow> si \<in> set its)))"

definition dynamo_contract :: "(table \<Rightarrow> table \<Rightarrow> bool) \<Rightarrow> ('w \<Rightarrow> table) \<Rightarrow> 'w dynamo \<Rightarrow> bool" where
  "dynamo_contract others tab db \<longleftrightarrow>
    (\<forall>k w w' r. db_Get db k w = (w', r) \<longrightarrow>
        effect others (tab w) (tab w') (own_get k r)) \<and>
    (\<forall>wr w w' r. db_Write db wr w = (w', r) \<longrightarrow> effect others (tab w) (tab w') (own_write wr r)) \<and>
    (\<forall>tok ws w w' r. db_Transact db tok ws w = (w', r) \<longrightarrow> effect others (tab w) (tab w') (own_transact others tok ws r)) \<and>
    (\<forall>q st w w' r. db_Query db q st w = (w', r) \<longrightarrow> effect others (tab w) (tab w') (own_query q st r)) \<and>
    (\<forall>d w w' r. db_Wait db d w = (w', r) \<longrightarrow> others\<^sup>*\<^sup>* (tab w) (tab w'))"

lemma contract_Get:
  assumes "dynamo_contract others tab db" "db_Get db k w = (w', r)"
  shows "effect others (tab w) (tab w') (own_get k r)"
  by (rule assms(1) [unfolded dynamo_contract_def, THEN conjunct1, rule_format, OF assms(2)])

lemma contract_Write:
  assumes "dynamo_contract others tab db" "db_Write db wr w = (w', r)"
  shows "effect others (tab w) (tab w') (own_write wr r)"
  by (rule assms(1) [unfolded dynamo_contract_def, THEN conjunct2, THEN conjunct1, rule_format, OF assms(2)])

lemma contract_Transact:
  assumes "dynamo_contract others tab db" "db_Transact db tok ws w = (w', r)"
  shows "effect others (tab w) (tab w') (own_transact others tok ws r)"
  by (rule assms(1) [unfolded dynamo_contract_def, THEN conjunct2, THEN conjunct2, THEN conjunct1, rule_format, OF assms(2)])

lemma contract_Query:
  assumes "dynamo_contract others tab db" "db_Query db q st w = (w', r)"
  shows "effect others (tab w) (tab w') (own_query q st r)"
  by (rule assms(1) [unfolded dynamo_contract_def, THEN conjunct2, THEN conjunct2, THEN conjunct2, THEN conjunct1, rule_format, OF assms(2)])

lemma contract_Wait:
  assumes "dynamo_contract others tab db" "db_Wait db d w = (w', r)"
  shows "others\<^sup>*\<^sup>* (tab w) (tab w')"
  by (rule assms(1) [unfolded dynamo_contract_def, THEN conjunct2, THEN conjunct2, THEN conjunct2, THEN conjunct2, rule_format, OF assms(2)])

text \<open>
  A client whose own writes are steps of the relation stays inside the relation. Only tables
  reachable from the present one matter, so a client may rely on what it read and nobody
  takes back.
\<close>

lemma effect_steps:
  assumes "effect others t t' own" "\<And>t1 t2. others\<^sup>*\<^sup>* t t1 \<Longrightarrow> own t1 t2 \<Longrightarrow> others\<^sup>*\<^sup>* t1 t2"
  shows "others\<^sup>*\<^sup>* t t'"
proof -
  obtain t1 t2 where "others\<^sup>*\<^sup>* t t1" "own t1 t2" "others\<^sup>*\<^sup>* t2 t'"
    using assms(1) unfolding effect_def by blast
  with assms(2) show ?thesis by (meson rtranclp_trans)
qed

lemma get_steps: "dynamo_contract others tab db \<Longrightarrow> db_Get db k w = (w', r) \<Longrightarrow> others\<^sup>*\<^sup>* (tab w) (tab w')"
  by (rule effect_steps [OF contract_Get]) (auto simp: own_get_def)

lemma query_steps: "dynamo_contract others tab db \<Longrightarrow> db_Query db q st w = (w', r) \<Longrightarrow> others\<^sup>*\<^sup>* (tab w) (tab w')"
  by (rule effect_steps [OF contract_Query]) (auto simp: own_query_def)

lemma write_steps:
  assumes "dynamo_contract others tab db" "db_Write db wr w = (w', r)"
    and "\<And>t. others\<^sup>*\<^sup>* (tab w) t \<Longrightarrow> write_ok t wr \<Longrightarrow> others t (apply_write t wr)"
  shows "others\<^sup>*\<^sup>* (tab w) (tab w')"
  by (rule effect_steps [OF contract_Write [OF assms(1,2)]])
    (use assms(3) in \<open>auto simp: own_write_def split: option.splits db_error.splits\<close>)

lemma transact_steps:
  assumes "dynamo_contract others tab db" "db_Transact db tok ws w = (w', r)"
    and "\<And>t. others\<^sup>*\<^sup>* (tab w) t \<Longrightarrow> transact_ok t ws \<Longrightarrow> others t (apply_writes t ws)"
  shows "others\<^sup>*\<^sup>* (tab w) (tab w')"
  by (rule effect_steps [OF contract_Transact [OF assms(1,2)]])
    (use assms(3) in \<open>auto simp: own_transact_def split: option.splits db_error.splits\<close>)

text \<open>What a successful request tells about the table afterwards, as far as nobody takes it back.\<close>

lemma get_value:
  assumes "dynamo_contract others tab db" "db_Get db k w = (w', Inr i)"
  obtains t where "others\<^sup>*\<^sup>* (tab w) t" "t k = i" "others\<^sup>*\<^sup>* t (tab w')"
  using contract_Get [OF assms] unfolding effect_def own_get_def by auto

lemma write_applied:
  assumes "dynamo_contract others tab db" "db_Write db wr w = (w', None)"
  obtains t where "others\<^sup>*\<^sup>* (tab w) t" "write_ok t wr" "others\<^sup>*\<^sup>* (apply_write t wr) (tab w')"
  using contract_Write [OF assms] unfolding effect_def own_write_def by auto

lemma transact_applied:
  assumes "dynamo_contract others tab db" "db_Transact db tok ws w = (w', None)"
  obtains t where "transact_ok t ws" "others\<^sup>*\<^sup>* (apply_writes t ws) (tab w')"
  using contract_Transact [OF assms] unfolding effect_def own_transact_def
  by auto (meson rtranclp_trans)

subsection \<open>A concrete table\<close>

text \<open>The world is an association list of the items written so far; reads of it are the table.\<close>

type_synonym store = "(ledger_key \<times> item) list"

definition partition_items :: "string \<Rightarrow> store \<Rightarrow> (sort_key \<times> item) list" where
  "partition_items pk w = map (\<lambda>k. (snd k, the (map_of w k))) (remdups (filter (\<lambda>k. fst k = pk) (map fst w)))"

lemma set_partition_items: "(sk, i) \<in> set (partition_items pk w) \<longleftrightarrow> map_of w (pk, sk) = Some i"
  using map_of_eq_None_iff [of w "(pk, sk)"] unfolding partition_items_def
  by (cases "map_of w (pk, sk)") force+

definition map_db :: "store dynamo" where
  "map_db = \<lparr>
     db_Get = (\<lambda>k w. (w, Inr (map_of w k))),
     db_Write = (\<lambda>wr w. if write_ok (map_of w) wr
        then ((write_key wr, the (apply_write (map_of w) wr (write_key wr))) # w, None)
        else (w, Some ConditionalCheckFailed)),
     db_Transact = (\<lambda>tok ws w. if transact_ok (map_of w) ws
        then (foldl (\<lambda>v wr. (write_key wr, the (apply_write (map_of v) wr (write_key wr))) # v) w ws, None)
        else (w, Some (TransactionCanceled [''ConditionalCheckFailed'']))),
     db_Query = (\<lambda>q st w. (w, Inr (filter (matches q) (partition_items (q_pk q) w), None))),
     db_Wait = (\<lambda>_ w. (w, None)), db_now = (\<lambda>_. 0), db_random = (\<lambda>_. ''token'')\<rparr>"

lemma map_of_write: "map_of ((write_key wr, the (apply_write (map_of w) wr (write_key wr))) # w) = apply_write (map_of w) wr"
  by (cases wr) auto

lemma map_of_writes:
  "map_of (foldl (\<lambda>v wr. (write_key wr, the (apply_write (map_of v) wr (write_key wr))) # v) w ws) = apply_writes (map_of w) ws"
  unfolding apply_writes_def
proof (induction ws arbitrary: w)
  case (Cons wr ws)
  show ?case
    unfolding foldl_Cons Cons.IH [of "(write_key wr, the (apply_write (map_of w) wr (write_key wr))) # w"] map_of_write ..
qed simp

lemma effect_own: "own t t' \<Longrightarrow> effect others t t' own"
  unfolding effect_def by blast

lemma map_db_contract: "dynamo_contract others map_of map_db"
  unfolding dynamo_contract_def
proof (intro conjI allI impI)
  fix k w w' r assume "db_Get map_db k w = (w', r)"
  then show "effect others (map_of w) (map_of w') (own_get k r)"
    by (intro effect_own) (auto simp: map_db_def own_get_def)
next
  fix wr w w' r assume "db_Write map_db wr w = (w', r)"
  then show "effect others (map_of w) (map_of w') (own_write wr r)"
    by (intro effect_own)
      (auto simp: map_db_def own_write_def map_of_write simp del: map_of.simps split: if_splits)
next
  fix tok ws w w' r assume "db_Transact map_db tok ws w = (w', r)"
  then show "effect others (map_of w) (map_of w') (own_transact others tok ws r)"
    by (intro effect_own) (auto simp: map_db_def own_transact_def map_of_writes split: if_splits)
next
  fix q st w w' r assume "db_Query map_db q st w = (w', r)"
  then show "effect others (map_of w) (map_of w') (own_query q st r)"
    by (intro effect_own)
      (auto simp: map_db_def own_query_def in_table_def list_all_iff set_partition_items)
next
  fix d w w' r assume "db_Wait map_db d w = (w', r)"
  then show "others\<^sup>*\<^sup>* (map_of w) (map_of w')"
    by (simp add: map_db_def)
qed

end
