(* ===== verification/Ledger.thy ===== *)
theory Ledger
  imports Dynamo "HOL-Library.Char_ord" "HOL-Library.List_Lexorder"
begin

section \<open>The job ledger\<close>

text \<open>
  \<^verbatim>\<open>internal/platform/aws/ledger.go\<close>: every method of \<^verbatim>\<open>port.JobLedger\<close> and
  \<^verbatim>\<open>port.CompletionLedger\<close>. A method is a function of the world; the requests it sends are
  definitions of their own (\<open>..._write\<close>, \<open>..._writes\<close>), one per \<^verbatim>\<open>UpdateItem\<close>, \<^verbatim>\<open>PutItem\<close> or
  \<^verbatim>\<open>TransactWriteItems\<close> of the code, so that theory \<open>Ledger_Invariants\<close> can reason about them
  whoever sends them. Instants are integers of nanoseconds; their RFC 3339 rendering in the
  local timezone and its parser are fields of \<open>AWS\<close>.
\<close>

record AWS =
  aws_LedgerTable :: string
  aws_MaxReceiveCount :: int
  aws_LedgerRetentionDays :: int
  aws_format :: "int \<Rightarrow> string"
  aws_parse :: "string \<Rightarrow> int option"

datatype ledger_fault =
    NotConfigured
  | InvalidReplay
  | ReplayIncomplete
  | MissingAdmissionIds
  | DbFailed db_error
  | ReadFailed string
  | DecodeFailed
  | NoPayload string
  | ErrChunkAlreadyCompleted
  | JobNotFound string
  | MalformedIntent string
  | FinalizeFailed db_error
  | DeliveryMarkFailed db_error
  | Interrupted string
  | PagesExhausted

subsection \<open>Small helpers\<close>

definition conditionalConflict :: "db_error option \<Rightarrow> bool" where
  "conditionalConflict err \<longleftrightarrow> err = Some ConditionalCheckFailed"

definition transactionConflict :: "db_error option \<Rightarrow> bool" where
  "transactionConflict err =
    (case err of Some (TransactionCanceled reasons) \<Rightarrow> ''TransactionConflict'' \<in> set reasons | _ \<Rightarrow> False)"

definition transitionEntry :: "JobStatus \<Rightarrow> JobStatus \<Rightarrow> string \<Rightarrow> string \<Rightarrow> av" where
  "transitionEntry frm to at_time reason =
     M ([(at_from, S frm), (at_to, S to), (at_at, S at_time)] @ (if reason \<noteq> [] then [(at_reason, S reason)] else []))"

definition countsMap :: "Counts \<Rightarrow> av" where
  "countsMap c = M
    [(at_recordsRead, N (co_RecordsRead c)),
     (at_recordsPublished, N (co_RecordsPublished c)),
     (at_recordsRejected, N (co_RecordsRejected c)),
     (at_recordsIgnored, N (co_RecordsIgnored c)),
     (at_messagesPublished, N (co_MessagesPublished c)),
     (at_sendMessageBatchCalls, N (co_SendMessageBatchCalls c)),
     (at_physicalLinesIgnored, N (co_PhysicalLinesIgnored c)),
     (at_countsComplete, BOOL (co_CountsComplete c)),
     (at_reasonCounts, M (map (\<lambda>(r, n). (at_named r, N n)) (co_Reasons c)))]"

definition stringAttr :: "item \<Rightarrow> attr \<Rightarrow> string" where
  "stringAttr it a = str_of it a"

definition attributeNumber :: "item \<Rightarrow> attr \<Rightarrow> int64" where
  "attributeNumber it a = num_of it a"

definition retentionDays :: "AWS \<Rightarrow> int" where
  "retentionDays a = (if aws_LedgerRetentionDays a < 1 then 90 else aws_LedgerRetentionDays a)"

text \<open>\<^verbatim>\<open>time.Duration(days) * 24 * time.Hour\<close> is 64-bit nanoseconds; \<^verbatim>\<open>Unix()\<close> rounds down to seconds.\<close>

definition unixAfterRetention :: "AWS \<Rightarrow> int \<Rightarrow> int" where
  "unixAfterRetention a t = (t + wrap64 (wrap64 (retentionDays a * 24) * 3600000000000)) div 1000000000"

definition admissionLeaseExpiry :: "int \<Rightarrow> int" where
  "admissionLeaseExpiry t = (t + 15 * 60 * 1000000000) div 1000000000"

definition completeChunkToken :: "string \<Rightarrow> string \<Rightarrow> int \<Rightarrow> nat \<Rightarrow> string" where
  "completeChunkToken jobID chunkID attempt conflictRetry =
     take 36 (sha256_hex (jobID @ [CHR 0x00] @ chunkID @ [CHR 0x00] @ format_int attempt @ [CHR 0x00] @ format_int (int conflictRetry)))"

text \<open>The delay of \<^verbatim>\<open>waitForLedgerRetry\<close> in milliseconds.\<close>

definition retryDelay :: "nat \<Rightarrow> int" where
  "retryDelay attempt = min 1000 (25 * 2 ^ attempt)"

subsection \<open>Reads\<close>

definition chunkStatus :: "'w dynamo \<Rightarrow> string \<Rightarrow> string \<Rightarrow> 'w \<Rightarrow> 'w \<times> (string + string)" where
  "chunkStatus db jobID chunkID w =
    (case db_Get db (jobID, SK_CHUNK chunkID) w of
       (w, Inl e) \<Rightarrow> (w, Inl e)
     | (w, Inr None) \<Rightarrow> (w, Inr [])
     | (w, Inr (Some it)) \<Rightarrow> (w, Inr (stringAttr it at_status)))"

definition jobStatus :: "'w dynamo \<Rightarrow> string \<Rightarrow> 'w \<Rightarrow> 'w \<times> (string + string)" where
  "jobStatus db jobID w =
    (case db_Get db (jobID, SK_JOB) w of
       (w, Inl e) \<Rightarrow> (w, Inl e)
     | (w, Inr None) \<Rightarrow> (w, Inr [])
     | (w, Inr (Some it)) \<Rightarrow> (w, Inr (stringAttr it at_status)))"

text \<open>
  A query is read page by page; \<open>f\<close> is the body of the loop over the items of one page. The
  code's loop ends when the service gives no continuation key; here it takes fuel, and
  \<open>PagesExhausted\<close> is the run that would go on.
\<close>

fun query_pages ::
  "nat \<Rightarrow> 'w dynamo \<Rightarrow> query \<Rightarrow> sort_key option \<Rightarrow> ((sort_key \<times> item) list \<Rightarrow> ledger_fault + 'a list)
    \<Rightarrow> 'a list \<Rightarrow> 'w \<Rightarrow> 'w \<times> (ledger_fault + 'a list)" where
  "query_pages 0 db q st f acc w = (w, Inl PagesExhausted)"
| "query_pages (Suc n) db q st f acc w =
    (case db_Query db q st w of
       (w, Inl e) \<Rightarrow> (w, Inl (ReadFailed e))
     | (w, Inr (its, nxt)) \<Rightarrow>
        (case f its of
           Inl e \<Rightarrow> (w, Inl e)
         | Inr xs \<Rightarrow> if nxt = None then (w, Inr (acc @ xs)) else query_pages n db q nxt f (acc @ xs) w))"

text \<open>
  Decoding a document as a \<^verbatim>\<open>ChunkJob\<close>: the decoder takes the fields it knows and ignores the
  rest, so a completion intent decodes to a job with only its \<^verbatim>\<open>jobId\<close> and an audit record to
  the zero job; neither is an error.
\<close>

fun chunk_of :: "document \<Rightarrow> ChunkJob" where
  "chunk_of (JChunk c) = c"
| "chunk_of (JIntent i) = zero_ChunkJob\<lparr>cj_JobID := ci_JobID i\<rparr>"
| "chunk_of (JSnapshot s) = zero_ChunkJob"
| "chunk_of (JRejection r) = zero_ChunkJob"
| "chunk_of (JAudit s n cs t) = zero_ChunkJob"

fun chunk_payload :: "av option \<Rightarrow> (ledger_fault + ChunkJob) option" where
  "chunk_payload (Some (J d)) = Some (Inr (chunk_of d))"
| "chunk_payload (Some (S s)) = Some (Inl DecodeFailed)"
| "chunk_payload _ = None"

subsection \<open>Planning\<close>

definition plan_head_write :: "AWS \<Rightarrow> JobPlan \<Rightarrow> request" where
  "plan_head_write a plan =
     Update (jp_JobID plan, SK_JOB)
       (Disj ItemAbsent
          (Conj (Equals at_fileId (S (jp_FileID plan)))
             (Disj (LacksAttr at_expectedChunks) (Equals at_expectedChunks (N (jp_ExpectedChunks plan))))))
       [Set at_jobId (S (jp_JobID plan)), Set at_fileId (S (jp_FileID plan)), Set at_bucket (S (jp_Bucket plan)),
        Set at_key (S (jp_Key plan)), Set at_versionId (S (jp_VersionID plan)), Set at_etag (S (jp_ETag plan)),
        Set at_size (N (jp_FileSize plan)), SetDefault at_status (S JobPending),
        Set at_expectedChunks (N (jp_ExpectedChunks plan)), SetDefault at_completedChunks (N 0),
        SetDefault at_failedChunks (N 0), SetDefault at_recordsProduced (N 0),
        SetDefault at_createdAt (S (aws_format a (jp_CreatedAt plan))),
        SetDefault at_expiresAt (N (unixAfterRetention a (jp_CreatedAt plan))),
        SetDefault at_configSnapshot (J (JSnapshot (jp_ConfigSnapshot plan))),
        SetDefault at_manifestSealed (BOOL False)]"

text \<open>Credentials are never written to the ledger.\<close>

definition persistedChunk :: "ChunkJob \<Rightarrow> ChunkJob" where
  "persistedChunk c = c\<lparr>cj_PresignedURL := []\<rparr>"

definition plan_chunk_write :: "AWS \<Rightarrow> JobPlan \<Rightarrow> ChunkJob \<Rightarrow> request" where
  "plan_chunk_write a plan chunk =
     Update (jp_JobID plan, SK_CHUNK (cj_ChunkID chunk))
       (Disj ItemAbsent
          (Conj (Equals at_startByte (N (cj_StartByte chunk))) (Equals at_endByte (N (cj_EndByteInclusive chunk)))))
       [Set at_jobId (S (jp_JobID plan)), Set at_chunkId (S (cj_ChunkID chunk)),
        SetDefault at_status (S JobPending), Set at_startByte (N (cj_StartByte chunk)),
        Set at_endByte (N (cj_EndByteInclusive chunk)), SetDefault at_attempt (N 0),
        SetDefault at_expiresAt (N (unixAfterRetention a (jp_CreatedAt plan))),
        SetDefault at_payload (J (JChunk (persistedChunk chunk)))]"

definition plan_seal_write :: "AWS \<Rightarrow> JobPlan \<Rightarrow> int \<Rightarrow> request" where
  "plan_seal_write a plan now =
     Update (jp_JobID plan, SK_JOB)
       (Conj (Equals at_fileId (S (jp_FileID plan)))
          (Conj (Equals at_expectedChunks (N (jp_ExpectedChunks plan)))
             (Disj (LacksAttr at_manifestSealed) (Equals at_manifestSealed (BOOL False)))))
       [Set at_manifestSealed (BOOL True), Set at_sealedAt (S (aws_format a now)), Set at_status (S JobPending),
        Set at_pendingChunks (N (jp_ExpectedChunks plan)), Set at_updatedAt (S (aws_format a now))]"

fun plan_chunks :: "AWS \<Rightarrow> 'w dynamo \<Rightarrow> JobPlan \<Rightarrow> ChunkJob list \<Rightarrow> 'w \<Rightarrow> 'w \<times> ledger_fault option" where
  "plan_chunks a db plan [] w = (w, None)"
| "plan_chunks a db plan (c # cs) w =
    (case db_Write db (plan_chunk_write a plan c) w of
       (w, Some e) \<Rightarrow> (w, Some (DbFailed e))
     | (w, None) \<Rightarrow> plan_chunks a db plan cs w)"

definition PlanJob :: "AWS \<Rightarrow> 'w dynamo \<Rightarrow> JobPlan \<Rightarrow> ChunkJob list \<Rightarrow> 'w \<Rightarrow> 'w \<times> ledger_fault option" where
  "PlanJob a db plan chunks w =
    (if aws_LedgerTable a = [] then (w, Some NotConfigured)
     else case db_Write db (plan_head_write a plan) w of
       (w, Some e) \<Rightarrow> (w, Some (DbFailed e))
     | (w, None) \<Rightarrow>
        (case plan_chunks a db plan chunks w of
           (w, Some e) \<Rightarrow> (w, Some e)
         | (w, None) \<Rightarrow>
            (case db_Write db (plan_seal_write a plan (db_now db w)) w of
               (w, err) \<Rightarrow>
                 (case err of
                    None \<Rightarrow> (w, None)
                  | Some e \<Rightarrow> if conditionalConflict err then (w, None) else (w, Some (DbFailed e))))))"

subsection \<open>Scheduling\<close>

definition scheduled_write :: "AWS \<Rightarrow> ChunkJob \<Rightarrow> int \<Rightarrow> request" where
  "scheduled_write a c now =
     Update (cj_JobID c, SK_CHUNK (cj_ChunkID c)) (Equals at_status (S ChunkStatePending))
       [SetDefault at_scheduledAt (S (aws_format a now))]"

fun MarkChunksScheduled :: "AWS \<Rightarrow> 'w dynamo \<Rightarrow> ChunkJob list \<Rightarrow> 'w \<Rightarrow> 'w \<times> ledger_fault option" where
  "MarkChunksScheduled a db [] w = (w, None)"
| "MarkChunksScheduled a db (c # cs) w =
    (if cj_Control c \<noteq> [] then MarkChunksScheduled a db cs w
     else case db_Write db (scheduled_write a c (db_now db w)) w of
       (w, err) \<Rightarrow>
         (case err of
            None \<Rightarrow> MarkChunksScheduled a db cs w
          | Some e \<Rightarrow> if conditionalConflict err then MarkChunksScheduled a db cs w
                      else (w, Some (DbFailed e))))"

text \<open>Every item of a page must have a decodable payload.\<close>

fun resumable :: "string \<Rightarrow> (sort_key \<times> item) list \<Rightarrow> ledger_fault + ChunkJob list" where
  "resumable jobID [] = Inr []"
| "resumable jobID ((sk, it) # its) =
    (case chunk_payload (it at_payload) of
       None \<Rightarrow> Inl (NoPayload jobID)
     | Some (Inl e) \<Rightarrow> Inl e
     | Some (Inr c) \<Rightarrow> (case resumable jobID its of Inl e \<Rightarrow> Inl e | Inr cs \<Rightarrow> Inr (c # cs)))"

definition UnscheduledChunks ::
  "nat \<Rightarrow> 'w dynamo \<Rightarrow> string \<Rightarrow> 'w \<Rightarrow> 'w \<times> (ledger_fault + ChunkJob list)" where
  "UnscheduledChunks pages db jobID w =
    (case query_pages pages db \<lparr>q_pk = jobID, q_chunks_only = True, q_lacks = Some at_scheduledAt\<rparr> None
        (resumable jobID) [] w of
       (w, Inl e) \<Rightarrow> (w, Inl e)
     | (w, Inr cs) \<Rightarrow> (w, Inr (sort_key cj_ChunkID cs)))"

definition mark_job_write :: "AWS \<Rightarrow> string \<Rightarrow> JobStatus \<Rightarrow> string \<Rightarrow> int \<Rightarrow> request" where
  "mark_job_write a jobID status message now =
     Update (jobID, SK_JOB)
       (Conj ItemExists (Conj (Equals at_manifestSealed (BOOL True))
          (Disj (Equals at_status (S JobPending)) (Disj (Equals at_status (S JobStatePlanning))
             (Equals at_status (S (if status = JobSchedulingFailed then JobSchedulingFailed else JobScheduled)))))))
       ([Set at_status (S status), Set at_updatedAt (S (aws_format a now))] @
        (if message \<noteq> [] then [Set at_lastError (S message)] else []))"

fun markJobs :: "AWS \<Rightarrow> 'w dynamo \<Rightarrow> string list \<Rightarrow> JobStatus \<Rightarrow> string \<Rightarrow> 'w \<Rightarrow> 'w \<times> ledger_fault option" where
  "markJobs a db [] status message w = (w, None)"
| "markJobs a db (j # js) status message w =
    (case db_Write db (mark_job_write a j status message (db_now db w)) w of
       (w, Some e) \<Rightarrow> (w, Some (DbFailed e))
     | (w, None) \<Rightarrow> markJobs a db js status message w)"

definition MarkScheduled :: "AWS \<Rightarrow> 'w dynamo \<Rightarrow> string list \<Rightarrow> 'w \<Rightarrow> 'w \<times> ledger_fault option" where
  "MarkScheduled a db jobIDs w = markJobs a db jobIDs JobScheduled [] w"

definition MarkSchedulingFailed ::
  "AWS \<Rightarrow> 'w dynamo \<Rightarrow> string list \<Rightarrow> string \<Rightarrow> 'w \<Rightarrow> 'w \<times> ledger_fault option" where
  "MarkSchedulingFailed a db jobIDs message w = markJobs a db jobIDs JobSchedulingFailed message w"

subsection \<open>Execution of a chunk\<close>

abbreviation bump_revision :: action where "bump_revision \<equiv> Increment at_revision 1"

definition start_chunk_write :: "AWS \<Rightarrow> string \<Rightarrow> string \<Rightarrow> int \<Rightarrow> int \<Rightarrow> request" where
  "start_chunk_write a jobID chunkID attempt now =
     Update (jobID, SK_CHUNK chunkID)
       (Conj ItemExists (Disj (Equals at_status (S ChunkStatePending)) (Equals at_status (S ChunkStateRetryPending))))
       [Set at_status (S ChunkStateRunning), Set at_attempt (N attempt),
        SetDefault at_startedAt (S (aws_format a now)), bump_revision]"

definition StartChunk ::
  "AWS \<Rightarrow> 'w dynamo \<Rightarrow> string \<Rightarrow> string \<Rightarrow> int \<Rightarrow> 'w \<Rightarrow> 'w \<times> ledger_fault option" where
  "StartChunk a db jobID chunkID attempt w =
    (case db_Write db (start_chunk_write a jobID chunkID attempt (db_now db w)) w of
       (w, None) \<Rightarrow> (w, None)
     | (w, Some e) \<Rightarrow>
        (case chunkStatus db jobID chunkID w of
           (w, Inl _) \<Rightarrow> (w, Some (DbFailed e))
         | (w, Inr status) \<Rightarrow>
             if status = ChunkStateCompleted then (w, Some ErrChunkAlreadyCompleted)
             else (w, Some (DbFailed e))))"

text \<open>A result that carries only the number of records produced gets counters derived from it.\<close>

definition completion_counts :: "ChunkResult \<Rightarrow> Counts" where
  "completion_counts r =
    (let c = cr_Counts r in
     if co_RecordsRead c = 0 \<and> co_RecordsPublished c = 0 \<and> co_RecordsRejected c = 0 \<and> co_RecordsIgnored c = 0
        \<and> cr_RecordsProduced r > 0
     then zero_Counts\<lparr>co_RecordsRead := cr_RecordsProduced r, co_RecordsPublished := cr_RecordsProduced r,
            co_MessagesPublished := cr_RecordsProduced r, co_CountsComplete := True\<rparr>
     else c)"

definition reason_actions :: "Counts \<Rightarrow> action list" where
  "reason_actions c = map (\<lambda>(r, n). Add (at_reasonCount r) n) (filter (\<lambda>(r, n). n \<noteq> 0) (co_Reasons c))"

definition job_running_cond :: cond where
  "job_running_cond = Disj (Equals at_status (S JobPending))
     (Disj (Equals at_status (S JobScheduled)) (Equals at_status (S JobRunning)))"

definition owned_chunk_cond :: "int \<Rightarrow> cond" where
  "owned_chunk_cond attempt = Conj (Equals at_status (S ChunkStateRunning)) (Equals at_attempt (N attempt))"

definition complete_chunk_writes :: "AWS \<Rightarrow> ChunkResult \<Rightarrow> request list" where
  "complete_chunk_writes a r =
    (let c = completion_counts r in
     [Update (cr_JobID r, SK_CHUNK (cr_ChunkID r)) (owned_chunk_cond (cr_Attempt r))
        [Set at_status (S ChunkStateCompleted), Set at_recordsProduced (N (co_RecordsPublished c)),
         Set at_bytesProcessed (N (cr_BytesProcessed r)), Set at_counts (countsMap c),
         Set at_completedAt (S (aws_format a (cr_OccurredAt r))), bump_revision],
      Update (cr_JobID r, SK_JOB) job_running_cond
        ([Set at_status (S JobRunning), Add at_completedChunks 1, Add at_recordsProduced (co_RecordsPublished c),
          Add at_recordsRead (co_RecordsRead c), Add at_recordsPublished (co_RecordsPublished c),
          Add at_recordsRejected (co_RecordsRejected c), Add at_recordsIgnored (co_RecordsIgnored c),
          Add at_messagesPublished (co_MessagesPublished c), Add at_sendMessageBatchCalls (co_SendMessageBatchCalls c),
          Add at_physicalLinesIgnored (co_PhysicalLinesIgnored c)] @ reason_actions c)])"

text \<open>
  At most eight attempts: after an explicit \<^verbatim>\<open>TransactionConflict\<close> the code waits and tries
  again with a fresh token. The result is the error of the last attempt, or of the wait.
\<close>

fun complete_loop ::
  "nat \<Rightarrow> 'w dynamo \<Rightarrow> (nat \<Rightarrow> string) \<Rightarrow> request list \<Rightarrow> nat \<Rightarrow> db_error option \<Rightarrow> 'w \<Rightarrow> 'w \<times> (string + db_error option)" where
  "complete_loop 0 db token ws retry err w = (w, Inr err)"
| "complete_loop (Suc n) db token ws retry err w =
    (case db_Transact db (token retry) ws w of
       (w, err) \<Rightarrow>
         if err = None \<or> \<not> transactionConflict err then (w, Inr err)
         else (case db_Wait db (retryDelay retry) w of
                 (w, Some e) \<Rightarrow> (w, Inl e)
               | (w, None) \<Rightarrow> complete_loop n db token ws (Suc retry) err w))"

subsection \<open>Completion of a job\<close>

fun snapshot_of :: "av option \<Rightarrow> ConfigurationSnapshot" where
  "snapshot_of (Some (J (JSnapshot s))) = s"
| "snapshot_of _ = zero_ConfigurationSnapshot"

definition completionEventFromItem ::
  "AWS \<Rightarrow> item \<Rightarrow> string \<Rightarrow> JobStatus \<Rightarrow> JobResult \<Rightarrow> Counts \<Rightarrow> int \<Rightarrow> CompletionEvent" where
  "completionEventFromItem a it jobID status result counts completedAt =
    (let snapshot = snapshot_of (it at_configSnapshot) in
     \<lparr>ce_SchemaVersion = CompletionEventVersion, ce_EventID = CompletionEventID jobID 1, ce_JobID = jobID,
      ce_FileID = stringAttr it at_fileId, ce_PrefixID = stringAttr it at_prefixId,
      ce_Source = \<lparr>ce_SBucket = stringAttr it at_bucket, ce_SKey = stringAttr it at_key,
        ce_SVersionID = stringAttr it at_versionId, ce_SETag = stringAttr it at_etag,
        ce_SFileSize = attributeNumber it at_size\<rparr>,
      ce_Config = \<lparr>ce_ConfigID = cs_ConfigHash snapshot, ce_ParameterName = cs_ParameterName snapshot,
        ce_ParameterVersion = cs_ParameterVersion snapshot\<rparr>,
      ce_Status = status, ce_Result = result,
      ce_Counts = \<lparr>ce_RecordsRead = co_RecordsRead counts, ce_RecordsPublished = co_RecordsPublished counts,
        ce_RecordsRejected = co_RecordsRejected counts, ce_RecordsIgnored = co_RecordsIgnored counts,
        ce_CountsComplete = co_CountsComplete counts\<rparr>,
      ce_ReceivedAt = aws_parse a (stringAttr it at_receivedAt), ce_CompletedAt = completedAt\<rparr>)"

definition is_terminal_status :: "string \<Rightarrow> bool" where
  "is_terminal_status s \<longleftrightarrow> s = JobCompleted \<or> s = JobFailed \<or> s = JobStateRejected"

definition ready_to_finish :: "item \<Rightarrow> bool" where
  "ready_to_finish it \<longleftrightarrow> it at_manifestSealed = Some (BOOL True)
     \<and> attributeNumber it at_completedChunks + attributeNumber it at_failedChunks \<ge> attributeNumber it at_expectedChunks"

definition final_status :: "item \<Rightarrow> JobStatus" where
  "final_status it = (if attributeNumber it at_failedChunks > 0 then JobFailed else JobCompleted)"

definition final_counts :: "item \<Rightarrow> Counts" where
  "final_counts it = \<lparr>co_RecordsRead = attributeNumber it at_recordsRead,
     co_RecordsPublished = attributeNumber it at_recordsPublished, co_RecordsRejected = attributeNumber it at_recordsRejected,
     co_RecordsIgnored = attributeNumber it at_recordsIgnored, co_MessagesPublished = attributeNumber it at_messagesPublished,
     co_SendMessageBatchCalls = attributeNumber it at_sendMessageBatchCalls,
     co_PhysicalLinesIgnored = attributeNumber it at_physicalLinesIgnored, co_Reasons = [],
     co_CountsComplete = (attributeNumber it at_failedChunks = 0)\<rparr>"

definition final_result :: "item \<Rightarrow> JobResult" where
  "final_result it =
    (if final_status it = JobFailed then []
     else if attributeNumber it at_recordsRejected > 0 then JobResultWithRejections else JobResultSuccess)"

definition fresh_intent :: "AWS \<Rightarrow> item \<Rightarrow> string \<Rightarrow> int \<Rightarrow> CompletionIntent" where
  "fresh_intent a it jobID now =
     \<lparr>ci_JobID = jobID, ci_Version = 1, ci_Status = final_status it,
      ci_Event = completionEventFromItem a it jobID (final_status it) (final_result it) (final_counts it) now,
      ci_CreatedAt = now\<rparr>"

definition intentPendingMarker :: string where "intentPendingMarker = ''1''"

definition finalize_writes :: "AWS \<Rightarrow> item \<Rightarrow> string \<Rightarrow> int \<Rightarrow> int \<Rightarrow> request list" where
  "finalize_writes a it jobID now now2 =
    [Update (jobID, SK_JOB)
       (Conj (Equals at_manifestSealed (BOOL True))
          (Conj (Equals at_completedChunks (N (attributeNumber it at_completedChunks)))
             (Conj (Equals at_failedChunks (N (attributeNumber it at_failedChunks))) job_running_cond)))
       [Set at_status (S (final_status it)), Set at_result (S (final_result it)),
        Set at_counts (countsMap (final_counts it)), Set at_completedAt (S (aws_format a now)),
        Set at_updatedAt (S (aws_format a now))],
     Put (jobID, SK_INTENT 1)
       [at_jobId \<mapsto> S jobID, at_intentVersion \<mapsto> N 1, at_intentStatus \<mapsto> S (final_status it),
        at_intentPending \<mapsto> S intentPendingMarker, at_payload \<mapsto> J (JIntent (fresh_intent a it jobID now)),
        at_createdAt \<mapsto> S (aws_format a now), at_expiresAt \<mapsto> N (unixAfterRetention a now2)]
       ItemAbsent]"

fun intent_payload :: "string \<Rightarrow> av option \<Rightarrow> ledger_fault + CompletionIntent" where
  "intent_payload jobID (Some (J (JIntent i))) = Inr i"
| "intent_payload jobID (Some (J d)) = Inl DecodeFailed"
| "intent_payload jobID (Some (S s)) = Inl DecodeFailed"
| "intent_payload jobID _ = Inl (MalformedIntent jobID)"

definition loadPendingIntent ::
  "'w dynamo \<Rightarrow> string \<Rightarrow> 'w \<Rightarrow> 'w \<times> (ledger_fault + CompletionIntent option)" where
  "loadPendingIntent db jobID w =
    (case db_Get db (jobID, SK_INTENT 1) w of
       (w, Inl e) \<Rightarrow> (w, Inl (ReadFailed e))
     | (w, Inr None) \<Rightarrow> (w, Inr None)
     | (w, Inr (Some it)) \<Rightarrow>
         if it at_intentPending = None then (w, Inr None)
         else (case intent_payload jobID (it at_payload) of Inl e \<Rightarrow> (w, Inl e) | Inr i \<Rightarrow> (w, Inr (Some i))))"

definition ReconcileCompletion ::
  "AWS \<Rightarrow> 'w dynamo \<Rightarrow> string \<Rightarrow> 'w \<Rightarrow> 'w \<times> (ledger_fault + CompletionIntent option)" where
  "ReconcileCompletion a db jobID w =
    (case db_Get db (jobID, SK_JOB) w of
       (w, Inl e) \<Rightarrow> (w, Inl (ReadFailed e))
     | (w, Inr None) \<Rightarrow> (w, Inl (JobNotFound jobID))
     | (w, Inr (Some it)) \<Rightarrow>
         if is_terminal_status (stringAttr it at_status) then loadPendingIntent db jobID w
         else if \<not> ready_to_finish it then (w, Inr None)
         else
           let now = db_now db w in
           (case db_Transact db [] (finalize_writes a it jobID now (db_now db w)) w of
              (w, err) \<Rightarrow>
                (case err of
                   None \<Rightarrow> (w, Inr (Some (fresh_intent a it jobID now)))
                 | Some e \<Rightarrow>
                     if transactionConflict err \<or> conditionalConflict err then loadPendingIntent db jobID w
                     else (w, Inl (FinalizeFailed e)))))"

definition reconcileJob :: "AWS \<Rightarrow> 'w dynamo \<Rightarrow> string \<Rightarrow> 'w \<Rightarrow> 'w \<times> ledger_fault option" where
  "reconcileJob a db jobID w =
    (case ReconcileCompletion a db jobID w of (w, Inl e) \<Rightarrow> (w, Some e) | (w, Inr _) \<Rightarrow> (w, None))"

definition deliver_write :: "AWS \<Rightarrow> string \<Rightarrow> int64 \<Rightarrow> int \<Rightarrow> request" where
  "deliver_write a jobID version now =
     Update (jobID, SK_INTENT version) (Conj ItemExists (HasAttr at_intentPending))
       [Remove at_intentPending, Set at_deliveredAt (S (aws_format a now))]"

definition MarkIntentDelivered ::
  "AWS \<Rightarrow> 'w dynamo \<Rightarrow> string \<Rightarrow> int64 \<Rightarrow> 'w \<Rightarrow> 'w \<times> ledger_fault option" where
  "MarkIntentDelivered a db jobID version w =
    (if aws_LedgerTable a = [] then (w, Some NotConfigured)
     else case db_Write db (deliver_write a jobID version (db_now db w)) w of
       (w, err) \<Rightarrow>
         (case err of
            None \<Rightarrow> (w, None)
          | Some e \<Rightarrow> if conditionalConflict err then (w, None) else (w, Some (DeliveryMarkFailed e))))"

definition CompleteChunk :: "AWS \<Rightarrow> 'w dynamo \<Rightarrow> ChunkResult \<Rightarrow> 'w \<Rightarrow> 'w \<times> ledger_fault option" where
  "CompleteChunk a db r w =
    (case chunkStatus db (cr_JobID r) (cr_ChunkID r) w of
       (w, Inl e) \<Rightarrow> (w, Some (ReadFailed e))
     | (w, Inr status) \<Rightarrow>
         if status = ChunkStateCompleted then (w, None)
         else case complete_loop 8 db (completeChunkToken (cr_JobID r) (cr_ChunkID r) (cr_Attempt r))
                (complete_chunk_writes a r) 0 None w of
           (w, Inl e) \<Rightarrow> (w, Some (Interrupted e))
         | (w, Inr (Some e)) \<Rightarrow>
             (case chunkStatus db (cr_JobID r) (cr_ChunkID r) w of
                (w, Inl _) \<Rightarrow> (w, Some (DbFailed e))
              | (w, Inr status) \<Rightarrow> if status \<noteq> ChunkStateCompleted then (w, Some (DbFailed e)) else (w, None))
         | (w, Inr None) \<Rightarrow> reconcileJob a db (cr_JobID r) w)"

subsection \<open>Failure of a chunk\<close>

definition retry_chunk_write :: "AWS \<Rightarrow> ChunkResult \<Rightarrow> request" where
  "retry_chunk_write a r =
     Update (cr_JobID r, SK_CHUNK (cr_ChunkID r)) (owned_chunk_cond (cr_Attempt r))
       [Set at_status (S ChunkStateRetryPending), Set at_lastError (S (cr_Error r)),
        Set at_lastAttemptAt (S (aws_format a (cr_OccurredAt r))), bump_revision]"

definition fail_chunk_writes :: "AWS \<Rightarrow> ChunkResult \<Rightarrow> request list" where
  "fail_chunk_writes a r =
    [Update (cr_JobID r, SK_CHUNK (cr_ChunkID r)) (owned_chunk_cond (cr_Attempt r))
       [Set at_status (S ChunkStateFailed), Set at_lastError (S (cr_Error r)),
        Set at_completedAt (S (aws_format a (cr_OccurredAt r))), bump_revision],
     Update (cr_JobID r, SK_JOB) job_running_cond [Set at_status (S JobRunning), Add at_failedChunks 1]]"

definition terminal_chunk :: "string \<Rightarrow> bool" where
  "terminal_chunk s \<longleftrightarrow> s = ChunkStateCompleted \<or> s = ChunkStateFailed"

definition maxReceiveCount :: "AWS \<Rightarrow> int" where
  "maxReceiveCount a = (if aws_MaxReceiveCount a < 1 then 3 else aws_MaxReceiveCount a)"

definition FailChunk :: "AWS \<Rightarrow> 'w dynamo \<Rightarrow> ChunkResult \<Rightarrow> 'w \<Rightarrow> 'w \<times> ledger_fault option" where
  "FailChunk a db r w =
    (if cr_Attempt r < maxReceiveCount a then
       (case db_Write db (retry_chunk_write a r) w of
          (w, None) \<Rightarrow> (w, None)
        | (w, Some e) \<Rightarrow>
            if conditionalConflict (Some e) then
              (case chunkStatus db (cr_JobID r) (cr_ChunkID r) w of
                 (w, Inl _) \<Rightarrow> (w, Some (DbFailed e))
               | (w, Inr status) \<Rightarrow> if terminal_chunk status then (w, None) else (w, Some (DbFailed e)))
            else (w, Some (DbFailed e)))
     else case chunkStatus db (cr_JobID r) (cr_ChunkID r) w of
       (w, Inl e) \<Rightarrow> (w, Some (ReadFailed e))
     | (w, Inr status) \<Rightarrow>
         if terminal_chunk status then (w, None)
         else case db_Transact db [] (fail_chunk_writes a r) w of
           (w, Some e) \<Rightarrow>
             (case chunkStatus db (cr_JobID r) (cr_ChunkID r) w of
                (w, Inl _) \<Rightarrow> (w, Some (DbFailed e))
              | (w, Inr status) \<Rightarrow> if \<not> terminal_chunk status then (w, Some (DbFailed e)) else (w, None))
         | (w, None) \<Rightarrow> reconcileJob a db (cr_JobID r) w)"

subsection \<open>Claiming a chunk\<close>

definition acquire_chunk_write :: "AWS \<Rightarrow> string \<Rightarrow> string \<Rightarrow> string \<Rightarrow> int \<Rightarrow> request" where
  "acquire_chunk_write a jobID chunkID token now =
     Update (jobID, SK_CHUNK chunkID) (Conj ItemExists (Equals at_status (S ChunkStatePending)))
       [Set at_status (S ChunkStateRunning), Set at_token (S token), Set at_acquiredAt (S (aws_format a now)),
        bump_revision, Add at_attempt 1]"

definition AcquireChunk ::
  "AWS \<Rightarrow> 'w dynamo \<Rightarrow> string \<Rightarrow> string \<Rightarrow> 'w \<Rightarrow> 'w \<times> AcquisitionResult \<times> ledger_fault option" where
  "AcquireChunk a db jobID chunkID w =
    (case db_Write db (acquire_chunk_write a jobID chunkID (db_random db w) (db_now db w)) w of
       (w, None) \<Rightarrow> (w, Acquired, None)
     | (w, Some e) \<Rightarrow>
         if \<not> conditionalConflict (Some e) then (w, Busy, Some (DbFailed e))
         else case chunkStatus db jobID chunkID w of
           (w, Inl e) \<Rightarrow> (w, Busy, Some (ReadFailed e))
         | (w, Inr status) \<Rightarrow> if terminal_chunk status then (w, AlreadyCompleted, None) else (w, Busy, None))"

subsection \<open>The phases of admission\<close>

definition advance_write ::
  "AWS \<Rightarrow> string \<Rightarrow> JobStatus list \<Rightarrow> JobStatus \<Rightarrow> string \<Rightarrow> action list \<Rightarrow> int \<Rightarrow> request" where
  "advance_write a jobID from_states to reason extra now =
     Update (jobID, SK_JOB) (status_in from_states)
       ([Set at_status (S to), Set at_statusIndex (S to), Set at_updatedAt (S (aws_format a now)), bump_revision,
         Append at_history [transitionEntry (hd from_states) to (aws_format a now) reason]] @
        (if reason \<noteq> [] then [Set at_lastReason (S reason)] else []) @ extra)"

definition advanceJob ::
  "AWS \<Rightarrow> 'w dynamo \<Rightarrow> string \<Rightarrow> JobStatus list \<Rightarrow> JobStatus \<Rightarrow> string \<Rightarrow> action list \<Rightarrow> 'w \<Rightarrow> 'w \<times> db_error option" where
  "advanceJob a db jobID from_states to reason extra w =
     db_Write db (advance_write a jobID from_states to reason extra (db_now db w)) w"

text \<open>The three callers treat a failed condition alike: it is no error when the job is already there.\<close>

definition advance_or_already ::
  "AWS \<Rightarrow> 'w dynamo \<Rightarrow> string \<Rightarrow> JobStatus list \<Rightarrow> JobStatus \<Rightarrow> string \<Rightarrow> action list \<Rightarrow> JobStatus list \<Rightarrow> 'w
    \<Rightarrow> 'w \<times> ledger_fault option" where
  "advance_or_already a db jobID from_states to reason extra already w =
    (case advanceJob a db jobID from_states to reason extra w of
       (w, None) \<Rightarrow> (w, None)
     | (w, Some e) \<Rightarrow>
         if \<not> conditionalConflict (Some e) then (w, Some (DbFailed e))
         else case jobStatus db jobID w of
           (w, Inl e') \<Rightarrow> (w, Some (ReadFailed e'))
         | (w, Inr status) \<Rightarrow> if list_ex ((=) status) already then (w, None) else (w, Some (DbFailed e)))"

definition BeginValidation :: "AWS \<Rightarrow> 'w dynamo \<Rightarrow> string \<Rightarrow> 'w \<Rightarrow> 'w \<times> ledger_fault option" where
  "BeginValidation a db jobID =
     advance_or_already a db jobID [JobStateReceived] JobStateValidating [] [] [JobStateValidating, JobStatePlanning]"

definition RejectJob :: "AWS \<Rightarrow> 'w dynamo \<Rightarrow> string \<Rightarrow> Rejection \<Rightarrow> 'w \<Rightarrow> 'w \<times> ledger_fault option" where
  "RejectJob a db jobID rejection =
     advance_or_already a db jobID [JobStateReceived, JobStateValidating] JobStateRejected
       (rj_Reason rejection @ (if rj_Detail rejection \<noteq> [] then '': '' @ rj_Detail rejection else []))
       [Set at_rejection (J (JRejection rejection))] [JobStateRejected]"

definition BeginPlanning :: "AWS \<Rightarrow> 'w dynamo \<Rightarrow> string \<Rightarrow> 'w \<Rightarrow> 'w \<times> ledger_fault option" where
  "BeginPlanning a db jobID =
     advance_or_already a db jobID [JobStateValidating] JobStatePlanning [] [] [JobStatePlanning]"

definition admission_item :: "AWS \<Rightarrow> Receipt \<Rightarrow> string \<Rightarrow> int \<Rightarrow> item" where
  "admission_item a rc token now =
    (let it = [at_jobId \<mapsto> S (rc_FileID rc), at_fileId \<mapsto> S (rc_FileID rc), at_receiptId \<mapsto> S (rc_ReceiptID rc),
        at_status \<mapsto> S JobStateReceived, at_statusIndex \<mapsto> S JobStateReceived,
        at_bucket \<mapsto> S (oi_Bucket (rc_Source rc)), at_key \<mapsto> S (oi_Key (rc_Source rc)),
        at_versionId \<mapsto> S (oi_VersionID (rc_Source rc)), at_etag \<mapsto> S (oi_ETag (rc_Source rc)),
        at_size \<mapsto> N (oi_Size (rc_Source rc)), at_environment \<mapsto> S (rc_Environment rc),
        at_token \<mapsto> S token, at_revision \<mapsto> N 0, at_receivedAt \<mapsto> S (aws_format a (rc_ReceivedAt rc)),
        at_createdAt \<mapsto> S (aws_format a now), at_updatedAt \<mapsto> S (aws_format a now),
        at_expiresAt \<mapsto> N (unixAfterRetention a now), at_leaseExpiresAt \<mapsto> N (admissionLeaseExpiry now),
        at_configSnapshot \<mapsto> J (JSnapshot (rc_ConfigSnapshot rc)), at_history \<mapsto> L []]
     in if rc_PrefixID rc \<noteq> [] then it(at_prefixId \<mapsto> S (rc_PrefixID rc)) else it)"

definition admit_write :: "AWS \<Rightarrow> Receipt \<Rightarrow> string \<Rightarrow> int \<Rightarrow> request" where
  "admit_write a rc token now = Put (rc_FileID rc, SK_JOB) (admission_item a rc token now) ItemAbsent"

definition reclaim_write :: "AWS \<Rightarrow> string \<Rightarrow> string \<Rightarrow> int \<Rightarrow> request" where
  "reclaim_write a jobID token now =
     Update (jobID, SK_JOB)
       (Conj (AtMost at_leaseExpiresAt (now div 1000000000))
          (Disj (Equals at_status (S JobStateReceived))
             (Disj (Equals at_status (S JobStateValidating)) (Equals at_status (S JobStatePlanning)))))
       [Set at_token (S token), Set at_leaseExpiresAt (N (admissionLeaseExpiry now)),
        Set at_updatedAt (S (aws_format a now)), bump_revision]"

definition Admit ::
  "AWS \<Rightarrow> 'w dynamo \<Rightarrow> Receipt \<Rightarrow> 'w \<Rightarrow> 'w \<times> AcquisitionResult \<times> ledger_fault option" where
  "Admit a db rc w =
    (if aws_LedgerTable a = [] then (w, Busy, Some NotConfigured)
     else if rc_ReceiptID rc = [] \<or> rc_FileID rc = [] then (w, Busy, Some MissingAdmissionIds)
     else case db_Write db (admit_write a rc (db_random db w) (db_now db w)) w of
       (w, None) \<Rightarrow> (w, Acquired, None)
     | (w, Some e) \<Rightarrow>
         if \<not> conditionalConflict (Some e) then (w, Busy, Some (DbFailed e))
         else case jobStatus db (rc_FileID rc) w of
           (w, Inl e) \<Rightarrow> (w, Busy, Some (ReadFailed e))
         | (w, Inr status) \<Rightarrow>
             if is_terminal_status status then (w, AlreadyCompleted, None)
             else if status = JobStateReceived \<or> status = JobStateValidating \<or> status = JobStatePlanning then
               (case db_Write db (reclaim_write a (rc_FileID rc) (db_random db w) (db_now db w)) w of
                  (w, None) \<Rightarrow> (w, Acquired, None)
                | (w, Some e) \<Rightarrow>
                    if \<not> conditionalConflict (Some e) then (w, Busy, Some (DbFailed e)) else (w, Busy, None))
             else (w, Busy, None))"

subsection \<open>Replay\<close>

fun replayed :: "string \<Rightarrow> string list \<Rightarrow> (sort_key \<times> item) list \<Rightarrow> ledger_fault + ChunkJob list" where
  "replayed newJobID wanted [] = Inr []"
| "replayed newJobID wanted ((sk, it) # its) =
    (case chunk_payload (it at_payload) of
       None \<Rightarrow> replayed newJobID wanted its
     | Some (Inl e) \<Rightarrow> Inl e
     | Some (Inr c) \<Rightarrow>
         if wanted \<noteq> [] \<and> cj_ChunkID c \<notin> set wanted then replayed newJobID wanted its
         else (case replayed newJobID wanted its of
                 Inl e \<Rightarrow> Inl e
               | Inr cs \<Rightarrow> Inr (c\<lparr>cj_JobID := newJobID\<rparr> # cs)))"

definition replay_audit_write :: "AWS \<Rightarrow> string \<Rightarrow> string \<Rightarrow> string list \<Rightarrow> int \<Rightarrow> request" where
  "replay_audit_write a sourceJobID newJobID chunkIDs now =
     Put (sourceJobID, SK_AUDIT (aws_format a now) newJobID)
       [at_payload \<mapsto> J (JAudit sourceJobID newJobID chunkIDs (aws_format a now)), at_expiresAt \<mapsto> N (unixAfterRetention a now)]
       ItemAbsent"

definition ReplayChunks ::
  "nat \<Rightarrow> AWS \<Rightarrow> 'w dynamo \<Rightarrow> string \<Rightarrow> string \<Rightarrow> string list \<Rightarrow> 'w \<Rightarrow> 'w \<times> (ledger_fault + ChunkJob list)" where
  "ReplayChunks pages a db sourceJobID newJobID chunkIDs w =
    (if aws_LedgerTable a = [] \<or> sourceJobID = [] \<or> newJobID = [] \<or> sourceJobID = newJobID then (w, Inl InvalidReplay)
     else case query_pages pages db \<lparr>q_pk = sourceJobID, q_chunks_only = False, q_lacks = None\<rparr> None
                 (replayed newJobID chunkIDs) [] w of
       (w, Inl e) \<Rightarrow> (w, Inl e)
     | (w, Inr jobs) \<Rightarrow>
         if jobs = [] \<or> (chunkIDs \<noteq> [] \<and> length jobs \<noteq> card (set chunkIDs)) then (w, Inl ReplayIncomplete)
         else
           (case db_Write db (replay_audit_write a sourceJobID newJobID chunkIDs (db_now db w)) w of
              (w, Some e) \<Rightarrow> (w, Inl (DbFailed e))
            | (w, None) \<Rightarrow> (w, Inr (sort_key cj_ChunkID jobs))))"

end
