(* ===== verification/Ledger_Steps.thy ===== *)
theory Ledger_Steps
  imports Ledger
begin

section \<open>The ledger as a shared table\<close>

text \<open>
  All Lambdas share one table, so the state of a job is changed by any interleaving of the
  requests of any number of processes. \<open>ledger_request\<close> lists the requests the program sends;
  \<open>ledger_step\<close> is one of them taking effect. The state of one job is abstracted to the record
  \<open>job_view\<close>, its life to the relation \<open>job_step\<close>, and \<open>ledger_step_simulation\<close> shows that every
  step of the table is a step (or no step) of every job. The properties of the life of a job
  are proved on the abstract relation in theory \<open>Ledger_Invariants\<close>.
\<close>

subsection \<open>The requests of the program\<close>

inductive ledger_request :: "request list \<Rightarrow> bool" where
  req_plan_head: "ledger_request [plan_head_write a plan]"
| req_plan_chunk: "ledger_request [plan_chunk_write a plan chunk]"
| req_seal: "ledger_request [plan_seal_write a plan now]"
| req_scheduled: "ledger_request [scheduled_write a chunk now]"
| req_mark_scheduled: "ledger_request [mark_job_write a jobID JobScheduled message now]"
| req_mark_failed: "ledger_request [mark_job_write a jobID JobSchedulingFailed message now]"
| req_start: "ledger_request [start_chunk_write a jobID chunkID attempt now]"
| req_complete: "ledger_request (complete_chunk_writes a r)"
| req_retry: "ledger_request [retry_chunk_write a r]"
| req_fail: "ledger_request (fail_chunk_writes a r)"
| req_acquire: "ledger_request [acquire_chunk_write a jobID chunkID token now]"
| req_deliver: "ledger_request [deliver_write a jobID version now]"
| req_validate: "ledger_request [advance_write a jobID [JobStateReceived] JobStateValidating [] [] now]"
| req_reject: "ledger_request [advance_write a jobID [JobStateReceived, JobStateValidating] JobStateRejected reason
                [Set at_rejection v] now]"
| req_begin_planning: "ledger_request [advance_write a jobID [JobStateValidating] JobStatePlanning [] [] now]"
| req_admit: "ledger_request [admit_write a rc token now]"
| req_reclaim: "ledger_request [reclaim_write a jobID token now]"
| req_audit: "ledger_request [replay_audit_write a sourceJobID newJobID chunkIDs now]"

text \<open>
  The request that finishes a job is computed from an item read before (\<open>it\<close>), and its condition
  checks only part of what was read. The rest (\<open>same_tallies\<close>) is part of the step; that
  \<^verbatim>\<open>ReconcileCompletion\<close> respects it is \<open>reconcile_steps\<close> of theory \<open>Ledger_Invariants\<close>.
\<close>

definition tally_attrs :: "attr list" where
  "tally_attrs = [at_expectedChunks, at_recordsRead, at_recordsPublished, at_recordsRejected, at_recordsIgnored]"

definition same_tallies :: "item \<Rightarrow> item \<Rightarrow> bool" where
  "same_tallies it cur \<longleftrightarrow> list_all (\<lambda>a. num_of it a = num_of cur a) tally_attrs"

inductive ledger_step :: "table \<Rightarrow> table \<Rightarrow> bool" where
  step_request: "ledger_request ws \<Longrightarrow> transact_ok t ws \<Longrightarrow> ledger_step t (apply_writes t ws)"
| step_finish: "ready_to_finish it \<Longrightarrow> t (jobID, SK_JOB) = Some cur \<Longrightarrow> same_tallies it cur
    \<Longrightarrow> transact_ok t (finalize_writes a it jobID now now2)
    \<Longrightarrow> ledger_step t (apply_writes t (finalize_writes a it jobID now now2))"

inductive_cases ledger_step_cases: "ledger_step t t'"

subsection \<open>Looking up attributes\<close>

definition item_at :: "table \<Rightarrow> ledger_key \<Rightarrow> item" where
  "item_at t k = (case t k of None \<Rightarrow> (\<lambda>_. None) | Some i \<Rightarrow> i)"

lemma item_at_None [simp]: "t k = None \<Longrightarrow> item_at t k = (\<lambda>_. None)"
  by (simp add: item_at_def)

lemma item_at_Some [simp]: "t k = Some i \<Longrightarrow> item_at t k = i"
  by (simp add: item_at_def)

lemma item_at_upd [simp]: "item_at (t(k \<mapsto> i)) k' = (if k' = k then i else item_at t k')"
  by (simp add: item_at_def)

lemma acts_item_at: "acts (t k) us = foldl act (item_at t k) us"
  by (simp add: acts_def item_at_def)

text \<open>A default written without a case distinction on the item, so that lookups compute.\<close>

lemma act_SetDefault: "act it (SetDefault a v) = it(a := Some (case it a of None \<Rightarrow> v | Some x \<Rightarrow> x))"
  by (auto split: option.splits)

lemmas act_rules = act.simps(1) act_SetDefault act.simps(3-6)

declare act.simps [simp del]

fun target :: "action \<Rightarrow> attr" where
  "target (Set a v) = a"
| "target (SetDefault a v) = a"
| "target (Increment a n) = a"
| "target (Append a vs) = a"
| "target (Add a n) = a"
| "target (Remove a) = a"

lemma act_other: "a \<noteq> target u \<Longrightarrow> act it u a = it a"
  by (cases u) (auto simp: act_rules)

lemma foldl_act_other: "a \<notin> target ` set us \<Longrightarrow> foldl act it us a = it a"
  by (induction us arbitrary: it) (auto simp: act_other)

lemma num_of_eq: "it a = it' a \<Longrightarrow> num_of it a = num_of it' a"
  by (simp add: num_of_def)

lemma holds_Some_item [simp]:
  "holds it (Equals a v) \<longleftrightarrow> it \<noteq> None \<and> the it a = Some v"
  "holds it (HasAttr a) \<longleftrightarrow> it \<noteq> None \<and> the it a \<noteq> None"
  by (auto split: option.splits)

declare holds.simps(3,5) [simp del]

lemma equals_item_at: "holds (t k) (Equals a v) \<longleftrightarrow> item_at t k a = Some v"
  by (auto simp: item_at_def split: option.splits)

lemma write_ok_Update: "write_ok t (Update k c us) \<longleftrightarrow> holds (t k) c"
  by simp

lemma apply_writes_single [simp]: "apply_writes t [w] = apply_write t w"
  by (simp add: apply_writes_def)

lemma apply_writes_pair [simp]: "apply_writes t [v, w] = apply_write (apply_write t v) w"
  by (simp add: apply_writes_def)

lemma transact_ok_simps [simp]:
  "transact_ok t [] = True" "transact_ok t (w # ws) \<longleftrightarrow> write_ok t w \<and> transact_ok t ws"
  by (simp_all add: transact_ok_def)

subsection \<open>The life of one job\<close>

text \<open>
  What matters of the items of a job: its status, its sealed manifest, its counters, the status
  and the published records of its chunks, and the payload of its completion intent.
\<close>

record job_view =
  jv_status :: "av option"
  jv_sealed :: bool
  jv_expected :: "av option"
  jv_completed :: int
  jv_failed :: int
  jv_published :: int
  jv_others :: "int \<times> int \<times> int"
  jv_chunks :: "string \<Rightarrow> (av option \<times> int) option"
  jv_intent :: "av option option"

definition chunk_view :: "item \<Rightarrow> av option \<times> int" where
  "chunk_view i = (i at_status, num_of i at_recordsProduced)"

definition view :: "table \<Rightarrow> string \<Rightarrow> job_view" where
  "view t j =
    (let it = item_at t (j, SK_JOB) in
     \<lparr>jv_status = it at_status, jv_sealed = (it at_manifestSealed = Some (BOOL True)),
      jv_expected = it at_expectedChunks,
      jv_completed = num_of it at_completedChunks, jv_failed = num_of it at_failedChunks,
      jv_published = num_of it at_recordsPublished,
      jv_others = (num_of it at_recordsRead, num_of it at_recordsRejected, num_of it at_recordsIgnored),
      jv_chunks = (\<lambda>c. map_option chunk_view (t (j, SK_CHUNK c))),
      jv_intent = map_option (\<lambda>i. i at_payload) (t (j, SK_INTENT 1))\<rparr>)"

definition num_av :: "av option \<Rightarrow> int" where
  "num_av v = (case v of Some (N n) \<Rightarrow> n | _ \<Rightarrow> 0)"

definition final_job :: "av option \<Rightarrow> bool" where
  "final_job s \<longleftrightarrow> s = Some (S JobCompleted) \<or> s = Some (S JobFailed)"

definition active_job :: "av option \<Rightarrow> bool" where
  "active_job s \<longleftrightarrow> s = Some (S JobPending) \<or> s = Some (S JobScheduled) \<or> s = Some (S JobRunning)"

definition final_chunk :: "av option \<Rightarrow> bool" where
  "final_chunk s \<longleftrightarrow> s = Some (S ChunkStateCompleted) \<or> s = Some (S ChunkStateFailed)"

lemma active_not_final: "active_job s \<Longrightarrow> \<not> final_job s"
  by (auto simp: active_job_def final_job_def)

text \<open>What an intent has to say about the job it finishes.\<close>

definition intent_fits :: "string \<Rightarrow> job_view \<Rightarrow> string \<Rightarrow> CompletionIntent \<Rightarrow> bool" where
  "intent_fits j v s i \<longleftrightarrow> ci_JobID i = j \<and> ci_Version i = 1 \<and> ci_Status i = s
     \<and> ce_EventID (ci_Event i) = CompletionEventID j 1 \<and> ce_JobID (ci_Event i) = j \<and> ce_Status (ci_Event i) = s
     \<and> ce_RecordsPublished (ce_Counts (ci_Event i)) = jv_published v
     \<and> (ce_RecordsRead (ce_Counts (ci_Event i)), ce_RecordsRejected (ce_Counts (ci_Event i)),
        ce_RecordsIgnored (ce_Counts (ci_Event i))) = jv_others v"

inductive job_step :: "string \<Rightarrow> job_view \<Rightarrow> job_view \<Rightarrow> bool" where
  js_none: "job_step j v v"
| js_admit: "jv_status v = None \<Longrightarrow> job_step j v (v\<lparr>jv_status := Some (S JobStateReceived)\<rparr>)"
| js_plan: "jv_expected v = None \<or> jv_expected v = Some (N n)
    \<Longrightarrow> job_step j v (v\<lparr>jv_status := (case jv_status v of None \<Rightarrow> Some (S JobPending) | s \<Rightarrow> s), jv_expected := Some (N n)\<rparr>)"
| js_chunk: "jv_chunks v c = None
    \<Longrightarrow> job_step j v (v\<lparr>jv_chunks := (jv_chunks v)(c \<mapsto> (Some (S JobPending), 0))\<rparr>)"
| js_seal: "\<not> jv_sealed v \<Longrightarrow> jv_expected v = Some (N n)
    \<Longrightarrow> job_step j v (v\<lparr>jv_sealed := True, jv_status := Some (S JobPending)\<rparr>)"
| js_status: "jv_status v \<noteq> None \<Longrightarrow> \<not> final_job (jv_status v) \<Longrightarrow> \<not> final_job s' \<Longrightarrow> s' \<noteq> None
    \<Longrightarrow> job_step j v (v\<lparr>jv_status := s'\<rparr>)"
| js_chunk_status: "jv_chunks v c = Some (s, p) \<Longrightarrow> \<not> final_chunk s \<Longrightarrow> \<not> final_chunk s'
    \<Longrightarrow> job_step j v (v\<lparr>jv_chunks := (jv_chunks v)(c \<mapsto> (s', p))\<rparr>)"
| js_complete: "jv_chunks v c = Some (Some (S ChunkStateRunning), q) \<Longrightarrow> active_job (jv_status v)
    \<Longrightarrow> job_step j v (v\<lparr>jv_status := Some (S JobRunning), jv_completed := jv_completed v + 1,
          jv_published := jv_published v + p, jv_others := others,
          jv_chunks := (jv_chunks v)(c \<mapsto> (Some (S ChunkStateCompleted), p))\<rparr>)"
| js_fail: "jv_chunks v c = Some (Some (S ChunkStateRunning), q) \<Longrightarrow> active_job (jv_status v)
    \<Longrightarrow> job_step j v (v\<lparr>jv_status := Some (S JobRunning), jv_failed := jv_failed v + 1,
          jv_chunks := (jv_chunks v)(c \<mapsto> (Some (S ChunkStateFailed), q))\<rparr>)"
| js_finish: "active_job (jv_status v) \<Longrightarrow> jv_sealed v \<Longrightarrow> jv_intent v = None
    \<Longrightarrow> num_av (jv_expected v) \<le> jv_completed v + jv_failed v
    \<Longrightarrow> s = (if jv_failed v > 0 then JobFailed else JobCompleted) \<Longrightarrow> intent_fits j v s i
    \<Longrightarrow> job_step j v (v\<lparr>jv_status := Some (S s), jv_intent := Some (Some (J (JIntent i)))\<rparr>)"

inductive_cases job_step_elim: "job_step j v v'"

lemmas job_step_cases = job_step_elim
  [consumes 1, case_names js_none js_admit js_plan js_chunk js_seal js_status js_chunk_status js_complete js_fail js_finish]

subsection \<open>Every step of the table is a step of the job\<close>

lemma view_cong: "(\<And>sk. t (j, sk) = t' (j, sk)) \<Longrightarrow> view t j = view t' j"
  by (simp add: view_def item_at_def)

lemma apply_writes_other: "k \<notin> write_key ` set ws \<Longrightarrow> apply_writes t ws k = t k"
  unfolding apply_writes_def
proof (induction ws arbitrary: t)
  case (Cons w ws)
  have "apply_write t w k = t k" using Cons.prems by (cases w) auto
  with Cons show ?case by simp
qed simp

lemma view_other_job: "j \<notin> fst ` write_key ` set ws \<Longrightarrow> view (apply_writes t ws) j = view t j"
  by (rule view_cong, rule apply_writes_other) (metis fst_conv image_eqI)

lemma num_of_upd [simp]: "num_of (it(a := v)) b = (if b = a then num_av v else num_of it b)"
  by (simp add: num_of_def num_av_def)

lemma num_av_simps [simp]: "num_av (Some (N n)) = n" "num_av None = 0"
  by (simp_all add: num_av_def)

lemma num_av_attr: "num_av (it a) = num_of it a"
  by (simp add: num_av_def num_of_def)

lemma num_of_none [simp]: "num_of (\<lambda>_. None) a = 0"
  by (simp add: num_of_def)

lemma num_av_default [simp]: "num_av (Some (case it a of None \<Rightarrow> N 0 | Some x \<Rightarrow> x)) = num_of it a"
  by (simp add: num_av_def num_of_def split: option.splits)

lemma view_job:
  "view (t((j, SK_JOB) \<mapsto> i)) j = (view t j)\<lparr>jv_status := i at_status,
     jv_sealed := (i at_manifestSealed = Some (BOOL True)), jv_expected := i at_expectedChunks,
     jv_completed := num_of i at_completedChunks, jv_failed := num_of i at_failedChunks,
     jv_published := num_of i at_recordsPublished,
     jv_others := (num_of i at_recordsRead, num_of i at_recordsRejected, num_of i at_recordsIgnored)\<rparr>"
  by (simp add: view_def Let_def)

lemma view_chunk:
  "view (t((j, SK_CHUNK c) \<mapsto> i)) j = (view t j)\<lparr>jv_chunks := (jv_chunks (view t j))(c \<mapsto> chunk_view i)\<rparr>"
  by (auto simp: view_def Let_def item_at_def)

lemma view_intent:
  "view (t((j, SK_INTENT n) \<mapsto> i)) j
    = (if n = 1 then (view t j)\<lparr>jv_intent := Some (i at_payload)\<rparr> else view t j)"
  by (auto simp: view_def Let_def item_at_def)

lemma view_audit: "view (t((j, SK_AUDIT x y) \<mapsto> i)) j = view t j"
  by (simp add: view_def Let_def item_at_def)

lemma view_fields:
  "jv_status (view t j) = item_at t (j, SK_JOB) at_status"
  "jv_sealed (view t j) = (item_at t (j, SK_JOB) at_manifestSealed = Some (BOOL True))"
  "jv_expected (view t j) = item_at t (j, SK_JOB) at_expectedChunks"
  "jv_completed (view t j) = num_of (item_at t (j, SK_JOB)) at_completedChunks"
  "jv_failed (view t j) = num_of (item_at t (j, SK_JOB)) at_failedChunks"
  "jv_published (view t j) = num_of (item_at t (j, SK_JOB)) at_recordsPublished"
  "jv_others (view t j) = (num_of (item_at t (j, SK_JOB)) at_recordsRead,
     num_of (item_at t (j, SK_JOB)) at_recordsRejected, num_of (item_at t (j, SK_JOB)) at_recordsIgnored)"
  "jv_chunks (view t j) c = map_option chunk_view (t (j, SK_CHUNK c))"
  "jv_intent (view t j) = map_option (\<lambda>i. i at_payload) (t (j, SK_INTENT 1))"
  by (simp_all add: view_def Let_def)

text \<open>The writes to the job item, by the attributes they set.\<close>

lemma view_job_same:
  assumes "i at_manifestSealed = item_at t (j, SK_JOB) at_manifestSealed"
    "i at_expectedChunks = item_at t (j, SK_JOB) at_expectedChunks"
    "i at_completedChunks = item_at t (j, SK_JOB) at_completedChunks"
    "i at_failedChunks = item_at t (j, SK_JOB) at_failedChunks"
    "i at_recordsPublished = item_at t (j, SK_JOB) at_recordsPublished"
    "i at_recordsRead = item_at t (j, SK_JOB) at_recordsRead"
    "i at_recordsRejected = item_at t (j, SK_JOB) at_recordsRejected"
    "i at_recordsIgnored = item_at t (j, SK_JOB) at_recordsIgnored"
  shows "view (t((j, SK_JOB) \<mapsto> i)) j = (view t j)\<lparr>jv_status := i at_status\<rparr>"
  using assms unfolding view_job by (simp add: view_def Let_def num_of_def)

text \<open>A write that moves the status of a job between statuses that are not final.\<close>

definition status_write :: "request \<Rightarrow> string \<Rightarrow> string list \<Rightarrow> string \<Rightarrow> bool" where
  "status_write w j froms to \<longleftrightarrow> (\<exists>c us. w = Update (j, SK_JOB) c us
     \<and> (\<forall>it. holds it c \<longrightarrow> (\<exists>i. it = Some i \<and> (\<exists>s\<in>set froms. i at_status = Some (S s))))
     \<and> (\<forall>i. foldl act i us at_status = Some (S to))
     \<and> {at_manifestSealed, at_expectedChunks, at_completedChunks, at_failedChunks, at_recordsPublished,
        at_recordsRead, at_recordsRejected, at_recordsIgnored} \<inter> target ` set us = {})"

lemma status_write_step:
  assumes "status_write w j froms to" "write_ok t w"
    and "JobCompleted \<notin> set froms" "JobFailed \<notin> set froms" "to \<noteq> JobCompleted" "to \<noteq> JobFailed"
  shows "job_step j (view t j) (view (apply_write t w) j)"
proof -
  obtain c us where w: "w = Update (j, SK_JOB) c us"
    and c: "\<forall>it. holds it c \<longrightarrow> (\<exists>i. it = Some i \<and> (\<exists>s\<in>set froms. i at_status = Some (S s)))"
    and us: "\<forall>i. foldl act i us at_status = Some (S to)"
      "{at_manifestSealed, at_expectedChunks, at_completedChunks, at_failedChunks, at_recordsPublished,
        at_recordsRead, at_recordsRejected, at_recordsIgnored} \<inter> target ` set us = {}"
    using assms(1) unfolding status_write_def by blast
  obtain i s where i: "t (j, SK_JOB) = Some i" "s \<in> set froms" "i at_status = Some (S s)"
    using assms(2) c by (auto simp: w)
  have "view (apply_write t w) j = (view t j)\<lparr>jv_status := Some (S to)\<rparr>"
    unfolding w apply_write.simps acts_item_at
    by (subst view_job_same) (use us in \<open>auto intro!: foldl_act_other\<close>)
  moreover have "jv_status (view t j) = Some (S s)"
    by (simp add: view_fields i)
  ultimately show ?thesis
    using assms(3-6) i(2) by (auto intro!: js_status simp: final_job_def simp del: status_synonyms)
qed


lemma status_write_mark_scheduled:
  "status_write (mark_job_write a j JobScheduled message now) j [JobPending, JobStatePlanning, JobScheduled] JobScheduled"
  by (auto simp: status_write_def mark_job_write_def act_rules split: option.splits)

lemma status_write_mark_failed:
  "status_write (mark_job_write a j JobSchedulingFailed message now) j
     [JobPending, JobStatePlanning, JobSchedulingFailed] JobSchedulingFailed"
  by (auto simp: status_write_def mark_job_write_def act_rules split: option.splits)

lemma status_write_advance:
  assumes "froms \<noteq> []" "target ` set extra \<inter>
     {at_status, at_manifestSealed, at_expectedChunks, at_completedChunks, at_failedChunks, at_recordsPublished,
        at_recordsRead, at_recordsRejected, at_recordsIgnored} = {}"
  shows "status_write (advance_write a j froms to reason extra now) j froms to"
proof -
  have "foldl act i extra at_status = i at_status" for i
    by (rule foldl_act_other) (use assms(2) in blast)
  then show ?thesis
    using assms by (auto simp: status_write_def advance_write_def act_rules holds_status_in)
qed


text \<open>The other writes to a job item.\<close>

lemma plan_head_step:
  assumes "write_ok t (plan_head_write a plan)" "j = jp_JobID plan"
  shows "job_step j (view t j) (view (apply_write t (plan_head_write a plan)) j)"
proof -
  let ?it = "item_at t (j, SK_JOB)"
  have "?it at_expectedChunks = None \<or> ?it at_expectedChunks = Some (N (jp_ExpectedChunks plan))"
    using assms by (auto simp: plan_head_write_def item_at_def split: option.splits)
  moreover have "view (apply_write t (plan_head_write a plan)) j
      = (view t j)\<lparr>jv_status := (case jv_status (view t j) of None \<Rightarrow> Some (S JobPending) | s \<Rightarrow> s),
          jv_expected := Some (N (jp_ExpectedChunks plan))\<rparr>"
    unfolding plan_head_write_def apply_write.simps acts_item_at assms(2) view_job
    by (simp add: act_rules) (auto simp: view_def Let_def split: option.splits)
  ultimately show ?thesis
    using js_plan [of "view t j" "jp_ExpectedChunks plan" j] by (simp add: view_fields)
qed

lemma seal_step:
  assumes "write_ok t (plan_seal_write a plan now)" "j = jp_JobID plan"
  shows "job_step j (view t j) (view (apply_write t (plan_seal_write a plan now)) j)"
proof -
  let ?it = "item_at t (j, SK_JOB)"
  have "?it at_expectedChunks = Some (N (jp_ExpectedChunks plan))" "?it at_manifestSealed \<noteq> Some (BOOL True)"
    using assms by (auto simp: plan_seal_write_def item_at_def split: option.splits)
  moreover have "view (apply_write t (plan_seal_write a plan now)) j
      = (view t j)\<lparr>jv_sealed := True, jv_status := Some (S JobPending)\<rparr>"
    unfolding plan_seal_write_def apply_write.simps acts_item_at assms(2) view_job
    by (simp add: act_rules) (simp add: view_def Let_def)
  ultimately show ?thesis
    using js_seal [of "view t j" "jp_ExpectedChunks plan" j] by (simp add: view_fields)
qed

lemma admit_step:
  assumes "write_ok t (admit_write a rc token now)" "j = rc_FileID rc"
  shows "job_step j (view t j) (view (apply_write t (admit_write a rc token now)) j)"
proof -
  have none: "t (j, SK_JOB) = None"
    using assms by (simp add: admit_write_def)
  have "view (apply_write t (admit_write a rc token now)) j = (view t j)\<lparr>jv_status := Some (S JobStateReceived)\<rparr>"
    unfolding admit_write_def apply_write.simps assms(2)
    by (subst view_job_same) (use none assms(2) in \<open>simp_all add: admission_item_def Let_def\<close>)
  with none show ?thesis
    using js_admit [of "view t j" j] by (simp add: view_fields)
qed

lemma reclaim_step:
  assumes "write_ok t (reclaim_write a j token now)"
  shows "view (apply_write t (reclaim_write a j token now)) j = view t j"
  unfolding reclaim_write_def apply_write.simps acts_item_at view_job
  by (simp add: act_rules) (simp add: view_def Let_def)

text \<open>The writes to a chunk item.\<close>

lemma view_chunk_update:
  assumes "\<And>i. num_of (foldl act i us) at_recordsProduced = num_of i at_recordsProduced"
    and "t (j, SK_CHUNK c) = Some i"
  shows "view (t((j, SK_CHUNK c) \<mapsto> acts (t (j, SK_CHUNK c)) us)) j
    = (view t j)\<lparr>jv_chunks := (jv_chunks (view t j))(c \<mapsto> (foldl act i us at_status, num_of i at_recordsProduced))\<rparr>"
  unfolding view_chunk acts_item_at using assms by (simp add: chunk_view_def)

lemma plan_chunk_step:
  assumes "j = jp_JobID plan"
  shows "job_step j (view t j) (view (apply_write t (plan_chunk_write a plan chunk)) j)"
proof (cases "t (j, SK_CHUNK (cj_ChunkID chunk))")
  case None
  then have "view (apply_write t (plan_chunk_write a plan chunk)) j
      = (view t j)\<lparr>jv_chunks := (jv_chunks (view t j))(cj_ChunkID chunk \<mapsto> (Some (S JobPending), 0))\<rparr>"
    unfolding plan_chunk_write_def apply_write.simps view_chunk acts_item_at assms
    by (simp add: chunk_view_def act_rules)
  with None show ?thesis
    using js_chunk [of "view t j" "cj_ChunkID chunk" j] by (simp add: view_fields)
next
  case (Some i)
  let ?c = "cj_ChunkID chunk"
  have v: "view (apply_write t (plan_chunk_write a plan chunk)) j
      = (view t j)\<lparr>jv_chunks := (jv_chunks (view t j))(?c \<mapsto>
          (Some (case i at_status of None \<Rightarrow> S JobPending | Some x \<Rightarrow> x), num_of i at_recordsProduced))\<rparr>"
    using Some unfolding plan_chunk_write_def apply_write.simps assms
    by (subst view_chunk_update) (simp_all add: act_rules)
  have c: "jv_chunks (view t j) ?c = Some (i at_status, num_of i at_recordsProduced)"
    by (simp add: view_fields Some chunk_view_def)
  show ?thesis
  proof (cases "i at_status")
    case None
    with js_chunk_status [OF c, of "Some (S JobPending)" j] v show ?thesis
      by (simp add: final_chunk_def)
  next
    case (Some x)
    then have "view (apply_write t (plan_chunk_write a plan chunk)) j = view t j"
      using c unfolding v by (simp add: fun_upd_idem)
    then show ?thesis by (simp add: js_none)
  qed
qed

text \<open>A write that moves the status of a chunk between statuses that are not final.\<close>

lemma chunk_status_step:
  assumes "w = Update (j, SK_CHUNK c) cd us" "\<exists>i. t (j, SK_CHUNK c) = Some i \<and> \<not> final_chunk (i at_status)"
    and num: "\<And>i. num_of (foldl act i us) at_recordsProduced = num_of i at_recordsProduced"
    and st: "\<And>i. \<not> final_chunk (i at_status) \<Longrightarrow> \<not> final_chunk (foldl act i us at_status)"
  shows "job_step j (view t j) (view (apply_write t w) j)"
proof -
  obtain i where i: "t (j, SK_CHUNK c) = Some i" "\<not> final_chunk (i at_status)"
    using assms(2) by blast
  have "view (apply_write t w) j = (view t j)\<lparr>jv_chunks :=
      (jv_chunks (view t j))(c \<mapsto> (foldl act i us at_status, num_of i at_recordsProduced))\<rparr>"
    unfolding assms(1) apply_write.simps by (rule view_chunk_update) (fact num, fact i(1))
  moreover have "jv_chunks (view t j) c = Some (i at_status, num_of i at_recordsProduced)"
    using i(1) by (simp add: view_fields chunk_view_def)
  moreover have "\<not> final_chunk (foldl act i us at_status)"
    using i(2) by (rule st)
  ultimately show ?thesis
    using i(2) js_chunk_status by simp
qed

lemma scheduled_step:
  assumes "write_ok t (scheduled_write a chunk now)" "j = cj_JobID chunk"
  shows "job_step j (view t j) (view (apply_write t (scheduled_write a chunk now)) j)"
  unfolding assms(2)
  by (rule chunk_status_step [OF scheduled_write_def])
    (use assms(1) in \<open>auto simp: act_rules final_chunk_def scheduled_write_def\<close>)

lemma start_step:
  assumes "write_ok t (start_chunk_write a j c attempt now)"
  shows "job_step j (view t j) (view (apply_write t (start_chunk_write a j c attempt now)) j)"
  by (rule chunk_status_step [OF start_chunk_write_def])
    (use assms in \<open>auto simp: act_rules final_chunk_def start_chunk_write_def\<close>)

lemma retry_step:
  assumes "write_ok t (retry_chunk_write a r)" "j = cr_JobID r"
  shows "job_step j (view t j) (view (apply_write t (retry_chunk_write a r)) j)"
  unfolding assms(2)
  by (rule chunk_status_step [OF retry_chunk_write_def])
    (use assms(1) in \<open>auto simp: act_rules final_chunk_def retry_chunk_write_def owned_chunk_cond_def\<close>)

lemma acquire_step:
  assumes "write_ok t (acquire_chunk_write a j c token now)"
  shows "job_step j (view t j) (view (apply_write t (acquire_chunk_write a j c token now)) j)"
  by (rule chunk_status_step [OF acquire_chunk_write_def])
    (use assms in \<open>auto simp: act_rules final_chunk_def acquire_chunk_write_def\<close>)


text \<open>The transactions that end a chunk.\<close>

lemma reason_actions_other:
  "a \<notin> range at_reasonCount \<Longrightarrow> foldl act it (reason_actions c) a = it a"
  by (rule foldl_act_other) (auto simp: reason_actions_def)

lemma reason_actions_num:
  "a \<notin> range at_reasonCount \<Longrightarrow> num_of (foldl act it (reason_actions c)) a = num_of it a"
  by (rule num_of_eq) (rule reason_actions_other)

lemma active_cond: "holds (t (j, SK_JOB)) job_running_cond \<longleftrightarrow> active_job (item_at t (j, SK_JOB) at_status)"
  by (simp only: job_running_cond_def active_job_def holds.simps(7,8) equals_item_at)

lemma active_cond_Some: "holds (Some i) job_running_cond \<longleftrightarrow> active_job (i at_status)"
  by (simp add: job_running_cond_def active_job_def)

lemma owned_cond:
  "holds (t (j, SK_CHUNK c)) (owned_chunk_cond n) \<longleftrightarrow>
    (\<exists>i. t (j, SK_CHUNK c) = Some i \<and> i at_status = Some (S ChunkStateRunning) \<and> i at_attempt = Some (N n))"
  by (auto simp: owned_chunk_cond_def)

lemma complete_step:
  assumes "transact_ok t (complete_chunk_writes a r)" "j = cr_JobID r"
  shows "job_step j (view t j) (view (apply_writes t (complete_chunk_writes a r)) j)"
proof -
  define c where "c = completion_counts r"
  obtain i where i: "t (j, SK_CHUNK (cr_ChunkID r)) = Some i" "i at_status = Some (S ChunkStateRunning)"
    using assms by (auto simp: complete_chunk_writes_def Let_def owned_cond)
  have act: "active_job (item_at t (j, SK_JOB) at_status)"
    using assms by (simp add: complete_chunk_writes_def Let_def active_cond)
  have q: "jv_chunks (view t j) (cr_ChunkID r) = Some (Some (S ChunkStateRunning), num_of i at_recordsProduced)"
    using i by (simp add: view_fields chunk_view_def)
  let ?it = "item_at t (j, SK_JOB)"
  have "view (apply_writes t (complete_chunk_writes a r)) j = (view t j)\<lparr>jv_status := Some (S JobRunning),
      jv_completed := jv_completed (view t j) + 1, jv_published := jv_published (view t j) + co_RecordsPublished c,
      jv_others := (num_of ?it at_recordsRead + co_RecordsRead c,
        num_of ?it at_recordsRejected + co_RecordsRejected c, num_of ?it at_recordsIgnored + co_RecordsIgnored c),
      jv_chunks := (jv_chunks (view t j))(cr_ChunkID r \<mapsto> (Some (S ChunkStateCompleted), co_RecordsPublished c))\<rparr>"
    unfolding complete_chunk_writes_def Let_def c_def [symmetric] apply_writes_pair apply_write.simps acts_item_at
      assms(2) [symmetric] view_job view_chunk foldl_append
    by (simp add: act_rules chunk_view_def reason_actions_other reason_actions_num view_fields image_iff)
  then show ?thesis
    using js_complete [OF q, of j] act by (simp add: view_fields)
qed

lemma fail_step:
  assumes "transact_ok t (fail_chunk_writes a r)" "j = cr_JobID r"
  shows "job_step j (view t j) (view (apply_writes t (fail_chunk_writes a r)) j)"
proof -
  obtain i where i: "t (j, SK_CHUNK (cr_ChunkID r)) = Some i" "i at_status = Some (S ChunkStateRunning)"
    using assms by (auto simp: fail_chunk_writes_def owned_cond)
  have act: "active_job (item_at t (j, SK_JOB) at_status)"
    using assms by (simp add: fail_chunk_writes_def active_cond)
  have q: "jv_chunks (view t j) (cr_ChunkID r) = Some (Some (S ChunkStateRunning), num_of i at_recordsProduced)"
    using i by (simp add: view_fields chunk_view_def)
  have "view (apply_writes t (fail_chunk_writes a r)) j = (view t j)\<lparr>jv_status := Some (S JobRunning),
      jv_failed := jv_failed (view t j) + 1,
      jv_chunks := (jv_chunks (view t j))(cr_ChunkID r \<mapsto> (Some (S ChunkStateFailed), num_of i at_recordsProduced))\<rparr>"
    using i unfolding fail_chunk_writes_def apply_writes_pair apply_write.simps acts_item_at
      assms(2) [symmetric] view_job view_chunk
    by (simp add: act_rules chunk_view_def) (simp add: view_def Let_def)
  then show ?thesis
    using js_fail [OF q, of j] act by (simp add: view_fields)
qed

text \<open>The transaction that ends a job.\<close>

lemma same_tallies_num:
  "same_tallies it cur \<Longrightarrow> a \<in> set tally_attrs \<Longrightarrow> num_of it a = num_of cur a"
  by (simp add: same_tallies_def list_all_iff)

lemma finish_step:
  assumes "ready_to_finish it" "t (j, SK_JOB) = Some cur" "same_tallies it cur"
    and "transact_ok t (finalize_writes a it j now now2)"
  shows "job_step j (view t j) (view (apply_writes t (finalize_writes a it j now now2)) j)"
proof -
  have cond: "cur at_manifestSealed = Some (BOOL True)"
    "cur at_completedChunks = Some (N (num_of it at_completedChunks))"
    "cur at_failedChunks = Some (N (num_of it at_failedChunks))"
    "active_job (cur at_status)" "t (j, SK_INTENT 1) = None"
    using assms(2,4) by (simp_all add: finalize_writes_def attributeNumber_def active_cond_Some)
  have nums: "num_of cur at_completedChunks = num_of it at_completedChunks"
    "num_of cur at_failedChunks = num_of it at_failedChunks"
    using cond by (simp_all add: num_of_def)
  note eqs = same_tallies_num [OF assms(3), unfolded tally_attrs_def, simplified]
  have "view (apply_writes t (finalize_writes a it j now now2)) j
      = (view t j)\<lparr>jv_status := Some (S (final_status it)), jv_intent := Some (Some (J (JIntent (fresh_intent a it j now))))\<rparr>"
    unfolding finalize_writes_def apply_writes_pair apply_write.simps acts_item_at view_intent
    by (subst view_job_same) (simp_all add: act_rules)
  moreover have "intent_fits j (view t j) (final_status it) (fresh_intent a it j now)"
    using eqs assms(2) by (simp add: intent_fits_def fresh_intent_def completionEventFromItem_def Let_def view_fields
        final_counts_def attributeNumber_def)
  moreover have "final_status it = (if jv_failed (view t j) > 0 then JobFailed else JobCompleted)"
    using nums assms(2) by (simp add: final_status_def attributeNumber_def view_fields)
  moreover have "num_av (jv_expected (view t j)) \<le> jv_completed (view t j) + jv_failed (view t j)"
    using assms(1,2) nums eqs by (simp add: view_fields num_av_attr ready_to_finish_def attributeNumber_def)
  ultimately show ?thesis
    using js_finish [of "view t j" "final_status it" j "fresh_intent a it j now"] assms(2) cond by (simp add: view_fields)
qed

lemma deliver_step:
  "write_ok t (deliver_write a j n now) \<Longrightarrow> view (apply_write t (deliver_write a j n now)) j = view t j"
  unfolding deliver_write_def apply_write.simps acts_item_at view_intent
  by (auto simp: act_rules view_fields intro!: job_view.equality)


text \<open>The simulation: for every job, every step of the table is a step of its life.\<close>

lemma own_or_other:
  assumes "\<And>w. w \<in> set ws \<Longrightarrow> fst (write_key w) = k"
    and "j = k \<Longrightarrow> job_step j (view t j) (view (apply_writes t ws) j)"
  shows "job_step j (view t j) (view (apply_writes t ws) j)"
proof (cases "j = k")
  case False
  then have "j \<notin> fst ` write_key ` set ws" using assms(1) by auto
  then show ?thesis by (simp add: view_other_job js_none)
qed (rule assms(2))

lemma write_keys [simp]:
  "write_key (plan_head_write a plan) = (jp_JobID plan, SK_JOB)"
  "write_key (plan_chunk_write a plan chunk) = (jp_JobID plan, SK_CHUNK (cj_ChunkID chunk))"
  "write_key (plan_seal_write a plan now) = (jp_JobID plan, SK_JOB)"
  "write_key (scheduled_write a chunk now) = (cj_JobID chunk, SK_CHUNK (cj_ChunkID chunk))"
  "write_key (mark_job_write a jobID status message now) = (jobID, SK_JOB)"
  "write_key (start_chunk_write a jobID chunkID attempt now) = (jobID, SK_CHUNK chunkID)"
  "write_key (retry_chunk_write a r) = (cr_JobID r, SK_CHUNK (cr_ChunkID r))"
  "write_key (acquire_chunk_write a jobID chunkID token now) = (jobID, SK_CHUNK chunkID)"
  "write_key (deliver_write a jobID version now) = (jobID, SK_INTENT version)"
  "write_key (advance_write a jobID froms to reason extra now) = (jobID, SK_JOB)"
  "write_key (admit_write a rc token now) = (rc_FileID rc, SK_JOB)"
  "write_key (reclaim_write a jobID token now) = (jobID, SK_JOB)"
  "write_key (replay_audit_write a sourceJobID newJobID chunkIDs now) = (sourceJobID, SK_AUDIT (aws_format a now) newJobID)"
  by (simp_all add: plan_head_write_def plan_chunk_write_def plan_seal_write_def scheduled_write_def mark_job_write_def
      start_chunk_write_def retry_chunk_write_def acquire_chunk_write_def deliver_write_def advance_write_def
      admit_write_def reclaim_write_def replay_audit_write_def)

lemma write_keys_lists:
  "w \<in> set (complete_chunk_writes a r) \<Longrightarrow> fst (write_key w) = cr_JobID r"
  "w \<in> set (fail_chunk_writes a r) \<Longrightarrow> fst (write_key w) = cr_JobID r"
  "w \<in> set (finalize_writes a it jobID now now2) \<Longrightarrow> fst (write_key w) = jobID"
  by (auto simp: complete_chunk_writes_def fail_chunk_writes_def finalize_writes_def Let_def)

lemma audit_step: "view (apply_write t (replay_audit_write a j newJobID chunkIDs now)) j = view t j"
  by (simp add: replay_audit_write_def view_audit)

lemma request_simulation:
  assumes "ledger_request ws" "transact_ok t ws"
  shows "job_step j (view t j) (view (apply_writes t ws) j)"
  using assms
proof (induction rule: ledger_request.induct)
  case (req_plan_head a plan)
  show ?case by (rule own_or_other [where k = "jp_JobID plan"])
      (use req_plan_head plan_head_step in \<open>auto dest: write_keys_lists\<close>)
next
  case (req_plan_chunk a plan chunk)
  show ?case by (rule own_or_other [where k = "jp_JobID plan"])
      (use plan_chunk_step in \<open>auto dest: write_keys_lists\<close>)
next
  case (req_seal a plan now)
  show ?case by (rule own_or_other [where k = "jp_JobID plan"])
      (use req_seal seal_step in \<open>auto dest: write_keys_lists\<close>)
next
  case (req_scheduled a chunk now)
  show ?case by (rule own_or_other [where k = "cj_JobID chunk"])
      (use req_scheduled scheduled_step in \<open>auto dest: write_keys_lists\<close>)
next
  case (req_mark_scheduled a jobID message now)
  show ?case by (rule own_or_other [where k = "jobID"])
      (use req_mark_scheduled status_write_step [OF status_write_mark_scheduled] in \<open>auto dest: write_keys_lists\<close>)
next
  case (req_mark_failed a jobID message now)
  show ?case by (rule own_or_other [where k = "jobID"])
      (use req_mark_failed status_write_step [OF status_write_mark_failed] in \<open>auto dest: write_keys_lists\<close>)
next
  case (req_start a jobID chunkID attempt now)
  show ?case by (rule own_or_other [where k = "jobID"])
      (use req_start start_step in \<open>auto dest: write_keys_lists\<close>)
next
  case (req_complete a r)
  show ?case by (rule own_or_other [where k = "cr_JobID r"])
      (use req_complete complete_step in \<open>auto dest: write_keys_lists\<close>)
next
  case (req_retry a r)
  show ?case by (rule own_or_other [where k = "cr_JobID r"])
      (use req_retry retry_step in \<open>auto dest: write_keys_lists\<close>)
next
  case (req_fail a r)
  show ?case by (rule own_or_other [where k = "cr_JobID r"])
      (use req_fail fail_step in \<open>auto dest: write_keys_lists\<close>)
next
  case (req_acquire a jobID chunkID token now)
  show ?case by (rule own_or_other [where k = "jobID"])
      (use req_acquire acquire_step in \<open>auto dest: write_keys_lists\<close>)
next
  case (req_deliver a jobID version now)
  show ?case by (rule own_or_other [where k = "jobID"])
      (use req_deliver deliver_step js_none in \<open>auto dest: write_keys_lists\<close>)
next
  case (req_validate a jobID now)
  show ?case by (rule own_or_other [where k = "jobID"])
      (use req_validate status_write_step [OF status_write_advance] in \<open>auto dest: write_keys_lists\<close>)
next
  case (req_reject a jobID reason v now)
  show ?case by (rule own_or_other [where k = "jobID"])
      (use req_reject status_write_step [OF status_write_advance] in \<open>auto dest: write_keys_lists\<close>)
next
  case (req_begin_planning a jobID now)
  show ?case by (rule own_or_other [where k = "jobID"])
      (use req_begin_planning status_write_step [OF status_write_advance] in \<open>auto dest: write_keys_lists\<close>)
next
  case (req_admit a rc token now)
  show ?case by (rule own_or_other [where k = "rc_FileID rc"])
      (use req_admit admit_step in \<open>auto dest: write_keys_lists\<close>)
next
  case (req_reclaim a jobID token now)
  show ?case by (rule own_or_other [where k = "jobID"])
      (use req_reclaim reclaim_step js_none in \<open>auto dest: write_keys_lists\<close>)
next
  case (req_audit a sourceJobID newJobID chunkIDs now)
  show ?case by (rule own_or_other [where k = "sourceJobID"])
      (use audit_step js_none in \<open>auto dest: write_keys_lists\<close>)
qed

lemma ledger_step_simulation: "ledger_step t t' \<Longrightarrow> job_step j (view t j) (view t' j)"
proof (induction rule: ledger_step.induct)
  case (step_request ws t)
  then show ?case by (rule request_simulation)
next
  case (step_finish it t jobID cur a now now2)
  show ?case by (rule own_or_other [where k = jobID])
      (use step_finish finish_step in \<open>auto dest: write_keys_lists\<close>)
qed

lemma ledger_steps_simulation: "ledger_step\<^sup>*\<^sup>* t t' \<Longrightarrow> (job_step j)\<^sup>*\<^sup>* (view t j) (view t' j)"
  by (induction rule: rtranclp_induct) (auto intro: rtranclp.rtrancl_into_rtrancl ledger_step_simulation)

end
