(* ===== verification/Ledger_Invariants.thy ===== *)
theory Ledger_Invariants
  imports Ledger_Steps
begin

section \<open>Invariants of the ledger\<close>

text \<open>
  The invariant of the life of a job (\<open>job_inv\<close>), the facts about a job that no step takes back
  (\<open>job_below\<close>), both as an interpretation of the interface of theory \<open>Systems\<close>, and the same
  facts read off the table: the counters of a job are the tallies of its chunks, a finished job
  has exactly one completion intent, and finished jobs, finished chunks, intents and sealed
  manifests never change.
\<close>

subsection \<open>The life of a job\<close>

definition completed_chunks :: "job_view \<Rightarrow> string set" where
  "completed_chunks v = {c. \<exists>p. jv_chunks v c = Some (Some (S ChunkStateCompleted), p)}"

definition failed_chunks :: "job_view \<Rightarrow> string set" where
  "failed_chunks v = {c. \<exists>p. jv_chunks v c = Some (Some (S ChunkStateFailed), p)}"

definition chunk_published :: "job_view \<Rightarrow> string \<Rightarrow> int" where
  "chunk_published v c = snd (the (jv_chunks v c))"

definition outcome :: "job_view \<Rightarrow> string" where
  "outcome v = (if jv_failed v > 0 then JobFailed else JobCompleted)"

definition tallies :: "job_view \<Rightarrow> bool" where
  "tallies v \<longleftrightarrow> finite (dom (jv_chunks v))
     \<and> jv_completed v = int (card (completed_chunks v)) \<and> jv_failed v = int (card (failed_chunks v))
     \<and> jv_published v = (\<Sum>c\<in>completed_chunks v. chunk_published v c)"

definition finished :: "string \<Rightarrow> job_view \<Rightarrow> bool" where
  "finished j v \<longleftrightarrow> jv_sealed v \<and> num_av (jv_expected v) \<le> jv_completed v + jv_failed v
     \<and> jv_status v = Some (S (outcome v))
     \<and> (\<exists>i. jv_intent v = Some (Some (J (JIntent i))) \<and> intent_fits j v (outcome v) i)"

definition job_inv :: "string \<Rightarrow> job_view \<Rightarrow> bool" where
  "job_inv j v \<longleftrightarrow> tallies v \<and> (jv_sealed v \<longrightarrow> (\<exists>n. jv_expected v = Some (N n)))
     \<and> (if final_job (jv_status v) then finished j v else jv_intent v = None)"

definition job_below :: "job_view \<Rightarrow> job_view \<Rightarrow> bool" where
  "job_below v v' \<longleftrightarrow>
     (final_job (jv_status v) \<longrightarrow> jv_status v' = jv_status v \<and> jv_completed v' = jv_completed v \<and> jv_failed v' = jv_failed v)
     \<and> (\<forall>c s p. jv_chunks v c = Some (s, p) \<longrightarrow> final_chunk s \<longrightarrow> jv_chunks v' c = Some (s, p))
     \<and> (\<forall>x. jv_intent v = Some x \<longrightarrow> jv_intent v' = Some x)
     \<and> (jv_sealed v \<longrightarrow> jv_sealed v' \<and> jv_expected v' = jv_expected v)
     \<and> jv_completed v \<le> jv_completed v' \<and> jv_failed v \<le> jv_failed v'
     \<and> (jv_completed v' = jv_completed v \<longrightarrow> jv_failed v' = jv_failed v
         \<longrightarrow> jv_published v' = jv_published v \<and> jv_others v' = jv_others v)"

lemma final_chunk_simps [simp]:
  "final_chunk (Some (S JobStateCompleted))" "final_chunk (Some (S JobStateFailed))"
  "\<not> final_chunk (Some (S JobRunning))" "\<not> final_chunk (Some (S JobPending))" "\<not> final_chunk None"
  by (simp_all add: final_chunk_def)

lemma final_job_simps [simp]:
  "final_job (Some (S JobStateCompleted))" "final_job (Some (S JobStateFailed))"
  "\<not> final_job (Some (S JobRunning))" "\<not> final_job (Some (S JobPending))" "\<not> final_job None"
  "\<not> final_job (Some (S JobStateReceived))"
  by (simp_all add: final_job_def)

lemma outcome_final [simp]: "final_job (Some (S (outcome v)))"
  by (simp add: outcome_def)

text \<open>The tallies depend on the chunks and the counters only.\<close>

lemma tallies_cong:
  assumes "jv_chunks v' = jv_chunks v" "jv_completed v' = jv_completed v" "jv_failed v' = jv_failed v"
    "jv_published v' = jv_published v"
  shows "tallies v' = tallies v"
  using assms by (simp add: tallies_def completed_chunks_def failed_chunks_def chunk_published_def)

lemma completed_upd:
  "completed_chunks (v\<lparr>jv_chunks := (jv_chunks v)(c \<mapsto> (s, p))\<rparr>)
    = (if s = Some (S ChunkStateCompleted) then insert c (completed_chunks v) else completed_chunks v - {c})"
  by (auto simp: completed_chunks_def)

lemma failed_upd:
  "failed_chunks (v\<lparr>jv_chunks := (jv_chunks v)(c \<mapsto> (s, p))\<rparr>)
    = (if s = Some (S ChunkStateFailed) then insert c (failed_chunks v) else failed_chunks v - {c})"
  by (auto simp: failed_chunks_def)

lemma tally_sets_finite:
  assumes "tallies v"
  shows "finite (completed_chunks v)" "finite (failed_chunks v)"
  using assms by (auto simp: tallies_def completed_chunks_def failed_chunks_def elim!: rev_finite_subset)

lemma not_in_tally_sets:
  assumes "\<forall>s p. jv_chunks v c = Some (s, p) \<longrightarrow> \<not> final_chunk s"
  shows "c \<notin> completed_chunks v" "c \<notin> failed_chunks v"
  using assms by (auto simp: completed_chunks_def failed_chunks_def)

lemma sum_published_other:
  "c \<notin> A \<Longrightarrow> (\<Sum>d\<in>A. chunk_published (v\<lparr>jv_chunks := (jv_chunks v)(c \<mapsto> x)\<rparr>) d) = (\<Sum>d\<in>A. chunk_published v d)"
  by (rule sum.cong) (auto simp: chunk_published_def)

lemma tallies_open:
  assumes "tallies v" "\<forall>s p. jv_chunks v c = Some (s, p) \<longrightarrow> \<not> final_chunk s" "\<not> final_chunk s'"
  shows "tallies (v\<lparr>jv_chunks := (jv_chunks v)(c \<mapsto> (s', q))\<rparr>)"
proof -
  note out = not_in_tally_sets [OF assms(2)]
  have "s' \<noteq> Some (S ChunkStateCompleted)" "s' \<noteq> Some (S ChunkStateFailed)"
    using assms(3) by (auto simp: final_chunk_def)
  then show ?thesis
    using assms(1) out unfolding tallies_def completed_upd failed_upd
    by (simp add: sum_published_other del: fun_upd_apply)
qed

lemma tallies_complete:
  assumes "tallies v" "jv_chunks v c = Some (Some (S ChunkStateRunning), q)"
  shows "tallies (v\<lparr>jv_completed := jv_completed v + 1, jv_published := jv_published v + p,
      jv_chunks := (jv_chunks v)(c \<mapsto> (Some (S ChunkStateCompleted), p))\<rparr>)"
proof -
  let ?v = "v\<lparr>jv_chunks := (jv_chunks v)(c \<mapsto> (Some (S ChunkStateCompleted), p))\<rparr>"
  have out: "c \<notin> completed_chunks v" "c \<notin> failed_chunks v"
    using assms(2) by (auto intro!: not_in_tally_sets)
  have sets: "completed_chunks ?v = insert c (completed_chunks v)" "failed_chunks ?v = failed_chunks v"
    unfolding completed_upd failed_upd using out by simp_all
  have "chunk_published ?v c = p" by (simp add: chunk_published_def)
  then have "(\<Sum>d\<in>completed_chunks ?v. chunk_published ?v d) = p + (\<Sum>d\<in>completed_chunks v. chunk_published v d)"
    using out tally_sets_finite [OF assms(1)] unfolding sets by (simp add: sum_published_other)
  moreover have "int (card (completed_chunks ?v)) = int (card (completed_chunks v)) + 1"
    using out tally_sets_finite [OF assms(1)] unfolding sets by simp
  ultimately show ?thesis
    using assms(1) sets unfolding tallies_def completed_chunks_def failed_chunks_def chunk_published_def
    by (simp add: del: fun_upd_apply)
qed

lemma tallies_fail:
  assumes "tallies v" "jv_chunks v c = Some (Some (S ChunkStateRunning), q)"
  shows "tallies (v\<lparr>jv_failed := jv_failed v + 1,
      jv_chunks := (jv_chunks v)(c \<mapsto> (Some (S ChunkStateFailed), p))\<rparr>)"
proof -
  let ?v = "v\<lparr>jv_chunks := (jv_chunks v)(c \<mapsto> (Some (S ChunkStateFailed), p))\<rparr>"
  have out: "c \<notin> completed_chunks v" "c \<notin> failed_chunks v"
    using assms(2) by (auto intro!: not_in_tally_sets)
  have sets: "completed_chunks ?v = completed_chunks v" "failed_chunks ?v = insert c (failed_chunks v)"
    unfolding completed_upd failed_upd using out by simp_all
  have "(\<Sum>d\<in>completed_chunks ?v. chunk_published ?v d) = (\<Sum>d\<in>completed_chunks v. chunk_published v d)"
    using out unfolding sets by (simp add: sum_published_other)
  moreover have "int (card (failed_chunks ?v)) = int (card (failed_chunks v)) + 1"
    using out tally_sets_finite [OF assms(1)] unfolding sets by simp
  ultimately show ?thesis
    using assms(1) sets unfolding tallies_def completed_chunks_def failed_chunks_def chunk_published_def
    by (simp add: del: fun_upd_apply)
qed


text \<open>A step that leaves a job unfinished keeps the invariant as soon as it keeps the tallies.\<close>

lemma inv_open:
  assumes "job_inv j v" "\<not> final_job (jv_status v)" "tallies v'" "\<not> final_job (jv_status v')"
    "jv_intent v' = jv_intent v" "jv_sealed v' \<longrightarrow> (\<exists>n. jv_expected v' = Some (N n))"
  shows "job_inv j v'"
  using assms by (simp add: job_inv_def)

lemma intent_fits_cong:
  "jv_published v' = jv_published v \<Longrightarrow> jv_others v' = jv_others v \<Longrightarrow> intent_fits j v' s i = intent_fits j v s i"
  by (simp add: intent_fits_def)

lemma inv_frame:
  assumes "job_inv j v" "tallies v'" "jv_status v' = jv_status v" "jv_intent v' = jv_intent v"
    "jv_sealed v' = jv_sealed v" "jv_expected v' = jv_expected v" "jv_completed v' = jv_completed v"
    "jv_failed v' = jv_failed v" "jv_published v' = jv_published v" "jv_others v' = jv_others v"
  shows "job_inv j v'"
proof -
  have "outcome v' = outcome v" using assms(8) by (simp add: outcome_def)
  then have "finished j v' = finished j v"
    unfolding finished_def assms(3-8) by (simp only: intent_fits_cong [OF assms(9,10)])
  then show ?thesis
    using assms(1,2) unfolding job_inv_def assms(3-6) by simp
qed

lemma job_step_inv:
  assumes "job_inv j v" "job_step j v v'"
  shows "job_inv j v'"
proof -
  have t: "tallies v" and e: "jv_sealed v \<longrightarrow> (\<exists>n. jv_expected v = Some (N n))"
    using assms(1) by (simp_all add: job_inv_def)
  have keep: "tallies (v\<lparr>jv_status := s\<rparr>)" "tallies (v\<lparr>jv_status := s, jv_expected := x\<rparr>)"
    "tallies (v\<lparr>jv_sealed := b, jv_status := s\<rparr>)" "tallies (v\<lparr>jv_status := s, jv_intent := y\<rparr>)" for s x b y
    by (rule tallies_cong [THEN iffD2, OF _ _ _ _ t]; simp)+
  show ?thesis
    using assms(2)
  proof (cases rule: job_step_cases)
    case js_none
    then show ?thesis using assms(1) by simp
  next
    case js_admit
    then show ?thesis using keep e by (intro inv_open [OF assms(1)]) auto
  next
    case (js_plan n)
    show ?thesis
    proof (cases "jv_expected v")
      case None
      with e have "\<not> jv_sealed v" by simp
      then have "\<not> final_job (jv_status v)" using assms(1) by (auto simp: job_inv_def finished_def)
      with js_plan keep e \<open>\<not> jv_sealed v\<close> show ?thesis
        by (intro inv_open [OF assms(1)]) (auto split: option.splits)
    next
      case (Some x)
      show ?thesis
      proof (cases "jv_status v")
        case None
        with js_plan keep Some show ?thesis by (intro inv_open [OF assms(1)]) auto
      next
        case s: (Some s)
        with js_plan keep Some show ?thesis by (intro inv_frame [OF assms(1)]) auto
      qed
    qed
  next
    case (js_chunk c)
    then have "tallies v'" using tallies_open [OF t, of c] by simp
    with js_chunk show ?thesis by (intro inv_frame [OF assms(1)]) auto
  next
    case (js_seal n)
    then have "\<not> final_job (jv_status v)" using assms(1) by (auto simp: job_inv_def finished_def)
    with js_seal keep show ?thesis by (intro inv_open [OF assms(1)]) auto
  next
    case (js_status s')
    with keep e show ?thesis by (intro inv_open [OF assms(1)]) auto
  next
    case (js_chunk_status c s p s')
    then have "tallies v'" using tallies_open [OF t, of c] by simp
    with js_chunk_status show ?thesis by (intro inv_frame [OF assms(1)]) auto
  next
    case (js_complete c q p others)
    have "tallies (v'\<lparr>jv_status := jv_status v, jv_others := jv_others v\<rparr>)"
      using tallies_complete [OF t, of c q p] js_complete by simp
    then have "tallies v'" by (rule tallies_cong [THEN iffD2, rotated 4]) simp_all
    with js_complete e active_not_final show ?thesis by (intro inv_open [OF assms(1)]) auto
  next
    case (js_fail c q)
    have "tallies (v'\<lparr>jv_status := jv_status v\<rparr>)"
      using tallies_fail [OF t, of c q q] js_fail by simp
    then have "tallies v'" by (rule tallies_cong [THEN iffD2, rotated 4]) simp_all
    with js_fail e active_not_final show ?thesis by (intro inv_open [OF assms(1)]) auto
  next
    case (js_finish i)
    then have "outcome v' = outcome v" by (simp add: outcome_def)
    moreover have "intent_fits j v' (outcome v) i"
      using js_finish by (simp add: intent_fits_def outcome_def)
    ultimately show ?thesis
      using js_finish keep e by (simp add: job_inv_def finished_def) (simp add: outcome_def)
  qed
qed

lemma job_step_below:
  assumes "job_inv j v" "job_step j v v'"
  shows "job_below v v'"
  using assms(2)
proof (cases rule: job_step_cases)
  case js_none
  then show ?thesis by (simp add: job_below_def)
next
  case js_admit
  then show ?thesis by (simp add: job_below_def)
next
  case (js_plan n)
  then show ?thesis using assms(1)
    by (auto simp: job_below_def job_inv_def final_job_def finished_def split: option.splits)
next
  case (js_chunk c)
  then show ?thesis by (simp add: job_below_def)
next
  case (js_seal n)
  then show ?thesis using assms(1) by (auto simp: job_below_def job_inv_def finished_def)
next
  case (js_status s')
  then show ?thesis by (simp add: job_below_def)
next
  case (js_chunk_status c s p s')
  then show ?thesis by (auto simp: job_below_def)
next
  case (js_complete c q p others)
  then show ?thesis using active_not_final by (auto simp: job_below_def)
next
  case (js_fail c q)
  then show ?thesis using active_not_final by (auto simp: job_below_def)
next
  case (js_finish i)
  then show ?thesis using active_not_final by (auto simp: job_below_def)
qed

lemma job_below_refl: "job_below v v"
  by (simp add: job_below_def)

lemma job_belowD:
  assumes "job_below v v'"
  shows "final_job (jv_status v) \<Longrightarrow> jv_status v' = jv_status v"
    and "final_job (jv_status v) \<Longrightarrow> jv_completed v' = jv_completed v"
    and "final_job (jv_status v) \<Longrightarrow> jv_failed v' = jv_failed v"
    and "jv_chunks v c = Some (s, p) \<Longrightarrow> final_chunk s \<Longrightarrow> jv_chunks v' c = Some (s, p)"
    and "jv_intent v = Some x \<Longrightarrow> jv_intent v' = Some x"
    and "jv_sealed v \<Longrightarrow> jv_sealed v'"
    and "jv_sealed v \<Longrightarrow> jv_expected v' = jv_expected v"
    and "jv_completed v \<le> jv_completed v'"
    and "jv_failed v \<le> jv_failed v'"
    and "jv_completed v' = jv_completed v \<Longrightarrow> jv_failed v' = jv_failed v \<Longrightarrow> jv_published v' = jv_published v"
    and "jv_completed v' = jv_completed v \<Longrightarrow> jv_failed v' = jv_failed v \<Longrightarrow> jv_others v' = jv_others v"
  using assms by (simp_all add: job_below_def)

lemma job_below_trans:
  assumes "job_below u v" "job_below v w"
  shows "job_below u w"
proof -
  note u = job_belowD [OF assms(1)] and v = job_belowD [OF assms(2)]
  have between: "jv_completed v = jv_completed u \<and> jv_failed v = jv_failed u"
    if "jv_completed w = jv_completed u" "jv_failed w = jv_failed u"
    using u(8,9) v(8,9) that by linarith
  show ?thesis
    unfolding job_below_def
  proof (intro conjI impI allI)
    show "jv_completed u \<le> jv_completed w" "jv_failed u \<le> jv_failed w"
      using u(8,9) v(8,9) by linarith+
  next
    fix c s p assume "jv_chunks u c = Some (s, p)" "final_chunk s"
    then show "jv_chunks w c = Some (s, p)" using u(4) v(4) by blast
  next
    fix x assume "jv_intent u = Some x"
    then show "jv_intent w = Some x" using u(5) v(5) by blast
  next
    assume eqs: "jv_completed w = jv_completed u" "jv_failed w = jv_failed u"
    show "jv_published w = jv_published u" "jv_others w = jv_others u"
      using between [OF eqs] eqs u(10,11) v(10,11) by simp_all
  qed (use u(1-3,6,7) v(1-3,6,7) in simp_all)
qed

definition no_job :: "job_view \<Rightarrow> bool" where
  "no_job v \<longleftrightarrow> v = view (\<lambda>_. None) []"

lemma no_job_inv: "no_job v \<Longrightarrow> job_inv j v"
  by (simp add: no_job_def job_inv_def view_def Let_def tallies_def completed_chunks_def failed_chunks_def)

interpretation job_life: monotone_system no_job "job_step j" "job_inv j" job_below for j
  by unfold_locales (auto intro: no_job_inv job_step_inv job_step_below job_below_refl job_below_trans)


subsection \<open>The table\<close>

definition empty_table :: "table \<Rightarrow> bool" where
  "empty_table t \<longleftrightarrow> t = (\<lambda>_. None)"

definition ledger_inv :: "table \<Rightarrow> bool" where
  "ledger_inv t \<longleftrightarrow> (\<forall>j. job_inv j (view t j))"

definition ledger_below :: "table \<Rightarrow> table \<Rightarrow> bool" where
  "ledger_below t t' \<longleftrightarrow> (\<forall>j. job_below (view t j) (view t' j))"

lemma empty_no_job: "no_job (view (\<lambda>_. None) j)"
  by (simp add: no_job_def view_def Let_def)

interpretation ledger: monotone_system empty_table ledger_step ledger_inv ledger_below
proof (unfold_locales, goal_cases)
  case (1 t)
  then show ?case by (simp add: empty_table_def ledger_inv_def no_job_inv empty_no_job)
next
  case (2 t t')
  then show ?case unfolding ledger_inv_def using job_step_inv ledger_step_simulation by blast
next
  case (3 t)
  then show ?case by (simp add: ledger_below_def job_below_refl)
next
  case (4 t u v)
  then show ?case unfolding ledger_below_def using job_below_trans by blast
next
  case (5 t t')
  then show ?case unfolding ledger_inv_def ledger_below_def using job_step_below ledger_step_simulation by blast
qed

lemma reachable_ledger_inv: "ledger_step\<^sup>*\<^sup>* (\<lambda>_. None) t \<Longrightarrow> ledger_inv t"
  by (rule ledger.reachable_inv) (simp add: empty_table_def)

lemma steps_below: "ledger_inv t \<Longrightarrow> ledger_step\<^sup>*\<^sup>* t t' \<Longrightarrow> job_below (view t j) (view t' j)"
  using ledger.reachable_below unfolding ledger_below_def by blast

lemma steps_keep_inv: "ledger_inv t \<Longrightarrow> ledger_step\<^sup>*\<^sup>* t t' \<Longrightarrow> ledger_inv t'"
  by (rule ledger.steps_inv)

subsection \<open>Every method only takes ledger steps\<close>

text \<open>
  The other clients of the table take ledger steps. Each method, run among them, then takes the
  table to one the others could have reached: the methods are closed under the protocol.
\<close>

abbreviation moves :: "('w \<Rightarrow> table) \<Rightarrow> 'w \<Rightarrow> 'w \<Rightarrow> bool" where
  "moves tab w w' \<equiv> ledger_step\<^sup>*\<^sup>* (tab w) (tab w')"

lemma moves_trans: "moves tab w w1 \<Longrightarrow> moves tab w1 w2 \<Longrightarrow> moves tab w w2"
  by (rule rtranclp_trans)

lemma write_moves:
  assumes "dynamo_contract ledger_step tab db" "db_Write db wr w = (w', r)" "ledger_request [wr]"
  shows "moves tab w w'"
  by (rule write_steps [OF assms(1,2)]) (use step_request [OF assms(3)] in simp)

lemma transact_moves:
  assumes "dynamo_contract ledger_step tab db" "db_Transact db tok ws w = (w', r)" "ledger_request ws"
  shows "moves tab w w'"
  by (rule transact_steps [OF assms(1,2)]) (rule step_request [OF assms(3)])

lemmas get_moves = get_steps [where others = ledger_step]
lemmas query_moves = query_steps [where others = ledger_step]
lemmas wait_moves = contract_Wait [where others = ledger_step]

lemma chunkStatus_moves:
  "dynamo_contract ledger_step tab db \<Longrightarrow> chunkStatus db j c w = (w', r) \<Longrightarrow> moves tab w w'"
  by (auto simp: chunkStatus_def split: prod.splits sum.splits option.splits dest: get_moves)

lemma jobStatus_moves:
  "dynamo_contract ledger_step tab db \<Longrightarrow> jobStatus db j w = (w', r) \<Longrightarrow> moves tab w w'"
  by (auto simp: jobStatus_def split: prod.splits sum.splits option.splits dest: get_moves)

lemma query_pages_moves:
  "dynamo_contract ledger_step tab db \<Longrightarrow> query_pages n db q st f acc w = (w', r) \<Longrightarrow> moves tab w w'"
proof (induction n db q st f acc w arbitrary: w' r rule: query_pages.induct)
  case (2 n db q st f acc w)
  obtain w1 x where q: "db_Query db q st w = (w1, x)" by (cases "db_Query db q st w")
  note m = query_moves [OF "2.prems"(1) q]
  show ?case
  proof (cases x)
    case (Inl e)
    then show ?thesis using "2.prems"(2) q m by simp
  next
    case (Inr p)
    obtain its nxt where p: "p = (its, nxt)" by (cases p)
    show ?thesis
    proof (cases "f its")
      case (Inl e)
      then show ?thesis using "2.prems"(2) q m Inr p by simp
    next
      case xs: (Inr xs)
      show ?thesis
      proof (cases "nxt = None")
        case True
        then show ?thesis using "2.prems"(2) q m Inr p xs by simp
      next
        case False
        then obtain k where k: "nxt = Some k" by blast
        then have "query_pages n db q nxt f (acc @ xs) w1 = (w', r)"
          using "2.prems"(2) q Inr p xs by simp
        with "2.IH" [OF q [symmetric] Inr p [symmetric] xs False "2.prems"(1)] m show ?thesis
          by (blast intro: moves_trans)
      qed
    qed
  qed
qed simp


lemma plan_chunks_moves:
  "dynamo_contract ledger_step tab db \<Longrightarrow> plan_chunks a db plan cs w = (w', r) \<Longrightarrow> moves tab w w'"
proof (induction a db plan cs w rule: plan_chunks.induct)
  case (2 a db plan c cs w)
  obtain w1 x where q: "db_Write db (plan_chunk_write a plan c) w = (w1, x)"
    by (cases "db_Write db (plan_chunk_write a plan c) w")
  note m = write_moves [OF "2.prems"(1) q req_plan_chunk]
  show ?case
  proof (cases x)
    case None
    with "2.prems"(2) q have "plan_chunks a db plan cs w1 = (w', r)" by simp
    with "2.IH" [OF q [symmetric] None "2.prems"(1)] m show ?thesis by (blast intro: moves_trans)
  next
    case (Some e)
    with "2.prems"(2) q m show ?thesis by simp
  qed
qed simp

lemma PlanJob_moves:
  assumes "dynamo_contract ledger_step tab db" "PlanJob a db plan chunks w = (w', r)"
  shows "moves tab w w'"
  using assms(2) write_moves [OF assms(1) _ req_plan_head] write_moves [OF assms(1) _ req_seal]
    plan_chunks_moves [OF assms(1)]
  unfolding PlanJob_def
  by (auto split: if_splits prod.splits option.splits) (meson moves_trans)+

lemma MarkChunksScheduled_moves:
  "dynamo_contract ledger_step tab db \<Longrightarrow> MarkChunksScheduled a db cs w = (w', r) \<Longrightarrow> moves tab w w'"
proof (induction cs arbitrary: w)
  case (Cons c cs)
  obtain w1 x where q: "db_Write db (scheduled_write a c (db_now db w)) w = (w1, x)"
    by (cases "db_Write db (scheduled_write a c (db_now db w)) w")
  note m = write_moves [OF Cons.prems(1) q req_scheduled]
  show ?case
    using Cons.prems(2) q m Cons.IH [OF Cons.prems(1), of w] Cons.IH [OF Cons.prems(1), of w1]
    by (auto split: if_splits option.splits intro: moves_trans)
qed simp

lemma UnscheduledChunks_moves:
  "dynamo_contract ledger_step tab db \<Longrightarrow> UnscheduledChunks n db j w = (w', r) \<Longrightarrow> moves tab w w'"
  by (auto simp: UnscheduledChunks_def split: prod.splits sum.splits dest: query_pages_moves)

lemma markJobs_moves:
  assumes "dynamo_contract ledger_step tab db" "\<And>j now. ledger_request [mark_job_write a j status message now]"
  shows "markJobs a db js status message w = (w', r) \<Longrightarrow> moves tab w w'"
proof (induction js arbitrary: w)
  case (Cons j js)
  obtain w1 x where q: "db_Write db (mark_job_write a j status message (db_now db w)) w = (w1, x)"
    by (cases "db_Write db (mark_job_write a j status message (db_now db w)) w")
  note m = write_moves [OF assms(1) q assms(2)]
  show ?case
    using Cons.prems q m Cons.IH [of w1] by (auto split: option.splits intro: moves_trans)
qed simp

lemma MarkScheduled_moves:
  "dynamo_contract ledger_step tab db \<Longrightarrow> MarkScheduled a db js w = (w', r) \<Longrightarrow> moves tab w w'"
  unfolding MarkScheduled_def by (rule markJobs_moves [OF _ req_mark_scheduled])

lemma MarkSchedulingFailed_moves:
  "dynamo_contract ledger_step tab db \<Longrightarrow> MarkSchedulingFailed a db js m w = (w', r) \<Longrightarrow> moves tab w w'"
  unfolding MarkSchedulingFailed_def by (rule markJobs_moves [OF _ req_mark_failed])

lemma StartChunk_moves:
  assumes "dynamo_contract ledger_step tab db" "StartChunk a db j c n w = (w', r)"
  shows "moves tab w w'"
  using assms(2) write_moves [OF assms(1) _ req_start] chunkStatus_moves [OF assms(1)]
  unfolding StartChunk_def
  by (auto split: if_splits prod.splits option.splits sum.splits) (meson moves_trans)+

lemma complete_loop_moves:
  assumes "dynamo_contract ledger_step tab db" "ledger_request ws"
  shows "complete_loop n db token ws retry err w = (w', r) \<Longrightarrow> moves tab w w'"
proof (induction n arbitrary: retry err w)
  case (Suc n)
  obtain w1 x where q: "db_Transact db (token retry) ws w = (w1, x)" by (cases "db_Transact db (token retry) ws w")
  obtain w2 y where d: "db_Wait db (retryDelay retry) w1 = (w2, y)" by (cases "db_Wait db (retryDelay retry) w1")
  note m = transact_moves [OF assms(1) q assms(2)] wait_moves [OF assms(1) d]
  show ?case
    using Suc.prems q d m Suc.IH [of "Suc retry" x w2] by (auto split: if_splits option.splits intro: moves_trans)
qed simp

lemma FailChunk_retry_moves:
  assumes "dynamo_contract ledger_step tab db" "cr_Attempt r < maxReceiveCount a" "FailChunk a db r w = (w', x)"
  shows "moves tab w w'"
  using assms(2,3) write_moves [OF assms(1) _ req_retry] chunkStatus_moves [OF assms(1)]
  unfolding FailChunk_def
  by (auto split: if_splits prod.splits option.splits sum.splits) (meson moves_trans)+

lemma AcquireChunk_moves:
  assumes "dynamo_contract ledger_step tab db" "AcquireChunk a db j c w = (w', r)"
  shows "moves tab w w'"
  using assms(2) write_moves [OF assms(1) _ req_acquire] chunkStatus_moves [OF assms(1)]
  unfolding AcquireChunk_def
  by (auto split: if_splits prod.splits option.splits sum.splits) (meson moves_trans)+

lemma MarkIntentDelivered_moves:
  assumes "dynamo_contract ledger_step tab db" "MarkIntentDelivered a db j n w = (w', r)"
  shows "moves tab w w'"
  using assms(2) write_moves [OF assms(1) _ req_deliver]
  unfolding MarkIntentDelivered_def
  by (auto split: if_splits prod.splits option.splits)

lemma advance_or_already_moves:
  assumes "dynamo_contract ledger_step tab db" "\<And>now. ledger_request [advance_write a j froms to reason extra now]"
    "advance_or_already a db j froms to reason extra already w = (w', r)"
  shows "moves tab w w'"
  using assms(3) write_moves [OF assms(1) _ assms(2)] jobStatus_moves [OF assms(1)]
  unfolding advance_or_already_def advanceJob_def
  by (auto split: if_splits prod.splits option.splits sum.splits) (meson moves_trans)+

lemma BeginValidation_moves:
  "dynamo_contract ledger_step tab db \<Longrightarrow> BeginValidation a db j w = (w', r) \<Longrightarrow> moves tab w w'"
  unfolding BeginValidation_def by (rule advance_or_already_moves [OF _ req_validate])

lemma RejectJob_moves:
  "dynamo_contract ledger_step tab db \<Longrightarrow> RejectJob a db j rej w = (w', r) \<Longrightarrow> moves tab w w'"
  unfolding RejectJob_def by (rule advance_or_already_moves [OF _ req_reject])

lemma BeginPlanning_moves:
  "dynamo_contract ledger_step tab db \<Longrightarrow> BeginPlanning a db j w = (w', r) \<Longrightarrow> moves tab w w'"
  unfolding BeginPlanning_def by (rule advance_or_already_moves [OF _ req_begin_planning])

lemma Admit_moves:
  assumes "dynamo_contract ledger_step tab db" "Admit a db rc w = (w', r)"
  shows "moves tab w w'"
  using assms(2) write_moves [OF assms(1) _ req_admit] write_moves [OF assms(1) _ req_reclaim] jobStatus_moves [OF assms(1)]
  unfolding Admit_def
  by (auto split: if_splits prod.splits option.splits sum.splits) (meson moves_trans)+

lemma ReplayChunks_moves:
  assumes "dynamo_contract ledger_step tab db" "ReplayChunks n a db src new ids w = (w', r)"
  shows "moves tab w w'"
  using assms(2) write_moves [OF assms(1) _ req_audit]
    query_pages_moves [OF assms(1), where f = "replayed new ids"]
  unfolding ReplayChunks_def
  by (auto split: if_splits prod.splits option.splits sum.splits) (meson moves_trans)+


text \<open>
  Finishing a job. The condition of the transaction compares the two counters with the values
  read before. That is enough: a manifest that was sealed when it was read keeps its number of
  chunks, and the other totals change only together with one of the counters.
\<close>

lemma read_is_current:
  assumes "ledger_inv t0" "ledger_step\<^sup>*\<^sup>* t0 t" "t0 (j, SK_JOB) = Some it" "ready_to_finish it"
    and "transact_ok t (finalize_writes a it j now now2)"
  shows "\<exists>cur. t (j, SK_JOB) = Some cur \<and> same_tallies it cur"
proof -
  obtain cur where cur: "t (j, SK_JOB) = Some cur"
    "cur at_completedChunks = Some (N (num_of it at_completedChunks))"
    "cur at_failedChunks = Some (N (num_of it at_failedChunks))"
    using assms(5) by (auto simp: finalize_writes_def attributeNumber_def)
  note below = job_belowD [OF steps_below [OF assms(1,2), of j]]
  have "jv_completed (view t j) = jv_completed (view t0 j)" "jv_failed (view t j) = jv_failed (view t0 j)"
    using cur assms(3) by (simp_all add: view_fields) (simp_all add: num_of_def)
  moreover have "jv_sealed (view t0 j)"
    using assms(3,4) by (simp add: view_fields ready_to_finish_def)
  ultimately have "num_of cur at_expectedChunks = num_of it at_expectedChunks"
    "num_of cur at_recordsPublished = num_of it at_recordsPublished"
    "num_of cur at_recordsRead = num_of it at_recordsRead" "num_of cur at_recordsRejected = num_of it at_recordsRejected"
    "num_of cur at_recordsIgnored = num_of it at_recordsIgnored"
    using below(7,10,11) cur(1) assms(3) by (simp_all add: view_fields num_of_def)
  then show ?thesis
    using cur(1) by (simp add: same_tallies_def tally_attrs_def)
qed

lemma finish_moves:
  assumes "dynamo_contract ledger_step tab db" "ledger_inv t0" "ledger_step\<^sup>*\<^sup>* t0 (tab w)"
    and "t0 (j, SK_JOB) = Some it" "ready_to_finish it"
    and "db_Transact db tok (finalize_writes a it j now now2) w = (w', r)"
  shows "moves tab w w'"
proof (rule transact_steps [OF assms(1,6)])
  fix t assume "ledger_step\<^sup>*\<^sup>* (tab w) t" "transact_ok t (finalize_writes a it j now now2)"
  moreover from this have "ledger_step\<^sup>*\<^sup>* t0 t" using assms(3) by auto
  ultimately show "ledger_step t (apply_writes t (finalize_writes a it j now now2))"
    using read_is_current [OF assms(2) _ assms(4,5), of t a now now2] step_finish [OF assms(5)] by blast
qed

lemma loadPendingIntent_moves:
  "dynamo_contract ledger_step tab db \<Longrightarrow> loadPendingIntent db j w = (w', r) \<Longrightarrow> moves tab w w'"
  by (auto simp: loadPendingIntent_def split: prod.splits sum.splits option.splits if_splits dest: get_moves)

text \<open>The branches of \<^verbatim>\<open>ReconcileCompletion\<close>.\<close>

lemma ReconcileCompletion_cases:
  assumes "ReconcileCompletion a db j w = (w', r)"
  obtains (read_error) e where "db_Get db (j, SK_JOB) w = (w', Inl e)" "r = Inl (ReadFailed e)"
  | (not_found) "db_Get db (j, SK_JOB) w = (w', Inr None)" "r = Inl (JobNotFound j)"
  | (over) w1 it where "db_Get db (j, SK_JOB) w = (w1, Inr (Some it))" "is_terminal_status (stringAttr it at_status)"
      "loadPendingIntent db j w1 = (w', r)"
  | (not_ready) it where "db_Get db (j, SK_JOB) w = (w', Inr (Some it))" "\<not> ready_to_finish it" "r = Inr None"
  | (won) w1 it where "db_Get db (j, SK_JOB) w = (w1, Inr (Some it))" "ready_to_finish it"
      "db_Transact db [] (finalize_writes a it j (db_now db w1) (db_now db w1)) w1 = (w', None)"
      "r = Inr (Some (fresh_intent a it j (db_now db w1)))"
  | (lost) w1 it w2 e where "db_Get db (j, SK_JOB) w = (w1, Inr (Some it))" "ready_to_finish it"
      "db_Transact db [] (finalize_writes a it j (db_now db w1) (db_now db w1)) w1 = (w2, Some e)"
      "loadPendingIntent db j w2 = (w', r)"
  | (failed) w1 it e where "db_Get db (j, SK_JOB) w = (w1, Inr (Some it))" "ready_to_finish it"
      "db_Transact db [] (finalize_writes a it j (db_now db w1) (db_now db w1)) w1 = (w', Some e)"
      "r = Inl (FinalizeFailed e)"
  using assms unfolding ReconcileCompletion_def Let_def
  by (auto split: if_splits prod.splits sum.splits option.splits)

lemma ReconcileCompletion_moves:
  assumes "dynamo_contract ledger_step tab db" "ledger_inv (tab w)" "ReconcileCompletion a db j w = (w', r)"
  shows "moves tab w w'"
proof -
  have fin: "moves tab w w2" if g: "db_Get db (j, SK_JOB) w = (w1, Inr (Some it))" and "ready_to_finish it"
    "db_Transact db [] (finalize_writes a it j (db_now db w1) (db_now db w1)) w1 = (w2, x)" for w1 w2 it x
  proof -
    obtain t0 where t0: "ledger_step\<^sup>*\<^sup>* (tab w) t0" "t0 (j, SK_JOB) = Some it" "ledger_step\<^sup>*\<^sup>* t0 (tab w1)"
      using get_value [OF assms(1) g] by metis
    have "moves tab w1 w2"
      by (rule finish_moves [OF assms(1) steps_keep_inv [OF assms(2) t0(1)] t0(3,2)]) (fact that)+
    then show ?thesis using t0 by (meson rtranclp_trans)
  qed
  show ?thesis
    using assms(3)
    by (cases rule: ReconcileCompletion_cases)
      (use get_moves [OF assms(1)] loadPendingIntent_moves [OF assms(1)] fin in \<open>blast intro: moves_trans\<close>)+
qed

lemma reconcileJob_moves:
  "dynamo_contract ledger_step tab db \<Longrightarrow> ledger_inv (tab w) \<Longrightarrow> reconcileJob a db j w = (w', r) \<Longrightarrow> moves tab w w'"
  by (auto simp: reconcileJob_def split: prod.splits sum.splits dest: ReconcileCompletion_moves)


subsection \<open>What a method's success means\<close>

text \<open>A chunk that was completed (or failed) at some time stays so.\<close>

definition chunk_is :: "table \<Rightarrow> string \<Rightarrow> string \<Rightarrow> string \<Rightarrow> bool" where
  "chunk_is t j c s \<longleftrightarrow> item_at t (j, SK_CHUNK c) at_status = Some (S s)"

lemma chunk_is_view: "chunk_is t j c s \<longleftrightarrow> (\<exists>p. jv_chunks (view t j) c = Some (Some (S s), p))"
  by (auto simp: chunk_is_def view_fields chunk_view_def item_at_def split: option.splits)

text \<open>This stability needs no invariant: no request at all writes to the status of a final chunk.\<close>

lemma job_step_chunk_final:
  "job_step j v v' \<Longrightarrow> jv_chunks v c = Some (s, p) \<Longrightarrow> final_chunk s \<Longrightarrow> jv_chunks v' c = Some (s, p)"
  by (erule job_step_cases) auto

lemma chunk_final_stable:
  assumes "ledger_step\<^sup>*\<^sup>* t t'" "chunk_is t j c s" "final_chunk (Some (S s))"
  shows "chunk_is t' j c s"
proof -
  obtain p where "jv_chunks (view t j) c = Some (Some (S s), p)" using assms(2) chunk_is_view by blast
  with assms(1) have "jv_chunks (view t' j) c = Some (Some (S s), p)"
  proof (induction rule: rtranclp_induct)
    case (step t t')
    then show ?case using job_step_chunk_final [OF ledger_step_simulation _ assms(3)] by blast
  qed simp
  then show ?thesis using chunk_is_view by blast
qed

lemma chunkStatus_value:
  assumes "dynamo_contract ledger_step tab db" "chunkStatus db j c w = (w', Inr s)" "final_chunk (Some (S s))"
  shows "chunk_is (tab w') j c s"
proof -
  have "s = JobStateCompleted \<or> s = JobStateFailed" using assms(3) by (simp add: final_chunk_def)
  then have "s \<noteq> []" by (elim disjE) simp_all
  then obtain it where g: "db_Get db (j, SK_CHUNK c) w = (w', Inr (Some it))" "s = stringAttr it at_status"
    using assms(2) by (auto simp: chunkStatus_def split: prod.splits sum.splits option.splits)
  obtain t where t: "t (j, SK_CHUNK c) = Some it" "ledger_step\<^sup>*\<^sup>* t (tab w')"
    using get_value [OF assms(1) g(1)] by metis
  have "it at_status = Some (S s)"
    using g(2) \<open>s \<noteq> []\<close> by (auto simp: stringAttr_def str_of_def split: option.splits av.splits)
  then have "chunk_is t j c s" using t(1) by (simp add: chunk_is_def)
  from chunk_final_stable [OF t(2) this assms(3)] show ?thesis .
qed

lemma complete_writes_effect:
  assumes "transact_ok t (complete_chunk_writes a r)"
  shows "chunk_is (apply_writes t (complete_chunk_writes a r)) (cr_JobID r) (cr_ChunkID r) ChunkStateCompleted"
  by (simp add: complete_chunk_writes_def Let_def chunk_is_def acts_item_at act_rules)

lemma fail_writes_effect:
  "chunk_is (apply_writes t (fail_chunk_writes a r)) (cr_JobID r) (cr_ChunkID r) ChunkStateFailed"
  by (simp add: fail_chunk_writes_def chunk_is_def acts_item_at act_rules)

lemma complete_loop_applied:
  assumes "dynamo_contract ledger_step tab db"
  shows "complete_loop n db token ws retry err w = (w', Inr None) \<Longrightarrow> n \<noteq> 0 \<or> err \<noteq> None
    \<Longrightarrow> \<exists>t. transact_ok t ws \<and> ledger_step\<^sup>*\<^sup>* (apply_writes t ws) (tab w')"
proof (induction n arbitrary: retry err w)
  case (Suc n)
  obtain w1 x where q: "db_Transact db (token retry) ws w = (w1, x)" by (cases "db_Transact db (token retry) ws w")
  obtain w2 y where d: "db_Wait db (retryDelay retry) w1 = (w2, y)" by (cases "db_Wait db (retryDelay retry) w1")
  show ?case
  proof (cases x)
    case None
    then have "w' = w1" using Suc.prems(1) q by simp
    then show ?thesis using transact_applied [OF assms q [unfolded None]] by metis
  next
    case (Some e)
    then show ?thesis
      using Suc.prems(1) q d Suc.IH [of "Suc retry" x w2] by (auto split: if_splits option.splits)
  qed
qed simp

lemma CompleteChunk_cases:
  assumes "CompleteChunk a db r w = (w', x)"
  obtains (read_error) e where "chunkStatus db (cr_JobID r) (cr_ChunkID r) w = (w', Inl e)" "x = Some (ReadFailed e)"
  | (already) "chunkStatus db (cr_JobID r) (cr_ChunkID r) w = (w', Inr ChunkStateCompleted)" "x = None"
  | (interrupted) w1 s e where "chunkStatus db (cr_JobID r) (cr_ChunkID r) w = (w1, Inr s)"
      "complete_loop 8 db (completeChunkToken (cr_JobID r) (cr_ChunkID r) (cr_Attempt r))
         (complete_chunk_writes a r) 0 None w1 = (w', Inl e)" "x = Some (Interrupted e)"
  | (failed) w1 s w2 e s' where "chunkStatus db (cr_JobID r) (cr_ChunkID r) w = (w1, Inr s)"
      "complete_loop 8 db (completeChunkToken (cr_JobID r) (cr_ChunkID r) (cr_Attempt r))
         (complete_chunk_writes a r) 0 None w1 = (w2, Inr (Some e))"
      "chunkStatus db (cr_JobID r) (cr_ChunkID r) w2 = (w', s')" "x = (if s' = Inr ChunkStateCompleted then None else Some (DbFailed e))"
  | (committed) w1 s w2 where "chunkStatus db (cr_JobID r) (cr_ChunkID r) w = (w1, Inr s)"
      "complete_loop 8 db (completeChunkToken (cr_JobID r) (cr_ChunkID r) (cr_Attempt r))
         (complete_chunk_writes a r) 0 None w1 = (w2, Inr None)"
      "reconcileJob a db (cr_JobID r) w2 = (w', x)"
  using assms unfolding CompleteChunk_def
  by (auto split: if_splits prod.splits sum.splits option.splits)


lemma CompleteChunk_moves:
  assumes "dynamo_contract ledger_step tab db" "ledger_inv (tab w)" "CompleteChunk a db r w = (w', x)"
  shows "moves tab w w'"
proof -
  note cs = chunkStatus_moves [OF assms(1)] and cl = complete_loop_moves [OF assms(1) req_complete]
  show ?thesis
    using assms(3)
  proof (cases rule: CompleteChunk_cases)
    case (committed w1 s w2)
    then have "moves tab w w2" using cs cl by (blast intro: moves_trans)
    with reconcileJob_moves [OF assms(1) _ committed(3)] steps_keep_inv [OF assms(2)] show ?thesis
      by (blast intro: moves_trans)
  qed (use cs cl in \<open>blast intro: moves_trans\<close>)+
qed

lemma CompleteChunk_sound:
  assumes "dynamo_contract ledger_step tab db" "ledger_inv (tab w)" "CompleteChunk a db r w = (w', None)"
  shows "chunk_is (tab w') (cr_JobID r) (cr_ChunkID r) ChunkStateCompleted"
  using assms(3)
proof (cases rule: CompleteChunk_cases)
  case already
  then show ?thesis using chunkStatus_value [OF assms(1), of _ _ _ _ ChunkStateCompleted] by simp
next
  case (failed w1 s w2 e s')
  then have "s' = Inr ChunkStateCompleted" by (simp split: if_splits)
  with failed(3) show ?thesis using chunkStatus_value [OF assms(1), of _ _ _ _ ChunkStateCompleted] by simp
next
  case (committed w1 s w2)
  obtain t where t: "transact_ok t (complete_chunk_writes a r)"
    "ledger_step\<^sup>*\<^sup>* (apply_writes t (complete_chunk_writes a r)) (tab w2)"
    using complete_loop_applied [OF assms(1) committed(2)] by auto
  have "ledger_inv (tab w2)"
    using chunkStatus_moves [OF assms(1) committed(1)] complete_loop_moves [OF assms(1) req_complete committed(2)]
      steps_keep_inv [OF assms(2)] by (blast intro: moves_trans)
  from reconcileJob_moves [OF assms(1) this committed(3)] t(2)
  have "ledger_step\<^sup>*\<^sup>* (apply_writes t (complete_chunk_writes a r)) (tab w')" by simp
  from chunk_final_stable [OF this complete_writes_effect [OF t(1)]] show ?thesis by simp
qed simp_all

lemma FailChunk_cases:
  assumes "FailChunk a db r w = (w', x)" "\<not> cr_Attempt r < maxReceiveCount a"
  obtains (read_error) e where "chunkStatus db (cr_JobID r) (cr_ChunkID r) w = (w', Inl e)" "x = Some (ReadFailed e)"
  | (already) s where "chunkStatus db (cr_JobID r) (cr_ChunkID r) w = (w', Inr s)" "terminal_chunk s" "x = None"
  | (failed) w1 s w2 e s' where "chunkStatus db (cr_JobID r) (cr_ChunkID r) w = (w1, Inr s)"
      "db_Transact db [] (fail_chunk_writes a r) w1 = (w2, Some e)"
      "chunkStatus db (cr_JobID r) (cr_ChunkID r) w2 = (w', s')"
      "x = (if \<exists>st. s' = Inr st \<and> terminal_chunk st then None else Some (DbFailed e))"
  | (committed) w1 s w2 where "chunkStatus db (cr_JobID r) (cr_ChunkID r) w = (w1, Inr s)"
      "db_Transact db [] (fail_chunk_writes a r) w1 = (w2, None)"
      "reconcileJob a db (cr_JobID r) w2 = (w', x)"
  using assms unfolding FailChunk_def
  by (auto split: if_splits prod.splits sum.splits option.splits)

lemma FailChunk_moves:
  assumes "dynamo_contract ledger_step tab db" "ledger_inv (tab w)" "FailChunk a db r w = (w', x)"
  shows "moves tab w w'"
proof (cases "cr_Attempt r < maxReceiveCount a")
  case True
  then show ?thesis using FailChunk_retry_moves [OF assms(1) True assms(3)] by simp
next
  case False
  note cs = chunkStatus_moves [OF assms(1)] and tr = transact_moves [OF assms(1) _ req_fail]
  show ?thesis
    using assms(3) False
  proof (cases rule: FailChunk_cases)
    case (committed w1 s w2)
    then have "moves tab w w2" using cs tr by (blast intro: moves_trans)
    with reconcileJob_moves [OF assms(1) _ committed(3)] steps_keep_inv [OF assms(2)] show ?thesis
      by (blast intro: moves_trans)
  qed (use cs tr in \<open>blast intro: moves_trans\<close>)+
qed

lemma terminal_final: "terminal_chunk s \<Longrightarrow> final_chunk (Some (S s))"
  by (auto simp: terminal_chunk_def)

lemma FailChunk_last_sound:
  assumes "dynamo_contract ledger_step tab db" "ledger_inv (tab w)" "FailChunk a db r w = (w', None)"
    and "maxReceiveCount a \<le> cr_Attempt r"
  shows "\<exists>s. terminal_chunk s \<and> chunk_is (tab w') (cr_JobID r) (cr_ChunkID r) s"
proof -
  have "\<not> cr_Attempt r < maxReceiveCount a" using assms(4) by simp
  from assms(3) this show ?thesis
  proof (cases rule: FailChunk_cases)
    case (already s)
    then show ?thesis using chunkStatus_value [OF assms(1) already(1) terminal_final] by blast
  next
    case (failed w1 s w2 e s')
    then obtain st where st: "s' = Inr st" "terminal_chunk st" by (auto split: if_splits)
    from chunkStatus_value [OF assms(1) failed(3) [unfolded st(1)] terminal_final [OF st(2)]] st(2)
    show ?thesis by blast
  next
    case (committed w1 s w2)
    obtain t where t: "ledger_step\<^sup>*\<^sup>* (apply_writes t (fail_chunk_writes a r)) (tab w2)"
      using transact_applied [OF assms(1) committed(2)] by metis
    have "ledger_inv (tab w2)"
      using chunkStatus_moves [OF assms(1) committed(1)] transact_moves [OF assms(1) committed(2) req_fail]
        steps_keep_inv [OF assms(2)] by (blast intro: moves_trans)
    from reconcileJob_moves [OF assms(1) this committed(3)] t
    have "ledger_step\<^sup>*\<^sup>* (apply_writes t (fail_chunk_writes a r)) (tab w')" by simp
    from chunk_final_stable [OF this fail_writes_effect] show ?thesis
      by (auto simp: terminal_chunk_def)
  qed simp
qed

end
