(* ===== verification/Ledger_Props.thy ===== *)
theory Ledger_Props
  imports Ledger_Invariants
begin

section \<open>Properties of the ledger\<close>

text \<open>
  The properties of the ledger as a whole, for any number of processes calling any methods in
  any order on a shared table (\<open>ledger_call\<close>), and a concrete life of a job on the concrete
  table \<open>map_db\<close>, from admission to the completion intent, on which they are exercised.
\<close>

subsection \<open>Any sequence of calls\<close>

datatype ledger_call =
    C_Admit Receipt
  | C_BeginValidation string
  | C_RejectJob string Rejection
  | C_BeginPlanning string
  | C_Plan JobPlan "ChunkJob list"
  | C_MarkChunksScheduled "ChunkJob list"
  | C_UnscheduledChunks string
  | C_MarkScheduled "string list"
  | C_MarkSchedulingFailed "string list" string
  | C_AcquireChunk string string
  | C_StartChunk string string int
  | C_CompleteChunk ChunkResult
  | C_FailChunk ChunkResult
  | C_ReconcileCompletion string
  | C_MarkIntentDelivered string int64
  | C_Replay string string "string list"

fun run_call :: "nat \<Rightarrow> AWS \<Rightarrow> 'w dynamo \<Rightarrow> ledger_call \<Rightarrow> 'w \<Rightarrow> 'w" where
  "run_call n a db (C_Admit rc) w = fst (Admit a db rc w)"
| "run_call n a db (C_BeginValidation j) w = fst (BeginValidation a db j w)"
| "run_call n a db (C_RejectJob j r) w = fst (RejectJob a db j r w)"
| "run_call n a db (C_BeginPlanning j) w = fst (BeginPlanning a db j w)"
| "run_call n a db (C_Plan p cs) w = fst (PlanJob a db p cs w)"
| "run_call n a db (C_MarkChunksScheduled cs) w = fst (MarkChunksScheduled a db cs w)"
| "run_call n a db (C_UnscheduledChunks j) w = fst (UnscheduledChunks n db j w)"
| "run_call n a db (C_MarkScheduled js) w = fst (MarkScheduled a db js w)"
| "run_call n a db (C_MarkSchedulingFailed js m) w = fst (MarkSchedulingFailed a db js m w)"
| "run_call n a db (C_AcquireChunk j c) w = fst (AcquireChunk a db j c w)"
| "run_call n a db (C_StartChunk j c k) w = fst (StartChunk a db j c k w)"
| "run_call n a db (C_CompleteChunk r) w = fst (CompleteChunk a db r w)"
| "run_call n a db (C_FailChunk r) w = fst (FailChunk a db r w)"
| "run_call n a db (C_ReconcileCompletion j) w = fst (ReconcileCompletion a db j w)"
| "run_call n a db (C_MarkIntentDelivered j v) w = fst (MarkIntentDelivered a db j v w)"
| "run_call n a db (C_Replay s t ids) w = fst (ReplayChunks n a db s t ids w)"

definition run_calls :: "nat \<Rightarrow> AWS \<Rightarrow> 'w dynamo \<Rightarrow> ledger_call list \<Rightarrow> 'w \<Rightarrow> 'w" where
  "run_calls n a db cs w = fold (run_call n a db) cs w"

lemma fst_moves: "(\<And>w' r. m = (w', r) \<Longrightarrow> moves tab w w') \<Longrightarrow> moves tab w (fst m)"
  by (cases m) simp

lemmas method_moves = Admit_moves BeginValidation_moves RejectJob_moves BeginPlanning_moves PlanJob_moves
  MarkChunksScheduled_moves UnscheduledChunks_moves MarkScheduled_moves MarkSchedulingFailed_moves AcquireChunk_moves
  StartChunk_moves MarkIntentDelivered_moves ReplayChunks_moves

lemma run_call_moves:
  assumes "dynamo_contract ledger_step tab db" "ledger_inv (tab w)"
  shows "moves tab w (run_call n a db c w)"
  by (cases c)
    (auto intro!: fst_moves intro: method_moves [OF assms(1)] CompleteChunk_moves [OF assms] FailChunk_moves [OF assms]
      ReconcileCompletion_moves [OF assms])

lemma run_calls_moves:
  assumes "dynamo_contract ledger_step tab db"
  shows "ledger_inv (tab w) \<Longrightarrow> moves tab w (run_calls n a db cs w)"
  unfolding run_calls_def
proof (induction cs arbitrary: w)
  case (Cons c cs)
  have m: "moves tab w (run_call n a db c w)" by (rule run_call_moves [OF assms Cons.prems])
  from Cons.IH [OF steps_keep_inv [OF Cons.prems m]] m show ?case
    by (simp add: moves_trans)
qed simp

subsection \<open>A concrete life of a job\<close>

definition sample_aws :: AWS where
  "sample_aws = \<lparr>aws_LedgerTable = ''t'', aws_MaxReceiveCount = 3, aws_LedgerRetentionDays = 90,
     aws_format = format_int, aws_parse = (\<lambda>s. None)\<rparr>"

definition sample_receipt :: Receipt where
  "sample_receipt = \<lparr>rc_ReceiptID = ''r'', rc_FileID = ''f'',
     rc_Source = \<lparr>oi_Bucket = ''b'', oi_Key = ''k'', oi_VersionID = [], oi_ETag = ''e'', oi_Size = 10\<rparr>,
     rc_Environment = ''test'', rc_ReceivedAt = 0, rc_ConfigSnapshot = zero_ConfigurationSnapshot, rc_PrefixID = []\<rparr>"

definition sample_plan :: JobPlan where
  "sample_plan = \<lparr>jp_JobID = ''f'', jp_FileID = ''f'', jp_Bucket = ''b'', jp_Key = ''k'', jp_VersionID = [],
     jp_ETag = ''e'', jp_FileSize = 10, jp_ExpectedChunks = 1, jp_CreatedAt = 0,
     jp_ConfigSnapshot = zero_ConfigurationSnapshot\<rparr>"

definition sample_chunk :: ChunkJob where
  "sample_chunk = zero_ChunkJob\<lparr>cj_JobID := ''f'', cj_ChunkID := ''00000001'', cj_EndByteInclusive := 9\<rparr>"

definition sample_result :: ChunkResult where
  "sample_result = \<lparr>cr_JobID = ''f'', cr_ChunkID = ''00000001'', cr_Attempt = 1, cr_RecordsProduced = 2,
     cr_BytesProcessed = 10, cr_Error = [], cr_OccurredAt = 0, cr_Counts = zero_Counts\<rparr>"

definition planned_world :: store where
  "planned_world = run_calls 1 sample_aws map_db
     [C_Admit sample_receipt, C_BeginValidation ''f'', C_BeginPlanning ''f'', C_Plan sample_plan [sample_chunk]] []"

definition running_world :: store where
  "running_world = run_call 1 sample_aws map_db (C_StartChunk ''f'' ''00000001'' 1) planned_world"

definition counted_world :: store where
  "counted_world = fst (db_Transact map_db [] (complete_chunk_writes sample_aws sample_result) running_world)"

definition finished_world :: store where
  "finished_world = run_call 1 sample_aws map_db (C_CompleteChunk sample_result) running_world"

lemma sample_contract: "dynamo_contract ledger_step map_of map_db"
  by (rule map_db_contract)

lemma empty_reachable: "ledger_inv (map_of ([] :: store))"
  using ledger.init_inv [of "\<lambda>_. None"] by (simp add: empty_table_def)

lemma planned_reachable: "ledger_step\<^sup>*\<^sup>* (\<lambda>_. None) (map_of planned_world)"
  using run_calls_moves [OF sample_contract empty_reachable] unfolding planned_world_def by simp

lemma call_reachable:
  assumes "ledger_step\<^sup>*\<^sup>* (\<lambda>_. None) (map_of w)"
  shows "ledger_step\<^sup>*\<^sup>* (\<lambda>_. None) (map_of (run_call n a map_db c w))"
  using assms run_call_moves [OF sample_contract reachable_ledger_inv [OF assms]] by (rule rtranclp_trans)

lemma finished_reachable: "ledger_step\<^sup>*\<^sup>* (\<lambda>_. None) (map_of finished_world)"
  unfolding finished_world_def running_world_def by (intro call_reachable planned_reachable)

text \<open>The reads on the way, evaluated.\<close>

lemma planned_status: "snd (jobStatus map_db ''f'' planned_world) = Inr JobPending"
  by code_simp

lemma running_status: "chunkStatus map_db ''f'' ''00000001'' running_world = (running_world, Inr ChunkStateRunning)"
proof -
  have "fst (chunkStatus map_db j c w) = w" for j c w
    by (simp add: chunkStatus_def map_db_def split: option.splits)
  moreover have "snd (chunkStatus map_db ''f'' ''00000001'' running_world) = Inr ChunkStateRunning"
    by code_simp
  ultimately show ?thesis by (simp add: prod_eq_iff)
qed

lemma counted_ok: "db_Transact map_db tok (complete_chunk_writes sample_aws sample_result) running_world = (counted_world, None)"
proof -
  have "transact_ok (map_of running_world) (complete_chunk_writes sample_aws sample_result)"
    by code_simp
  then show ?thesis by (simp add: counted_world_def map_db_def)
qed

lemma counted_item:
  "\<exists>it. map_of counted_world (''f'', SK_JOB) = Some it \<and> it at_status = Some (S JobRunning)
     \<and> it at_manifestSealed = Some (BOOL True) \<and> it at_expectedChunks = Some (N 1)
     \<and> it at_completedChunks = Some (N 1) \<and> it at_failedChunks = Some (N 0) \<and> it at_recordsPublished = Some (N 2)"
proof -
  have "(case map_of counted_world (''f'', SK_JOB) of None \<Rightarrow> False | Some it \<Rightarrow> it at_status = Some (S JobRunning)
     \<and> it at_manifestSealed = Some (BOOL True) \<and> it at_expectedChunks = Some (N 1)
     \<and> it at_completedChunks = Some (N 1) \<and> it at_failedChunks = Some (N 0) \<and> it at_recordsPublished = Some (N 2))"
    by code_simp
  then show ?thesis by (auto split: option.splits)
qed


lemma counted_no_intent: "map_of counted_world (''f'', SK_INTENT 1) = None"
  by code_simp

lemma finished_finalized:
  "\<exists>it. map_of counted_world (''f'', SK_JOB) = Some it \<and> ready_to_finish it
     \<and> map_of finished_world = apply_writes (map_of counted_world) (finalize_writes sample_aws it ''f'' 0 0)
     \<and> db_Transact map_db [] (finalize_writes sample_aws it ''f'' 0 0) counted_world = (finished_world, None)
     \<and> CompleteChunk sample_aws map_db sample_result running_world = (finished_world, None)"
proof -
  obtain it where it: "map_of counted_world (''f'', SK_JOB) = Some it" "it at_status = Some (S JobRunning)"
    "it at_manifestSealed = Some (BOOL True)" "it at_expectedChunks = Some (N 1)"
    "it at_completedChunks = Some (N 1)" "it at_failedChunks = Some (N 0)"
    using counted_item by blast
  have nums: "attributeNumber it at_completedChunks = 1" "attributeNumber it at_failedChunks = 0"
    "attributeNumber it at_expectedChunks = 1"
    using it by (simp_all add: attributeNumber_def num_of_def)
  have ready: "ready_to_finish it" using it nums by (simp add: ready_to_finish_def)
  have nt: "\<not> is_terminal_status (stringAttr it at_status)"
    using it by (simp add: is_terminal_status_def stringAttr_def str_of_def)
  have ok: "transact_ok (map_of counted_world) (finalize_writes sample_aws it ''f'' 0 0)"
    using it nums counted_no_intent by (simp add: finalize_writes_def active_cond_Some active_job_def)
  obtain wf where t: "db_Transact map_db [] (finalize_writes sample_aws it ''f'' 0 0) counted_world = (wf, None)"
    and m: "map_of wf = apply_writes (map_of counted_world) (finalize_writes sample_aws it ''f'' 0 0)"
    using ok by (simp add: map_db_def map_of_writes)
  have get: "db_Get map_db (''f'', SK_JOB) counted_world = (counted_world, Inr (Some it))"
    using it by (simp add: map_db_def)
  have now: "db_now map_db counted_world = 0" by (simp add: map_db_def)
  have r: "ReconcileCompletion sample_aws map_db ''f'' counted_world = (wf, Inr (Some (fresh_intent sample_aws it ''f'' 0)))"
    unfolding ReconcileCompletion_def by (simp add: get nt ready now t Let_def)
  have ids: "cr_JobID sample_result = ''f''" "cr_ChunkID sample_result = ''00000001''"
    by (simp_all add: sample_result_def)
  have loop: "complete_loop 8 map_db tok (complete_chunk_writes sample_aws sample_result) 0 None running_world
      = (counted_world, Inr None)" for tok
    by (simp add: numeral_eq_Suc counted_ok)
  have c: "CompleteChunk sample_aws map_db sample_result running_world = (wf, None)"
    unfolding CompleteChunk_def ids running_status by (simp add: loop reconcileJob_def r)
  then have "finished_world = wf" by (simp add: finished_world_def)
  with c m t it(1) ready show ?thesis by blast
qed

lemma finished_transaction:
  "map_of counted_world (''f'', SK_JOB) = Some it
    \<Longrightarrow> db_Transact map_db [] (finalize_writes sample_aws it ''f'' 0 0) counted_world = (finished_world, None)"
  using finished_finalized by auto

lemma finished_facts:
  "item_at (map_of finished_world) (''f'', SK_JOB) at_status = Some (S JobCompleted)"
  "chunk_is (map_of finished_world) ''f'' ''00000001'' ChunkStateCompleted"
proof -
  obtain it where it: "map_of counted_world (''f'', SK_JOB) = Some it" "ready_to_finish it"
    and m: "map_of finished_world = apply_writes (map_of counted_world) (finalize_writes sample_aws it ''f'' 0 0)"
    and c: "CompleteChunk sample_aws map_db sample_result running_world = (finished_world, None)"
    using finished_finalized by blast
  have "attributeNumber it at_failedChunks = 0"
    using counted_item it(1) by (auto simp: attributeNumber_def num_of_def)
  then show "item_at (map_of finished_world) (''f'', SK_JOB) at_status = Some (S JobCompleted)"
    unfolding m finalize_writes_def by (simp add: acts_item_at act_rules final_status_def)
  have "ledger_inv (map_of running_world)"
    unfolding running_world_def by (intro reachable_ledger_inv call_reachable planned_reachable)
  from CompleteChunk_sound [OF sample_contract this c]
  show "chunk_is (map_of finished_world) ''f'' ''00000001'' ChunkStateCompleted"
    by (simp add: sample_result_def)
qed

subsection \<open>Properties\<close>

text \<open>
  C9. The ledger keeps its books: whatever processes call whatever methods, the counters of a job
  item are at every moment exactly the number of its chunk items that are COMPLETED and FAILED,
  and its published total is the sum of the records the completed chunks published.
\<close>

theorem job_counters_are_tallies:
  assumes "ledger_step\<^sup>*\<^sup>* (\<lambda>_. None) t"
  shows "num_of (item_at t (j, SK_JOB)) at_completedChunks = int (card {c. chunk_is t j c ChunkStateCompleted})
    \<and> num_of (item_at t (j, SK_JOB)) at_failedChunks = int (card {c. chunk_is t j c ChunkStateFailed})
    \<and> num_of (item_at t (j, SK_JOB)) at_recordsPublished
        = (\<Sum>c | chunk_is t j c ChunkStateCompleted. num_of (item_at t (j, SK_CHUNK c)) at_recordsProduced)"
proof -
  have "tallies (view t j)"
    using reachable_ledger_inv [OF assms] by (simp add: ledger_inv_def job_inv_def)
  moreover have "completed_chunks (view t j) = {c. chunk_is t j c ChunkStateCompleted}"
    "failed_chunks (view t j) = {c. chunk_is t j c ChunkStateFailed}"
    by (auto simp: completed_chunks_def failed_chunks_def chunk_is_view)
  moreover have "chunk_published (view t j) c = num_of (item_at t (j, SK_CHUNK c)) at_recordsProduced"
    if "chunk_is t j c ChunkStateCompleted" for c
    using that by (auto simp: chunk_published_def view_fields chunk_is_def chunk_view_def item_at_def split: option.splits)
  ultimately show ?thesis
    by (simp add: tallies_def view_fields)
qed

theorem job_counters_are_tallies_witness:
  "num_of (item_at (map_of finished_world) (''f'', SK_JOB)) at_completedChunks
      = int (card {c. chunk_is (map_of finished_world) ''f'' c ChunkStateCompleted})
    \<and> chunk_is (map_of finished_world) ''f'' ''00000001'' ChunkStateCompleted"
  using job_counters_are_tallies [OF finished_reachable, of "''f''"] finished_facts(2) by simp

text \<open>
  C10. Exactly the finished jobs have a completion intent: the intent exists if and only if the job
  is COMPLETED or FAILED. Then the manifest is sealed, every expected chunk has ended, the job is
  FAILED exactly if some chunk failed, and the intent carries the deterministic event identity,
  the status and the totals of the job.
\<close>

theorem finished_jobs_have_their_intent:
  assumes "ledger_step\<^sup>*\<^sup>* (\<lambda>_. None) t"
  shows "(t (j, SK_INTENT 1) \<noteq> None \<longleftrightarrow> final_job (item_at t (j, SK_JOB) at_status))
    \<and> (final_job (item_at t (j, SK_JOB) at_status) \<longrightarrow> finished j (view t j))"
proof -
  have inv: "job_inv j (view t j)"
    using reachable_ledger_inv [OF assms] by (simp add: ledger_inv_def)
  then have "finished j (view t j)" if "final_job (item_at t (j, SK_JOB) at_status)"
    using that by (simp add: job_inv_def view_fields)
  moreover have "t (j, SK_INTENT 1) = None" if "\<not> final_job (item_at t (j, SK_JOB) at_status)"
    using that inv by (simp add: job_inv_def view_fields)
  moreover have "t (j, SK_INTENT 1) \<noteq> None" if "finished j (view t j)"
    using that by (auto simp: finished_def view_fields)
  ultimately show ?thesis
    by (cases "final_job (item_at t (j, SK_JOB) at_status)") simp_all
qed

theorem finished_jobs_have_their_intent_witness:
  "map_of finished_world (''f'', SK_INTENT 1) \<noteq> None \<and> finished ''f'' (view (map_of finished_world) ''f'')"
  using finished_jobs_have_their_intent [OF finished_reachable, of "''f''"] finished_facts(1) by simp






text \<open>
  C13. A confirmed completion is durable: when \<^verbatim>\<open>CompleteChunk\<close> returns no error the chunk is COMPLETED
  in the table, and when the last permitted attempt of \<^verbatim>\<open>FailChunk\<close> returns no error the chunk is
  COMPLETED or FAILED, also when the error paths were taken, the service failed in between, or
  another Worker had ended the chunk first.
\<close>

theorem acknowledged_chunks_are_final:
  assumes "dynamo_contract ledger_step tab db" "ledger_step\<^sup>*\<^sup>* (\<lambda>_. None) (tab w)"
  shows "(CompleteChunk a db r w = (w', None) \<longrightarrow> chunk_is (tab w') (cr_JobID r) (cr_ChunkID r) ChunkStateCompleted)
    \<and> (FailChunk a db r w = (w', None) \<longrightarrow> maxReceiveCount a \<le> cr_Attempt r
        \<longrightarrow> (\<exists>s. terminal_chunk s \<and> chunk_is (tab w') (cr_JobID r) (cr_ChunkID r) s))"
  using CompleteChunk_sound [OF assms(1) reachable_ledger_inv [OF assms(2)]]
    FailChunk_last_sound [OF assms(1) reachable_ledger_inv [OF assms(2)]] by blast

lemma running_world_reachable: "ledger_step\<^sup>*\<^sup>* (\<lambda>_. None) (map_of running_world)"
  unfolding running_world_def by (intro call_reachable planned_reachable)

theorem acknowledged_chunks_are_final_witness:
  "CompleteChunk sample_aws map_db sample_result running_world = (finished_world, None)
    \<and> chunk_is (map_of finished_world) (cr_JobID sample_result) (cr_ChunkID sample_result) ChunkStateCompleted"
  using acknowledged_chunks_are_final [OF sample_contract running_world_reachable, of sample_aws sample_result finished_world]
    finished_finalized by blast


text \<open>An intent, once written, stays: no request overwrites it.\<close>

definition intent_is :: "table \<Rightarrow> string \<Rightarrow> CompletionIntent \<Rightarrow> bool" where
  "intent_is t j i \<longleftrightarrow> jv_intent (view t j) = Some (Some (J (JIntent i)))"

lemma job_step_intent: "job_step j v v' \<Longrightarrow> jv_intent v = Some x \<Longrightarrow> jv_intent v' = Some x"
  by (erule job_step_cases) auto

lemma intent_stable: "ledger_step\<^sup>*\<^sup>* t t' \<Longrightarrow> intent_is t j i \<Longrightarrow> intent_is t' j i"
  unfolding intent_is_def
  by (induction rule: rtranclp_induct) (use job_step_intent ledger_step_simulation in blast)+

fun_cases intent_payload_Inr: "intent_payload j v = Inr i"

lemma loadPendingIntent_value:
  assumes "dynamo_contract ledger_step tab db" "loadPendingIntent db j w = (w', Inr (Some i))"
  shows "intent_is (tab w') j i"
proof -
  obtain it where g: "db_Get db (j, SK_INTENT 1) w = (w', Inr (Some it))" "intent_payload j (it at_payload) = Inr i"
    using assms(2) unfolding loadPendingIntent_def
    by (simp split: prod.splits sum.splits option.splits if_splits)
  then have "it at_payload = Some (J (JIntent i))"
    by (elim intent_payload_Inr) simp
  moreover obtain t where t: "t (j, SK_INTENT 1) = Some it" "ledger_step\<^sup>*\<^sup>* t (tab w')"
    using get_value [OF assms(1) g(1)] by metis
  ultimately have "intent_is t j i"
    by (simp add: intent_is_def view_fields)
  then show ?thesis by (rule intent_stable [OF t(2)])
qed

lemma finalize_intent: "intent_is (apply_writes t (finalize_writes a it j now now2)) j (fresh_intent a it j now)"
  by (simp add: intent_is_def finalize_writes_def view_fields)

lemma ReconcileCompletion_value:
  assumes "dynamo_contract ledger_step tab db" "ReconcileCompletion a db j w = (w', Inr (Some i))"
  shows "intent_is (tab w') j i"
  using assms(2)
proof (cases rule: ReconcileCompletion_cases)
  case (over w1 it)
  then show ?thesis using loadPendingIntent_value [OF assms(1)] by blast
next
  case (won w1 it)
  obtain t where "ledger_step\<^sup>*\<^sup>* (apply_writes t (finalize_writes a it j (db_now db w1) (db_now db w1))) (tab w')"
    using transact_applied [OF assms(1) won(3)] by metis
  from intent_stable [OF this finalize_intent] won(4) show ?thesis by simp
next
  case (lost w1 it w2 e)
  then show ?thesis using loadPendingIntent_value [OF assms(1)] by blast
qed simp_all

text \<open>
  C14. Retries and competing Workers cannot mint another completion event: any two calls of
  \<^verbatim>\<open>ReconcileCompletion\<close> for one job that hand out an intent, by any two processes at any two times,
  hand out the same intent.
\<close>

theorem one_intent_per_job:
  assumes "dynamo_contract ledger_step tab db" "dynamo_contract ledger_step tab' db'"
    and "ReconcileCompletion a db j w = (w1, Inr (Some i))" "ReconcileCompletion a' db' j v = (v1, Inr (Some i'))"
    and "ledger_step\<^sup>*\<^sup>* (tab w1) (tab' v1)"
  shows "i = i'"
  using intent_stable [OF assms(5) ReconcileCompletion_value [OF assms(1,3)]] ReconcileCompletion_value [OF assms(2,4)]
  by (simp add: intent_is_def)

lemma finished_intent:
  "map_of finished_world (''f'', SK_INTENT 1) \<noteq> None
    \<and> (\<exists>i. loadPendingIntent map_db ''f'' finished_world = (finished_world, Inr (Some i)))"
proof -
  obtain it where it: "map_of counted_world (''f'', SK_JOB) = Some it"
    and m: "map_of finished_world = apply_writes (map_of counted_world) (finalize_writes sample_aws it ''f'' 0 0)"
    using finished_finalized by blast
  obtain p where int: "map_of finished_world (''f'', SK_INTENT 1) = Some p" "p at_intentPending = Some (S intentPendingMarker)"
    "p at_payload = Some (J (JIntent (fresh_intent sample_aws it ''f'' 0)))"
    unfolding m finalize_writes_def by simp
  then show ?thesis by (simp add: loadPendingIntent_def map_db_def)
qed

lemma finished_reconcile:
  "\<exists>i. ReconcileCompletion sample_aws map_db ''f'' finished_world = (finished_world, Inr (Some i))"
proof -
  obtain i where load: "loadPendingIntent map_db ''f'' finished_world = (finished_world, Inr (Some i))"
    using finished_intent by blast
  have st: "item_at (map_of finished_world) (''f'', SK_JOB) at_status = Some (S JobCompleted)"
    by (rule finished_facts)
  then obtain cur where "map_of finished_world (''f'', SK_JOB) = Some cur" "cur at_status = Some (S JobCompleted)"
    by (cases "map_of finished_world (''f'', SK_JOB)") simp_all
  then have get: "db_Get map_db (''f'', SK_JOB) finished_world = (finished_world, Inr (Some cur))"
    and over: "is_terminal_status (stringAttr cur at_status)"
    by (simp_all add: map_db_def is_terminal_status_def stringAttr_def str_of_def)
  have "ReconcileCompletion sample_aws map_db ''f'' finished_world = (finished_world, Inr (Some i))"
    unfolding ReconcileCompletion_def by (simp add: get over load)
  then show ?thesis ..
qed

theorem one_intent_per_job_witness:
  "\<exists>!i. ReconcileCompletion sample_aws map_db ''f'' finished_world = (finished_world, Inr (Some i))"
proof -
  obtain i where i: "ReconcileCompletion sample_aws map_db ''f'' finished_world = (finished_world, Inr (Some i))"
    using finished_reconcile by blast
  moreover from one_intent_per_job [OF sample_contract sample_contract i]
  have "i' = i" if "ReconcileCompletion sample_aws map_db ''f'' finished_world = (finished_world, Inr (Some i'))" for i'
    using that by simp
  ultimately show ?thesis by blast
qed

end
