(* ===== verification/Ledger_Behaviour.thy ===== *)
theory Ledger_Behaviour
  imports Ledger_Props
begin

section \<open>How single methods of the ledger behave\<close>

text \<open>
  Starting a chunk, admitting a file, racing for the completion, and replaying: what the
  methods return in the situations their comments talk about, including the four where the
  code does something else than its comment says.
\<close>

subsection \<open>Starting a chunk\<close>

lemma StartChunk_started:
  assumes "StartChunk a db j c n w = (w', None)"
  shows "db_Write db (start_chunk_write a j c n (db_now db w)) w = (w', None)"
  using assms unfolding StartChunk_def
  by (simp split: prod.splits option.splits sum.splits if_splits)

lemma start_effect: "chunk_is (apply_write t (start_chunk_write a j c n now)) j c ChunkStateRunning"
  by (simp add: start_chunk_write_def chunk_is_def acts_item_at act_rules)

lemma start_ok:
  "write_ok t (start_chunk_write a j c n now) \<Longrightarrow> chunk_is t j c ChunkStatePending \<or> chunk_is t j c ChunkStateRetryPending"
  by (auto simp: start_chunk_write_def chunk_is_def item_at_def split: option.splits)

text \<open>
  C24. A chunk is started only from PENDING or RETRY_PENDING, in one atomic step: when \<^verbatim>\<open>StartChunk\<close>
  returns no error there is an instant at which the chunk was unclaimed and was made RUNNING. So
  of several Workers that get the same message only one starts it, and a chunk that has ended
  is never started again, whatever is delivered late.
\<close>

theorem chunk_is_claimed_atomically:
  assumes "dynamo_contract ledger_step tab db" "StartChunk a db j c n w = (w', None)"
  shows "(\<exists>t t'. ledger_step\<^sup>*\<^sup>* (tab w) t \<and> (chunk_is t j c ChunkStatePending \<or> chunk_is t j c ChunkStateRetryPending)
      \<and> ledger_step t t' \<and> chunk_is t' j c ChunkStateRunning \<and> ledger_step\<^sup>*\<^sup>* t' (tab w'))
    \<and> \<not> chunk_is (tab w) j c ChunkStateCompleted \<and> \<not> chunk_is (tab w) j c ChunkStateFailed"
proof -
  let ?wr = "start_chunk_write a j c n (db_now db w)"
  obtain t where t: "ledger_step\<^sup>*\<^sup>* (tab w) t" "write_ok t ?wr" "ledger_step\<^sup>*\<^sup>* (apply_write t ?wr) (tab w')"
    using write_applied [OF assms(1) StartChunk_started [OF assms(2)]] by metis
  note open' = start_ok [OF t(2)]
  have "\<not> chunk_is (tab w) j c s" if "terminal_chunk s" for s
  proof
    assume "chunk_is (tab w) j c s"
    from chunk_final_stable [OF t(1) this terminal_final [OF that]] open' that show False
      by (auto simp: chunk_is_def terminal_chunk_def)
  qed
  then have "\<not> chunk_is (tab w) j c ChunkStateCompleted \<and> \<not> chunk_is (tab w) j c ChunkStateFailed"
    by (simp add: terminal_chunk_def)
  moreover have "ledger_step t (apply_write t ?wr)"
    using step_request [OF req_start, of t a j c n "db_now db w"] t(2) by simp
  ultimately show ?thesis
    using t(1,3) open' start_effect by blast
qed

lemma planned_start: "StartChunk sample_aws map_db ''f'' ''00000001'' 1 planned_world = (running_world, None)"
proof -
  have "snd (StartChunk sample_aws map_db ''f'' ''00000001'' 1 planned_world) = None"
    by code_simp
  then show ?thesis by (simp add: running_world_def prod_eq_iff)
qed

theorem chunk_is_claimed_atomically_witness:
  "\<not> chunk_is (map_of planned_world) ''f'' ''00000001'' ChunkStateCompleted"
  using chunk_is_claimed_atomically [OF sample_contract planned_start] by simp

text \<open>
  A duplicate of a completed chunk is recognised: when nothing but this call touches the table
  and the chunk is COMPLETED, \<^verbatim>\<open>StartChunk\<close> reports \<^verbatim>\<open>ErrAlreadyCompleted\<close>, which makes the Worker
  acknowledge the message without publishing again, unless the service fails to answer the
  read; it never returns success.
\<close>

lemma completed_chunk_is_recognised:
  assumes "dynamo_contract (\<lambda>_ _. False) tab db" "chunk_is (tab w) j c ChunkStateCompleted"
  shows "\<exists>w' e. StartChunk a db j c n w = (w', Some e)
    \<and> (e = ErrChunkAlreadyCompleted \<or> (\<exists>v e'. chunkStatus db j c v = (w', Inl e')))"
proof -
  have still: "t' = t" if "(\<lambda>_ _. False)\<^sup>*\<^sup>* t t'" for t t' :: table
    using that by (induction rule: rtranclp_induct) auto
  obtain it where it: "tab w (j, SK_CHUNK c) = Some it" "it at_status = Some (S ChunkStateCompleted)"
    using assms(2) by (auto simp: chunk_is_def item_at_def split: option.splits)
  obtain w1 x where wr: "db_Write db (start_chunk_write a j c n (db_now db w)) w = (w1, x)"
    by (cases "db_Write db (start_chunk_write a j c n (db_now db w)) w")
  obtain t t' where e: "own_write (start_chunk_write a j c n (db_now db w)) x t t'" "t = tab w" "tab w1 = t'"
    using contract_Write [OF assms(1) wr] still unfolding effect_def by blast
  have no: "\<not> write_ok (tab w) (start_chunk_write a j c n (db_now db w))"
    using it by (simp add: start_chunk_write_def)
  obtain err where err: "x = Some err" "tab w1 = tab w"
    using e no by (cases x) (auto simp: own_write_def split: db_error.splits)
  obtain w2 s where cs: "chunkStatus db j c w1 = (w2, s)" by (cases "chunkStatus db j c w1")
  show ?thesis
  proof (cases s)
    case (Inl e')
    then show ?thesis using wr err cs unfolding StartChunk_def by auto
  next
    case (Inr st)
    obtain g i where get: "db_Get db (j, SK_CHUNK c) w1 = (g, Inr i)"
      using cs Inr unfolding chunkStatus_def by (auto split: prod.splits sum.splits)
    have "i = tab w (j, SK_CHUNK c)"
      using get_value [OF assms(1) get] still err(2) by metis
    then have "st = ChunkStateCompleted"
      using cs Inr get it by (simp add: chunkStatus_def stringAttr_def str_of_def)
    then show ?thesis using wr err cs Inr unfolding StartChunk_def by auto
  qed
qed

lemma map_db_reads: "\<not> (\<exists>v e'. chunkStatus map_db j c v = (w', Inl e'))"
  by (auto simp: chunkStatus_def map_db_def split: option.splits)

lemma completed_chunk_is_recognised_example:
  "snd (StartChunk sample_aws map_db ''f'' ''00000001'' 2 finished_world) = Some ErrChunkAlreadyCompleted"
  using completed_chunk_is_recognised [OF map_db_contract finished_facts(2), of sample_aws 2] map_db_reads by auto

subsection \<open>A table nobody else uses\<close>

lemma alone_still: "(\<lambda>_ _. False)\<^sup>*\<^sup>* t t' \<Longrightarrow> t' = t"
  by (induction rule: rtranclp_induct) auto

lemma alone_effect: "effect (\<lambda>_ _. False) t t' own \<Longrightarrow> own t t'"
  unfolding effect_def by (elim exE conjE) (drule alone_still, drule alone_still, simp)

lemma alone_write:
  assumes "dynamo_contract (\<lambda>_ _. False) tab db" "db_Write db wr w = (w', r)"
  shows "own_write wr r (tab w) (tab w')"
  by (rule alone_effect [OF contract_Write [OF assms]])

lemma alone_write_applied:
  assumes "dynamo_contract (\<lambda>_ _. False) tab db" "db_Write db wr w = (w', None)"
  shows "write_ok (tab w) wr" "tab w' = apply_write (tab w) wr"
  using alone_write [OF assms] by (simp_all add: own_write_def)

lemma alone_write_refused:
  assumes "dynamo_contract (\<lambda>_ _. False) tab db" "db_Write db wr w = (w', r)" "\<not> write_ok (tab w) wr"
  shows "r \<noteq> None" "tab w' = tab w"
  using alone_write [OF assms(1,2)] assms(3) by (auto simp: own_write_def split: option.splits db_error.splits)

lemma alone_write_conflict:
  assumes "dynamo_contract (\<lambda>_ _. False) tab db" "db_Write db wr w = (w', r)" "write_ok (tab w) wr"
  shows "\<not> conditionalConflict r"
  using alone_write [OF assms(1,2)] assms(3) by (auto simp: own_write_def conditionalConflict_def)

lemma alone_get:
  assumes "dynamo_contract (\<lambda>_ _. False) tab db" "db_Get db k w = (w', r)"
  shows "tab w' = tab w" "r = Inr i \<Longrightarrow> i = tab w k"
  using alone_effect [OF contract_Get [OF assms]] by (auto simp: own_get_def)

subsection \<open>Sealing a plan\<close>

lemma plan_chunks_keep_job:
  assumes "dynamo_contract (\<lambda>_ _. False) tab db"
  shows "plan_chunks a db plan cs w = (w', None) \<Longrightarrow> tab w' (j, SK_JOB) = tab w (j, SK_JOB)"
proof (induction cs arbitrary: w)
  case (Cons c cs)
  obtain v r where v: "db_Write db (plan_chunk_write a plan c) w = (v, r)"
    by (cases "db_Write db (plan_chunk_write a plan c) w")
  then have r: "r = None" "plan_chunks a db plan cs v = (w', None)"
    using Cons.prems by (simp_all split: option.splits)
  have "tab v (j, SK_JOB) = tab w (j, SK_JOB)"
    using alone_write_applied(2) [OF assms v [unfolded r(1)]] by (simp add: plan_chunk_write_def)
  with Cons.IH [OF r(2)] show ?case by simp
qed simp

text \<open>
  C39. Sealing a manifest puts the job back to PENDING whatever its status was: when nothing but
  this call touches the table and the manifest of the job item is not sealed yet, a \<^verbatim>\<open>PlanJob\<close>
  that returns no error leaves it PENDING. This also holds for a REJECTED job, a terminal status
  that no later step is meant to leave.
\<close>

theorem sealing_reopens_the_job:
  assumes "dynamo_contract (\<lambda>_ _. False) tab db"
    and "tab w (jp_JobID plan, SK_JOB) = Some it" "it at_manifestSealed = None"
    and "PlanJob a db plan cs w = (w', None)"
  shows "item_at (tab w') (jp_JobID plan, SK_JOB) at_status = Some (S JobPending)"
proof -
  let ?k = "(jp_JobID plan, SK_JOB)"
  obtain w1 w2 r where w1: "db_Write db (plan_head_write a plan) w = (w1, None)"
    and w2: "plan_chunks a db plan cs w1 = (w2, None)"
    and w3: "db_Write db (plan_seal_write a plan (db_now db w2)) w2 = (w', r)" "r = None \<or> conditionalConflict r"
    using assms(4) unfolding PlanJob_def by (auto split: if_splits prod.splits option.splits)
  have head: "tab w1 ?k = Some (acts (Some it) (case plan_head_write a plan of Update k c us \<Rightarrow> us | Put _ _ _ \<Rightarrow> []))"
    "it at_fileId = Some (S (jp_FileID plan))"
    using alone_write_applied [OF assms(1) w1] assms(2) by (simp_all add: plan_head_write_def)
  have "write_ok (tab w2) (plan_seal_write a plan (db_now db w2))"
    using head assms(3) plan_chunks_keep_job [OF assms(1) w2, of "jp_JobID plan"]
    by (simp add: plan_seal_write_def plan_head_write_def acts_def act_rules)
  then have "r = None"
    using alone_write_conflict [OF assms(1) w3(1)] w3(2) by blast
  then show ?thesis
    using alone_write_applied(2) [OF assms(1), of _ w2 w'] w3(1)
    by (simp add: plan_seal_write_def acts_item_at act_rules)
qed

definition sample_rejection :: Rejection where
  "sample_rejection = \<lparr>rj_RecordID = [], rj_Reason = ''bad'', rj_Detail = []\<rparr>"

definition rejected_world :: store where
  "rejected_world = run_calls 1 sample_aws map_db
     [C_Admit sample_receipt, C_BeginValidation ''f'', C_RejectJob ''f'' sample_rejection] []"

theorem sealing_reopens_the_job_witness:
  "item_at (map_of rejected_world) (''f'', SK_JOB) at_status = Some (S JobStateRejected)
    \<and> item_at (map_of (fst (PlanJob sample_aws map_db sample_plan [sample_chunk] rejected_world))) (''f'', SK_JOB) at_status
        = Some (S JobPending)"
proof -
  have r: "case map_of rejected_world (''f'', SK_JOB) of None \<Rightarrow> False
      | Some it \<Rightarrow> it at_status = Some (S JobStateRejected) \<and> it at_manifestSealed = None"
    by code_simp
  then obtain it where it: "map_of rejected_world (''f'', SK_JOB) = Some it"
    "it at_status = Some (S JobStateRejected)" "it at_manifestSealed = None"
    by (cases "map_of rejected_world (''f'', SK_JOB)") simp_all
  have "snd (PlanJob sample_aws map_db sample_plan [sample_chunk] rejected_world) = None"
    by code_simp
  then have p: "PlanJob sample_aws map_db sample_plan [sample_chunk] rejected_world
      = (fst (PlanJob sample_aws map_db sample_plan [sample_chunk] rejected_world), None)"
    by (simp add: prod_eq_iff)
  have j: "jp_JobID sample_plan = ''f''" by (simp add: sample_plan_def)
  show ?thesis
    using sealing_reopens_the_job [of map_of map_db rejected_world sample_plan it, OF map_db_contract _ it(3) p] it(1,2)
    by (simp add: j item_at_def)
qed


subsection \<open>Admission of a known file\<close>

text \<open>
  C38. A file whose plan is sealed is never admitted again: when nothing but this call touches the
  table and the job is PENDING, SCHEDULED, RUNNING or SCHEDULING_FAILED, \<^verbatim>\<open>Admit\<close> answers Busy
  and changes nothing, whatever the age of the lease. So an organizer that crashed between
  sealing and scheduling is not resumed by the redelivered notification, although the comments
  of \<^verbatim>\<open>PlanJob\<close> and \<^verbatim>\<open>Admit\<close> say that a crash is resumed.
\<close>

theorem sealed_job_is_never_admitted_again:
  assumes "dynamo_contract (\<lambda>_ _. False) tab db"
    and "tab w (rc_FileID rc, SK_JOB) = Some it" "it at_status = Some (S s)"
    and "s = JobPending \<or> s = JobScheduled \<or> s = JobRunning \<or> s = JobSchedulingFailed"
  shows "\<exists>w' e. Admit a db rc w = (w', Busy, e) \<and> tab w' = tab w"
proof -
  let ?wr = "admit_write a rc (db_random db w) (db_now db w)"
  obtain w1 r where w1: "db_Write db ?wr w = (w1, r)" by (cases "db_Write db ?wr w")
  have "\<not> write_ok (tab w) ?wr" using assms(2) by (simp add: admit_write_def)
  from alone_write_refused [OF assms(1) w1 this] obtain e where r: "r = Some e" and t1: "tab w1 = tab w"
    by blast
  obtain w2 g where w2: "db_Get db (rc_FileID rc, SK_JOB) w1 = (w2, g)"
    by (cases "db_Get db (rc_FileID rc, SK_JOB) w1")
  have t2: "tab w2 = tab w" using alone_get(1) [OF assms(1) w2] t1 by simp
  show ?thesis
  proof (cases g)
    case (Inl e')
    then show ?thesis using w1 r w2 t1 t2 by (simp add: Admit_def jobStatus_def)
  next
    case (Inr i)
    then have "i = Some it" using alone_get(2) [OF assms(1) w2] t1 assms(2) by simp
    then have "jobStatus db (rc_FileID rc) w1 = (w2, Inr s)"
      using w2 Inr assms(3) by (simp add: jobStatus_def stringAttr_def str_of_def)
    moreover have "\<not> is_terminal_status s" "s \<noteq> JobStateReceived" "s \<noteq> JobStateValidating" "s \<noteq> JobStatePlanning"
      using assms(4) by (auto simp: is_terminal_status_def)
    ultimately show ?thesis using w1 r t1 t2 by (simp add: Admit_def)
  qed
qed

theorem sealed_job_is_never_admitted_again_witness:
  "\<exists>w' e. Admit sample_aws map_db sample_receipt planned_world = (w', Busy, e) \<and> map_of w' = map_of planned_world"
proof -
  have "case map_of planned_world (''f'', SK_JOB) of None \<Rightarrow> False | Some it \<Rightarrow> it at_status = Some (S JobPending)"
    by code_simp
  then obtain it where it: "map_of planned_world (''f'', SK_JOB) = Some it" "it at_status = Some (S JobPending)"
    by (cases "map_of planned_world (''f'', SK_JOB)") simp_all
  have j: "rc_FileID sample_receipt = ''f''" by (simp add: sample_receipt_def)
  show ?thesis
    using sealed_job_is_never_admitted_again [OF map_db_contract, of planned_world sample_receipt] it by (simp add: j)
qed

subsection \<open>Replay\<close>

lemma replayed_takes:
  "replayed newJobID [] its = Inr cs \<Longrightarrow> (sk, it) \<in> set its \<Longrightarrow> it at_payload = Some (J d)
    \<Longrightarrow> (chunk_of d)\<lparr>cj_JobID := newJobID\<rparr> \<in> set cs"
proof (induction its arbitrary: cs)
  case (Cons x its)
  then show ?case by (cases x) (auto split: option.splits sum.splits if_splits)
qed simp

text \<open>
  Replaying a whole job picks up documents that are not chunks: when the answer of the table
  fits one page and the job has an item whose payload is another document than a chunk (its
  completion intent, or the audit record an earlier replay left), the result of \<^verbatim>\<open>ReplayChunks\<close>
  without chunk identifiers contains a job without a chunk identifier and without a range.
\<close>

lemma replay_takes_other_documents:
  assumes "dynamo_contract (\<lambda>_ _. False) tab db"
    and "tab w (src, sk) = Some it" "it at_payload = Some (J d)" "\<forall>c. d \<noteq> JChunk c"
    and "ReplayChunks 1 a db src new [] w = (w', Inr cs)"
  shows "zero_ChunkJob\<lparr>cj_JobID := new\<rparr> \<in> set cs"
proof -
  let ?q = "\<lparr>q_pk = src, q_chunks_only = False, q_lacks = None\<rparr>"
  obtain w1 its nxt where q: "db_Query db ?q None w = (w1, Inr (its, nxt))"
    using assms(5) unfolding ReplayChunks_def by (auto split: if_splits prod.splits sum.splits)
  then obtain js where js: "nxt = None" "replayed new [] its = Inr js" "cs = sort_key cj_ChunkID js"
    using assms(5) unfolding ReplayChunks_def by (auto split: if_splits prod.splits sum.splits option.splits)
  have "own_query ?q None (Inr (its, nxt)) (tab w) (tab w1)"
    by (rule alone_effect [OF contract_Query [OF assms(1) q]])
  then have "(sk, it) \<in> set its"
    using js(1) assms(2) by (simp add: own_query_def in_table_def matches_def)
  from replayed_takes [OF js(2) this assms(3)] assms(4)
  show ?thesis unfolding js(3) by (cases d) simp_all
qed

definition replayed_world :: store where
  "replayed_world = run_call 1 sample_aws map_db (C_Replay ''f'' ''g'' []) planned_world"

lemma replay_takes_other_documents_example:
  "zero_ChunkJob\<lparr>cj_JobID := ''h''\<rparr> \<in> set (projr (snd (ReplayChunks 1 sample_aws map_db ''f'' ''h'' [] replayed_world)))"
proof -
  let ?r = "ReplayChunks 1 sample_aws map_db ''f'' ''h'' [] replayed_world"
  have "isl (snd ?r) = False" by code_simp
  then have r: "?r = (fst ?r, Inr (projr (snd ?r)))"
    by (cases "snd ?r") (simp_all add: prod_eq_iff)
  have "(case map_of replayed_world (''f'', SK_AUDIT ''0'' ''g'') of None \<Rightarrow> False
      | Some it \<Rightarrow> (case it at_payload of Some (J (JAudit _ _ _ _)) \<Rightarrow> True | _ \<Rightarrow> False))"
    by code_simp
  then obtain it a b c d where
    "map_of replayed_world (''f'', SK_AUDIT ''0'' ''g'') = Some it" "it at_payload = Some (J (JAudit a b c d))"
    by (auto split: option.splits av.splits document.splits)
  then show ?thesis
    using replay_takes_other_documents [OF map_db_contract _ _ _ r] by simp
qed

subsection \<open>Racing for the completion\<close>

text \<open>A table on which another Worker sends the same transaction just before.\<close>

definition race_db :: "store dynamo" where
  "race_db = map_db\<lparr>db_Transact := (\<lambda>tok ws w. db_Transact map_db tok ws (fst (db_Transact map_db tok ws w)))\<rparr>"

text \<open>
  The Worker that loses the race for the completion gets an error: when two Workers find the
  job of the concrete run ready and send the closing transaction, the intent exists and is
  pending, but \<^verbatim>\<open>ReconcileCompletion\<close> of the second does not read it, as its comment promises:
  a cancelled transaction whose reason is a failed condition is not recognised as a conflict.
\<close>

theorem loser_of_the_race_gets_an_error:
  "ReconcileCompletion sample_aws race_db ''f'' counted_world
      = (finished_world, Inl (FinalizeFailed (TransactionCanceled [''ConditionalCheckFailed''])))
    \<and> (\<exists>i. loadPendingIntent race_db ''f'' finished_world = (finished_world, Inr (Some i)))"
proof -
  obtain it where it: "map_of counted_world (''f'', SK_JOB) = Some it" "it at_status = Some (S JobRunning)"
    and ready: "ready_to_finish it"
    using counted_item finished_finalized by auto
  let ?ws = "finalize_writes sample_aws it ''f'' 0 0"
  have get: "db_Get map_db (''f'', SK_JOB) counted_world = (counted_world, Inr (Some it))"
    and now: "db_now map_db counted_world = 0"
    using it(1) by (simp_all add: map_db_def)
  have nt: "\<not> is_terminal_status (stringAttr it at_status)"
    using it by (simp add: is_terminal_status_def stringAttr_def str_of_def)
  have first: "db_Transact map_db [] ?ws counted_world = (finished_world, None)"
    using finished_transaction it(1) by simp
  have "map_of finished_world (''f'', SK_INTENT 1) \<noteq> None"
    using finished_intent by blast
  then have second: "db_Transact map_db tok ?ws finished_world = (finished_world, Some (TransactionCanceled [''ConditionalCheckFailed'']))" for tok
    by (simp add: map_db_def transact_ok_def finalize_writes_def)
  have "ReconcileCompletion sample_aws race_db ''f'' counted_world
      = (finished_world, Inl (FinalizeFailed (TransactionCanceled [''ConditionalCheckFailed''])))"
    using it(1) nt ready first second
    by (simp add: ReconcileCompletion_def race_db_def get now Let_def transactionConflict_def conditionalConflict_def)
  moreover have "loadPendingIntent race_db ''f'' finished_world = loadPendingIntent map_db ''f'' finished_world"
    by (simp add: loadPendingIntent_def race_db_def)
  ultimately show ?thesis
    using finished_intent by auto
qed

end
