(* ===== verification/Process_Config.thy ===== *)
theory Process_Config
  imports Messages
begin

section \<open>The process configuration\<close>

text \<open>
  \<^verbatim>\<open>internal/platform/config/config.go\<close>. The environment is an argument, \<open>env k\<close> the value of
  \<^verbatim>\<open>os.Getenv(k)\<close> (the empty string when unset). \<open>Load\<close> gives the first error in the order of
  the code. Also \<^verbatim>\<open>strconv.ParseInt\<close> in base 10 and \<^verbatim>\<open>strconv.Atoi\<close>, which on a 64-bit platform
  is the same function.
\<close>

definition is_digit :: "char \<Rightarrow> bool" where
  "is_digit c \<longleftrightarrow> 48 \<le> (of_char c :: nat) \<and> (of_char c :: nat) \<le> 57"

text \<open>
  The digits are read from the left; a number that leaves the unsigned 64-bit range is a range
  error even when a character after it is no digit.
\<close>

datatype parse_result = Parsed int64 | SyntaxError | RangeError int64

datatype digits_result = Digits nat | NoDigits | Overflow

fun scan_digits :: "nat \<Rightarrow> string \<Rightarrow> digits_result" where
  "scan_digits n [] = Digits n"
| "scan_digits n (c # s) =
    (if \<not> is_digit c then NoDigits
     else if 10 * n + (of_char c - 48) > 18446744073709551615 then Overflow
     else scan_digits (10 * n + (of_char c - 48)) s)"

definition parse_digits :: "bool \<Rightarrow> string \<Rightarrow> parse_result" where
  "parse_digits neg ds =
    (if ds = [] then SyntaxError
     else case scan_digits 0 ds of
       NoDigits \<Rightarrow> SyntaxError
     | Overflow \<Rightarrow> RangeError (if neg then min_int64 else max_int64)
     | Digits n \<Rightarrow>
         if \<not> neg \<and> int n > max_int64 then RangeError max_int64
         else if neg \<and> - int n < min_int64 then RangeError min_int64
         else Parsed (if neg then - int n else int n))"

definition ParseInt :: "string \<Rightarrow> parse_result" where
  "ParseInt s =
    (case s of
       [] \<Rightarrow> SyntaxError
     | c # ds \<Rightarrow> if c = CHR ''-'' then parse_digits True ds else if c = CHR ''+'' then parse_digits False ds
                else parse_digits False s)"

text \<open>The number and the error of the Go functions, which a caller may ignore.\<close>

fun parsed_value :: "parse_result \<Rightarrow> int64" where
  "parsed_value (Parsed n) = n"
| "parsed_value SyntaxError = 0"
| "parsed_value (RangeError n) = n"

fun parsed_ok :: "parse_result \<Rightarrow> int64 option" where
  "parsed_ok (Parsed n) = Some n"
| "parsed_ok SyntaxError = None"
| "parsed_ok (RangeError n) = None"

definition getenv_or :: "(string \<Rightarrow> string) \<Rightarrow> string \<Rightarrow> string \<Rightarrow> string" where
  "getenv_or env k d = (if env k \<noteq> [] then env k else d)"

definition integer :: "(string \<Rightarrow> string) \<Rightarrow> string \<Rightarrow> int \<Rightarrow> int option" where
  "integer env k d = parsed_ok (ParseInt (getenv_or env k (format_int d)))"

definition integer64 :: "(string \<Rightarrow> string) \<Rightarrow> string \<Rightarrow> int64 \<Rightarrow> int64 option" where
  "integer64 env k d = parsed_ok (ParseInt (getenv_or env k (format_int d)))"

datatype load_error =
    BadVariable string
  | InvalidNumericConfiguration
  | InvalidOutputMode string
  | InvalidPackingConfiguration

text \<open>\<^verbatim>\<open>if c.F, err = integer(k, d); err != nil { return c, err }\<close>\<close>

definition set_from ::
  "int option \<Rightarrow> string \<Rightarrow> (int \<Rightarrow> Config \<Rightarrow> Config) \<Rightarrow> load_error + Config \<Rightarrow> load_error + Config" where
  "set_from n k upd r =
    (case r of Inl e \<Rightarrow> Inl e | Inr c \<Rightarrow> (case n of None \<Rightarrow> Inl (BadVariable k) | Some i \<Rightarrow> Inr (upd i c)))"

definition set_int ::
  "(string \<Rightarrow> string) \<Rightarrow> string \<Rightarrow> int \<Rightarrow> (int \<Rightarrow> Config \<Rightarrow> Config) \<Rightarrow> load_error + Config \<Rightarrow> load_error + Config" where
  "set_int env k d upd r = set_from (integer env k d) k upd r"

definition set_int64 ::
  "(string \<Rightarrow> string) \<Rightarrow> string \<Rightarrow> int64 \<Rightarrow> (int64 \<Rightarrow> Config \<Rightarrow> Config) \<Rightarrow> load_error + Config \<Rightarrow> load_error + Config" where
  "set_int64 env k d upd r = set_from (integer64 env k d) k upd r"

definition load_strings :: "(string \<Rightarrow> string) \<Rightarrow> Config" where
  "load_strings env =
    (let environment = getenv_or env ''F2E_ENVIRONMENT'' ''local''
     in zero_Config\<lparr>cf_Endpoint := env ''AWS_ENDPOINT_URL'', cf_Region := getenv_or env ''AWS_REGION'' ''us-east-1'',
       cf_InputBucket := getenv_or env ''F2E_INPUT_BUCKET'' ''f2e-input'',
       cf_IntakeQueueURL := env ''F2E_INTAKE_QUEUE_URL'', cf_ChunkQueueURL := env ''F2E_CHUNK_QUEUE_URL'',
       cf_OutputQueueURL := env ''F2E_OUTPUT_QUEUE_URL'', cf_CompletionQueueURL := env ''F2E_COMPLETION_QUEUE_URL'',
       cf_LedgerTable := env ''F2E_LEDGER_TABLE'', cf_Environment := environment,
       cf_FileConfigPath := getenv_or env ''F2E_FILE_CONFIG_PATH'' (''/f2e/'' @ environment @ ''/file-config''),
       cf_GlobalLimitsParameter :=
         getenv_or env ''F2E_GLOBAL_LIMITS_PARAMETER'' (''/f2e/'' @ environment @ ''/global-limits'')\<rparr>)"

definition load_numbers :: "(string \<Rightarrow> string) \<Rightarrow> load_error + Config" where
  "load_numbers env =
    set_int env ''F2E_MAX_MESSAGE_BYTES'' 0 (\<lambda>n c. c\<lparr>cf_MaxMessageBytes := n\<rparr>)
    (set_int env ''F2E_MAX_ENVELOPES_PER_MESSAGE'' 0
       (\<lambda>n c. c\<lparr>cf_OutputMode := env ''F2E_OUTPUT_MODE'', cf_MaxEnvelopesPerMessage := n\<rparr>)
    (set_int env ''F2E_PUBLISH_CONCURRENCY'' 1 (\<lambda>n c. c\<lparr>cf_PublishConcurrency := n\<rparr>)
    (set_int64 env ''F2E_TARGET_CHUNK_BYTES'' 0 (\<lambda>n c. c\<lparr>cf_TargetChunkBytes := n\<rparr>)
    (set_int64 env ''F2E_MAX_CHUNK_BYTES'' (64 * 1024 * 1024) (\<lambda>n c. c\<lparr>cf_MaxChunkBytes := n\<rparr>)
    (set_int64 env ''F2E_MAX_FILE_BYTES'' (10 * 1024 * 1024 * 1024) (\<lambda>n c. c\<lparr>cf_MaxFileBytes := n\<rparr>)
    (set_int env ''F2E_LEDGER_RETENTION_DAYS'' 90 (\<lambda>n c. c\<lparr>cf_LedgerRetentionDays := n\<rparr>)
    (set_int env ''F2E_MAX_RECEIVE_COUNT'' 3 (\<lambda>n c. c\<lparr>cf_MaxReceiveCount := n\<rparr>)
    (set_int env ''F2E_MAX_EVENT_BYTES'' DefaultMaxEventBytes (\<lambda>n c. c\<lparr>cf_MaxEventBytes := n\<rparr>)
    (set_int env ''F2E_BATCH_SIZE'' 10 (\<lambda>n c. c\<lparr>cf_BatchSize := n\<rparr>)
    (set_int env ''F2E_RECORDS_PER_CHUNK'' 1000 (\<lambda>n c. c\<lparr>cf_RecordsPerChunk := n\<rparr>)
    (Inr (load_strings env))))))))))))"

definition numbers_invalid :: "Config \<Rightarrow> bool" where
  "numbers_invalid c \<longleftrightarrow>
     cf_RecordsPerChunk c < 1 \<or> cf_BatchSize c < 1 \<or> cf_BatchSize c > 10 \<or> cf_MaxReceiveCount c < 1
     \<or> cf_LedgerRetentionDays c < 1 \<or> cf_MaxEventBytes c < 1024 \<or> cf_MaxEventBytes c > MaxSQSMessageBytes
     \<or> cf_MaxChunkBytes c < 1024 \<or> cf_MaxFileBytes c < cf_MaxChunkBytes c
     \<or> cf_TargetChunkBytes c \<noteq> 0 \<and> (cf_TargetChunkBytes c < 5 * 1024 * 1024
           \<or> cf_TargetChunkBytes c > 100 * 1024 * 1024 \<or> cf_TargetChunkBytes c > cf_MaxChunkBytes c)"

definition clamp_concurrency :: "int \<Rightarrow> int" where
  "clamp_concurrency n = (if n < 1 then 1 else if n > 16 then 16 else n)"

definition finish_load :: "(string \<Rightarrow> string) \<Rightarrow> Config \<Rightarrow> load_error + Config" where
  "finish_load env c0 =
    (if numbers_invalid c0 then Inl InvalidNumericConfiguration
     else let c = c0\<lparr>cf_PublishConcurrency := clamp_concurrency (cf_PublishConcurrency c0)\<rparr> in
       if cf_OutputMode c \<noteq> [] \<and> cf_OutputMode c \<noteq> OutputModeSingle \<and> cf_OutputMode c \<noteq> OutputModeBundle
       then Inl (InvalidOutputMode (cf_OutputMode c))
       else if cf_MaxEnvelopesPerMessage c < 0 \<or> cf_MaxMessageBytes c < 0
          \<or> cf_MaxMessageBytes c > 0 \<and> cf_MaxMessageBytes c > MaxSQSMessageBytes
       then Inl InvalidPackingConfiguration
       else Inr (c\<lparr>cf_EventSchemaID := getenv_or env ''F2E_EVENT_SCHEMA_ID'' ''f2e-record'',
                   cf_EventSchemaVersion := getenv_or env ''F2E_EVENT_SCHEMA_VERSION'' ''1'',
                   cf_EventFormat := getenv_or env ''F2E_EVENT_FORMAT'' ''json''\<rparr>))"

definition Load :: "(string \<Rightarrow> string) \<Rightarrow> load_error + Config" where
  "Load env = (case load_numbers env of Inl e \<Rightarrow> Inl e | Inr c \<Rightarrow> finish_load env c)"

subsection \<open>Numbers\<close>

lemma dec_nat_is_digit: "list_all is_digit (dec_nat n)"
  by (auto simp: list_all_iff is_digit_def dest: dec_nat_digits)

lemma digits_value_mono: "(n :: nat) \<le> foldl (\<lambda>a c. 10 * a + (of_char c - 48)) n (s :: string)"
proof (induction s arbitrary: n)
  case (Cons c s)
  have "n \<le> 10 * n + (of_char c - 48)" by simp
  also have "\<dots> \<le> foldl (\<lambda>a c. 10 * a + (of_char c - 48)) (10 * n + (of_char c - 48)) s" by (rule Cons.IH)
  finally show ?case by simp
qed simp

lemma scan_digits_value:
  "list_all is_digit s \<Longrightarrow> foldl (\<lambda>a c. 10 * a + (of_char c - 48)) n s \<le> 18446744073709551615
    \<Longrightarrow> scan_digits n s = Digits (foldl (\<lambda>a c. 10 * a + (of_char c - 48)) n s)"
proof (induction s arbitrary: n)
  case (Cons c s)
  have "10 * n + (of_char c - 48) \<le> 18446744073709551615"
    using digits_value_mono [of "10 * n + (of_char c - 48)" s] Cons.prems(2) by simp
  with Cons show ?case by simp
qed simp

lemma parse_digits_dec_nat:
  assumes "in_int64 (if neg then - int n else int n)"
  shows "parse_digits neg (dec_nat n) = Parsed (if neg then - int n else int n)"
proof -
  have "n \<le> 18446744073709551615"
    using assms by (auto simp: in_int64_def min_int64_def max_int64_def split: if_splits)
  then have "scan_digits 0 (dec_nat n) = Digits n"
    using scan_digits_value [OF dec_nat_is_digit, of 0 n] digits_value_dec_nat [of n] by (simp add: digits_value_def)
  with assms show ?thesis
    by (auto simp: parse_digits_def in_int64_def split: if_splits)
qed

lemma digit_not_sign: "is_digit c \<Longrightarrow> c \<noteq> CHR ''-'' \<and> c \<noteq> CHR ''+''"
  by (auto simp: is_digit_def)

lemma ParseInt_format_int: "in_int64 n \<Longrightarrow> ParseInt (format_int n) = Parsed n"
proof (cases "n < 0")
  case True
  assume "in_int64 n"
  with True show ?thesis
    using parse_digits_dec_nat [of True "nat (- n)"] by (simp add: ParseInt_def format_int_def)
next
  case False
  assume "in_int64 n"
  obtain c ds where s: "dec_nat (nat n) = c # ds"
    using dec_nat_nonempty by (cases "dec_nat (nat n)") auto
  have "c \<noteq> CHR ''-'' \<and> c \<noteq> CHR ''+''"
    using dec_nat_is_digit [of "nat n"] s by (intro digit_not_sign) simp
  with False \<open>in_int64 n\<close> s show ?thesis
    using parse_digits_dec_nat [of False "nat n"] by (simp add: ParseInt_def format_int_def)
qed

lemma format_int_nonempty: "format_int n \<noteq> []"
  by (simp add: format_int_def)

lemma integer_value: "in_int64 n \<Longrightarrow> env k = format_int n \<or> env k = [] \<and> d = n \<Longrightarrow> integer env k d = Some n"
  using ParseInt_format_int [of n] format_int_nonempty [of n] by (auto simp: integer_def getenv_or_def)

lemma integer64_integer: "integer64 = integer"
  by (simp add: fun_eq_iff integer64_def integer_def)

text \<open>
  A numeric variable reads back: whatever 64-bit number is written in decimal into the variable
  is the number the configuration gets, and the default is what an unset variable gives.
\<close>

lemma integer_reads_back:
  assumes "in_int64 n" "env k = format_int n \<or> env k = [] \<and> d = n"
  shows "integer env k d = Some n \<and> integer64 env k d = Some n"
  using integer_value [of n env k d] assms by (simp add: integer64_integer)

lemma integer_reads_back_example:
  "integer (\<lambda>_. ''-42'') ''K'' 7 = Some (- 42) \<and> integer (\<lambda>_. []) ''K'' 7 = Some 7"
proof -
  have "in_int64 (- 42)" "in_int64 7" "''-42'' = format_int (- 42)" by code_simp+
  then show ?thesis
    using integer_reads_back [of "- 42" "\<lambda>_. ''-42''" "''K''" 7] integer_reads_back [of 7 "\<lambda>_. []" "''K''" 7] by simp
qed

subsection \<open>What a loaded configuration guarantees\<close>

lemma getenv_or_nonempty: "d \<noteq> [] \<Longrightarrow> getenv_or env k d \<noteq> []"
  by (simp add: getenv_or_def)

lemma finish_load_Inr:
  assumes "finish_load env c0 = Inr c"
  shows "\<not> numbers_invalid c0" "cf_OutputMode c0 = [] \<or> cf_OutputMode c0 = OutputModeSingle \<or> cf_OutputMode c0 = OutputModeBundle"
    "0 \<le> cf_MaxEnvelopesPerMessage c0" "0 \<le> cf_MaxMessageBytes c0"
    "cf_MaxMessageBytes c0 = 0 \<or> cf_MaxMessageBytes c0 \<le> MaxSQSMessageBytes"
    "c = c0\<lparr>cf_PublishConcurrency := clamp_concurrency (cf_PublishConcurrency c0),
       cf_EventSchemaID := getenv_or env ''F2E_EVENT_SCHEMA_ID'' ''f2e-record'',
       cf_EventSchemaVersion := getenv_or env ''F2E_EVENT_SCHEMA_VERSION'' ''1'',
       cf_EventFormat := getenv_or env ''F2E_EVENT_FORMAT'' ''json''\<rparr>"
  using assms by (simp_all add: finish_load_def Let_def split: if_splits) linarith+

lemma numbers_invalid_irrelevant:
  "numbers_invalid (c\<lparr>cf_PublishConcurrency := n, cf_EventSchemaID := i, cf_EventSchemaVersion := v, cf_EventFormat := f\<rparr>)
    = numbers_invalid c"
  by (simp add: numbers_invalid_def)

lemma clamp_concurrency_range: "1 \<le> clamp_concurrency n" "clamp_concurrency n \<le> 16"
  by (simp_all add: clamp_concurrency_def)


lemma set_default: "in_int64 d \<Longrightarrow> set_int (\<lambda>_. []) k d upd (Inr c) = Inr (upd d c)"
  by (simp add: set_int_def set_from_def integer_value)

lemma set_default64: "in_int64 d \<Longrightarrow> set_int64 (\<lambda>_. []) k d upd (Inr c) = Inr (upd d c)"
  by (simp add: set_int64_def set_from_def integer_value integer64_integer)

lemma load_defaults: "\<exists>c. Load (\<lambda>_. []) = Inr c \<and> cf_RecordsPerChunk c = 1000"
proof -
  have "in_int64 d" if "0 \<le> d" "d \<le> 10 * 1024 * 1024 * 1024" for d
    using that by (simp add: in_int64_def min_int64_def max_int64_def)
  note sets = this [THEN set_default] this [THEN set_default64]
  have "\<exists>c. load_numbers (\<lambda>_. []) = Inr c \<and> \<not> numbers_invalid c \<and> cf_RecordsPerChunk c = 1000
      \<and> cf_OutputMode c = [] \<and> cf_MaxEnvelopesPerMessage c = 0 \<and> cf_MaxMessageBytes c = 0"
    unfolding load_numbers_def
    by (simp add: sets DefaultMaxEventBytes_def MaxSQSMessageBytes_def numbers_invalid_def)
  then obtain c where "load_numbers (\<lambda>_. []) = Inr c" "\<not> numbers_invalid c" "cf_RecordsPerChunk c = 1000"
    "cf_OutputMode c = []" "cf_MaxEnvelopesPerMessage c = 0" "cf_MaxMessageBytes c = 0"
    by blast
  then show ?thesis
    by (simp add: Load_def finish_load_def Let_def)
qed


end
