(* ===== verification/Worker_Handler.thy ===== *)
theory Worker_Handler
  imports Worker_Counts Ledger_Behaviour Process_Config
begin

section \<open>The Worker Lambda on the ledger\<close>

text \<open>
  \<^verbatim>\<open>cmd/worker/main.go\<close>: the handler of one SQS batch, and the wiring of the Worker of theory
  \<open>Worker\<close> to the ledger of theory \<open>Ledger\<close>. The composition is what the queue relies on: a
  message that the handler does not report as failed is deleted, so its chunk must be COMPLETED
  in the table. The context is an argument; theory \<open>Process_Start\<close> computes the instant at which the
  handler ends it. Not modelled: the CPU and GC metrics.
\<close>

subsection \<open>Wiring\<close>

text \<open>\<open>render\<close> is the text of an error of the ledger.\<close>

definition start_port ::
  "AWS \<Rightarrow> 'w dynamo \<Rightarrow> (ledger_fault \<Rightarrow> string) \<Rightarrow> string \<Rightarrow> string \<Rightarrow> int \<Rightarrow> 'w \<Rightarrow> 'w \<times> ledger_error option" where
  "start_port a db render jobID chunkID attempt w =
    map_prod id (map_option (\<lambda>e. if e = ErrChunkAlreadyCompleted then ErrAlreadyCompleted else LedgerError (render e)))
      (StartChunk a db jobID chunkID attempt w)"

definition ledger_ports :: "AWS \<Rightarrow> 'w dynamo \<Rightarrow> (ledger_fault \<Rightarrow> string) \<Rightarrow> 'w ledger_ports" where
  "ledger_ports a db render =
    \<lparr>lp_StartChunk = start_port a db render,
     lp_CompleteChunk = (\<lambda>r w. map_prod id (map_option (\<lambda>e. LedgerError (render e))) (CompleteChunk a db r w)),
     lp_FailChunk = (\<lambda>r w. map_prod id (map_option (\<lambda>e. LedgerError (render e))) (FailChunk a db r w))\<rparr>"

definition completion_ports :: "AWS \<Rightarrow> 'w dynamo \<Rightarrow> (ledger_fault \<Rightarrow> string) \<Rightarrow> 'w completion_ports" where
  "completion_ports a db render =
    \<lparr>kp_ReconcileCompletion = (\<lambda>j w. map_prod id (map_sum render id) (ReconcileCompletion a db j w)),
     kp_MarkIntentDelivered = (\<lambda>j v w. map_prod id (map_option render) (MarkIntentDelivered a db j v w))\<rparr>"

text \<open>\<^verbatim>\<open>init\<close>: the ledger is wired when a table is configured, the completion ledger always.\<close>

definition wired :: "AWS \<Rightarrow> 'w dynamo \<Rightarrow> (ledger_fault \<Rightarrow> string) \<Rightarrow> Config \<Rightarrow> 'w worker_ports \<Rightarrow> 'w worker_ports" where
  "wired a db render cfg ports =
     ports\<lparr>wp_Ledger := (if cf_LedgerTable cfg \<noteq> [] then Some (ledger_ports a db render) else None),
           wp_CompletionLedger := Some (completion_ports a db render)\<rparr>"

subsection \<open>The handler\<close>

record sqs_record =
  sq_MessageId :: string
  sq_Body :: bytes
  sq_ReceiveCount :: string

text \<open>The receive count, at least 1; \<^verbatim>\<open>strconv.Atoi\<close>'s error is ignored.\<close>

definition attempt_of :: "sqs_record \<Rightarrow> int" where
  "attempt_of r = (let attempt = parsed_value (ParseInt (sq_ReceiveCount r)) in if attempt < 1 then 1 else attempt)"

fun handler ::
  "'w worker_ports \<Rightarrow> (worker_error \<Rightarrow> string) \<Rightarrow> (nat \<Rightarrow> string option) \<Rightarrow> Config \<Rightarrow> (bytes \<Rightarrow> string + ChunkJob)
    \<Rightarrow> sqs_record list \<Rightarrow> 'w \<Rightarrow> 'w \<times> string list" where
  "handler ports render ctx cfg decode [] w = (w, [])"
| "handler ports render ctx cfg decode (r # rs) w =
    (case ProcessAttempt ports render ctx cfg (decode (sq_Body r)) (attempt_of r) w of
       (w1, err) \<Rightarrow>
         (case handler ports render ctx cfg decode rs w1 of
            (w2, failures) \<Rightarrow> (w2, if err = None then failures else sq_MessageId r # failures)))"

subsection \<open>Callbacks that keep a property whatever they return\<close>

definition always_keeps :: "('s \<Rightarrow> bool) \<Rightarrow> ('e, 's) line_fn \<Rightarrow> bool" where
  "always_keeps P fn \<longleftrightarrow> (\<forall>n off raw s. P s \<longrightarrow> P (snd (fn n off raw s)))"

lemma always_keepsD: "always_keeps P fn \<Longrightarrow> P s \<Longrightarrow> fn n off raw s = (e, s') \<Longrightarrow> P s'"
  unfolding always_keeps_def by (metis snd_conv)

lemma emitLine_always: "always_keeps P fn \<Longrightarrow> P s \<Longrightarrow> emitLine c sk fn st s = (e, st', s') \<Longrightarrow> P s'"
  by (auto simp: emitLine_def dest: always_keepsD split: if_splits prod.splits option.splits)

lemma read_loop_always:
  "always_keeps P fn \<Longrightarrow> P s \<Longrightarrow> read_loop ctx re mx sk fn it bs st s = (e, s') \<Longrightarrow> P s'"
proof (induction ctx re mx sk fn it bs st s arbitrary: e s' rule: read_loop.induct)
  case (1 ctx re mx sk fn it bs st s)
  note run = "1.prems"(3) [unfolded read_loop.simps [of ctx re mx sk fn it bs st s]]
  note emits = emitLine_always [OF "1.prems"(1,2)]
  show ?case
  proof (cases "ctx it \<noteq> None \<or> bs = []")
    case True
    then show ?thesis
      using run "1.prems"(2) emits by (auto split: option.splits read_end.splits if_splits prod.splits)
  next
    case False
    then obtain b rest where c: "ctx it = None" and Cons: "bs = b # rest" by (cases bs) auto
    show ?thesis
    proof (cases "b = CR \<or> b = LF")
      case False
      show ?thesis
      proof (cases "mx \<le> int (length (ls_buf st))")
        case True
        with run c Cons False "1.prems"(2) show ?thesis by (auto split: if_splits)
      next
        case short: False
        with run c Cons False
        have "read_loop ctx re mx sk fn (Suc it) rest (st\<lparr>ls_buf := ls_buf st @ [b]\<rparr>) s = (e, s')" by (auto split: if_splits)
        from "1.IH"(2) [OF c Cons False short "1.prems"(1,2) this] show ?thesis .
      qed
    next
      case True
      obtain e1 st' s1 where em: "emitLine (ls_buf st) sk fn st s = (e1, st', s1)" by (cases "emitLine (ls_buf st) sk fn st s") auto
      have P1: "P s1" by (rule emits [OF em])
      show ?thesis
      proof (cases "terminator_len re bs")
        case (Inl x)
        with run c Cons True "1.prems"(2) show ?thesis by simp
      next
        case (Inr k)
        show ?thesis
        proof (cases e1)
          case (Some y)
          with run c Cons True Inr em P1 show ?thesis by simp
        next
          case None
          with run c Cons True Inr em
          have "read_loop ctx re mx sk fn (Suc it) (drop k bs) (next_line_state st' k) s1 = (e, s')" by simp
          from "1.IH"(1) [OF c Cons True Inr em [symmetric] None refl "1.prems"(1) P1 this] show ?thesis .
        qed
      qed
    qed
  qed
qed

lemma ReadLines_always: "always_keeps P fn \<Longrightarrow> P s \<Longrightarrow> ReadLines ctx bs re mx sk fn s = (e, s') \<Longrightarrow> P s'"
  by (auto simp: ReadLines_def dest: read_loop_always split: if_splits)

lemma emit_record_always: "always_keeps P fn \<Longrightarrow> P s \<Longrightarrow> emit_record sep fn (g, s) = (e, g', s') \<Longrightarrow> P s'"
  by (auto simp: emit_record_def Let_def dest: always_keepsD split: if_splits prod.splits option.splits)

lemma group_line_always: "always_keeps P fn \<Longrightarrow> always_keeps (P \<circ> snd) (group_line layout sep fn)"
  unfolding always_keeps_def [of "P \<circ> snd"]
  by (auto simp: group_line_def dest: emit_record_always split: if_splits prod.splits option.splits)


lemma ReadMultiLine_always:
  assumes "always_keeps P fn" "P s" "ReadMultiLineLayoutWithStats ctx bs re layout fn s = (e, stats, s')"
  shows "P s'"
proof -
  obtain e1 g s1 where r: "ReadLines ctx bs re (ml_MaxBytesPerRecord layout) False
      (group_line layout (layout_separator layout) fn) (group_state0, s) = (e1, g, s1)"
    by (cases "ReadLines ctx bs re (ml_MaxBytesPerRecord layout) False
      (group_line layout (layout_separator layout) fn) (group_state0, s)") auto
  have "(P \<circ> snd) (g, s1)" using ReadLines_always [OF group_line_always [OF assms(1)] _ r] assms(2) by simp
  then show ?thesis
    using assms(3) r emit_record_always [OF assms(1)]
    by (auto simp: ReadMultiLineLayoutWithStats_def Let_def split: prod.splits option.splits)
qed

lemma read_elements_always:
  "always_keeps P fn \<Longrightarrow> P s \<Longrightarrow> read_elements ctx j data rs it n els fn s = (e, s') \<Longrightarrow> P s'"
  by (induction ctx j data rs it n els fn s rule: read_elements.induct)
    (auto simp: Let_def dest: always_keepsD split: option.splits if_splits prod.splits)

lemma owned_only_always: "always_keeps P pub \<Longrightarrow> always_keeps P (owned_only always j rs pub)"
  by (auto simp: always_keeps_def owned_only_def split: if_splits)

subsection \<open>What the Worker does to the table\<close>

text \<open>The other services do not touch the table, except for the steps other clients make meanwhile.\<close>

definition off_table :: "('w \<Rightarrow> table) \<Rightarrow> 'w worker_ports \<Rightarrow> bool" where
  "off_table tab ports \<longleftrightarrow>
    (\<forall>j a b w w' r. wp_OpenChunkRange ports j a b w = (w', r) \<longrightarrow> moves tab w w') \<and>
    (\<forall>b w w' r. wp_submit ports b w = (w', r) \<longrightarrow> moves tab w w') \<and>
    (\<forall>w w' r. wp_wait ports w = (w', r) \<longrightarrow> moves tab w w') \<and>
    (\<forall>q ms w w' r. wp_Send ports q ms w = (w', r) \<longrightarrow> moves tab w w')"

lemma off_tableD:
  assumes "off_table tab ports"
  shows "wp_OpenChunkRange ports j a b w = (w', r) \<Longrightarrow> moves tab w w'"
    "wp_submit ports ms w = (w', x) \<Longrightarrow> moves tab w w'"
    "wp_wait ports w = (w', y) \<Longrightarrow> moves tab w w'"
    "wp_Send ports q ms w = (w', z) \<Longrightarrow> moves tab w w'"
  using assms unfolding off_table_def by blast+

lemma off_table_wired [simp]: "off_table tab (wired a db render cfg ports) \<longleftrightarrow> off_table tab ports"
  by (simp add: off_table_def wired_def)

definition from_table :: "('w \<Rightarrow> table) \<Rightarrow> 'w \<Rightarrow> 'w stream_state \<Rightarrow> bool" where
  "from_table tab w st \<longleftrightarrow> moves tab w (ss_world st)"

lemma sendBatch_moves: "off_table tab ports \<Longrightarrow> sendBatch ports st = (e, st') \<Longrightarrow> moves tab (ss_world st) (ss_world st')"
  by (auto simp: sendBatch_def split: prod.splits option.splits dest: off_tableD(2))

lemma enqueueSingle_moves:
  "off_table tab ports \<Longrightarrow> enqueueSingle ports k m st = (e, st') \<Longrightarrow> moves tab (ss_world st) (ss_world st')"
  by (auto simp: enqueueSingle_def Let_def split: if_splits dest: sendBatch_moves)

lemma enqueueBundle_moves:
  "off_table tab ports \<Longrightarrow> enqueueBundle ports k p env b st = (e, st') \<Longrightarrow> moves tab (ss_world st) (ss_world st')"
  by (auto simp: enqueueBundle_def split: prod.splits sum.splits option.splits dest!: enqueueSingle_moves)

lemma publish_moves:
  assumes "off_table tab ports" "publish ports cfg k j rs pl n off raw st = (e, st')"
  shows "moves tab (ss_world st) (ss_world st')"
proof -
  have b: "moves tab (ss_world st0) (ss_world st1)"
    if "enqueueBundle ports k p env b st0 = (x, st1)" for p env b st0 x st1
    by (rule enqueueBundle_moves [OF assms(1) that])
  have s: "moves tab (ss_world st0) (ss_world st1)" if "enqueueSingle ports k m st0 = (x, st1)" for m st0 x st1
    by (rule enqueueSingle_moves [OF assms(1) that])
  show ?thesis
    using assms(2) unfolding publish_def Let_def
    by (auto split: if_splits option.splits prod.splits publish_error.splits pack_error.splits dest!: b s)
qed


lemma publish_always: "off_table tab ports \<Longrightarrow> always_keeps (from_table tab w) (publish ports cfg k j rs pl)"
proof -
  assume off: "off_table tab ports"
  have "moves tab w (ss_world (snd (publish ports cfg k j rs pl n off raw s)))" if "moves tab w (ss_world s)" for n off raw s
    by (rule moves_trans [OF that publish_moves [OF off, of cfg k j rs pl n off raw s "fst (publish ports cfg k j rs pl n off raw s)"]])
      simp
  then show ?thesis by (simp add: always_keeps_def from_table_def)
qed

lemma publish_json_always:
  "off_table tab ports \<Longrightarrow> always_keeps (from_table tab w) (\<lambda>n off raw. publish ports cfg k j rs (int (length raw)) n off raw)"
proof -
  assume "off_table tab ports"
  from publish_always [OF this] show ?thesis by (simp add: always_keeps_def)
qed

lemma read_records_moves:
  assumes "off_table tab ports" "from_table tab w st" "read_records ports ctx cfg j data re rs st = (e, st')"
  shows "from_table tab w st'"
proof -
  let ?fn = "publish ports cfg (effective_batch_size cfg) j rs 0"
  let ?jn = "\<lambda>n off raw. publish ports cfg (effective_batch_size cfg) j rs (int (length raw)) n off raw"
  note P = owned_only_always [OF publish_always [OF assms(1)]]
  have t: "from_table tab w st1" if "read_text ctx cfg j data re rs ?fn st = (x, st1)" for x st1
    using that unfolding read_text_def Let_def by (rule ReadLines_always [OF P assms(2)])
  have m: "from_table tab w st1" if "read_multiline ctx j data re rs ?fn st = (x, stats, st1)" for x stats st1
    using that unfolding read_multiline_def by (rule ReadMultiLine_always [OF P assms(2)])
  have js: "from_table tab w st1" if "readJSONArray ctx j data rs ?jn st = (x, st1)" for x st1
    using that read_elements_always [OF publish_json_always [OF assms(1)] assms(2)]
    by (auto simp: readJSONArray_def Let_def split: prod.splits)
  obtain x1 s1 where r1: "read_text ctx cfg j data re rs ?fn st = (x1, s1)" by (cases "read_text ctx cfg j data re rs ?fn st")
  obtain x2 s2 st2 where r2: "read_multiline ctx j data re rs ?fn st = (x2, s2, st2)" by (cases "read_multiline ctx j data re rs ?fn st") auto
  obtain x3 s3 where r3: "readJSONArray ctx j data rs ?jn st = (x3, s3)" by (cases "readJSONArray ctx j data rs ?jn st")
  show ?thesis
    using assms(2,3) t [OF r1] m [OF r2] js [OF r3]
    unfolding read_records_def Let_def r1 r2 r3
    by (auto simp: from_table_def split: if_splits read_end.splits)
qed

lemma flush_stream_moves:
  assumes "off_table tab ports" "flush_stream ports st = (e, st')"
  shows "moves tab (ss_world st) (ss_world st')"
proof -
  have p: "ss_world st1 = ss_world st" if "flush_packer st = (x, st1)" for x st1
    using that by (auto simp: flush_packer_def split: option.splits prod.splits sum.splits)
  have b: "moves tab (ss_world st1) (ss_world st2)" if "flush_batch ports st1 = (x, st2)" for st1 x st2
    using that sendBatch_moves [OF assms(1)] by (auto simp: flush_batch_def split: if_splits)
  have c: "moves tab (ss_world st1) (ss_world st2)" if "wait_and_count ports st1 = (x, st2)" for st1 x st2
    using that off_tableD(3) [OF assms(1)] by (auto simp: wait_and_count_def split: prod.splits option.splits)
  obtain x1 st1 where r1: "flush_packer st = (x1, st1)" by (cases "flush_packer st")
  obtain x2 st2 where r2: "flush_batch ports st1 = (x2, st2)" by (cases "flush_batch ports st1")
  have m2: "moves tab (ss_world st) (ss_world st2)" using p [OF r1] b [OF r2] by simp
  show ?thesis
    using assms(2) p [OF r1] m2 rtranclp_trans [OF m2 c] unfolding flush_stream_def r1
    by (auto simp: r2 split: option.splits)
qed

lemma stream_moves:
  assumes "off_table tab ports" "streamWithMetrics ports ctx cfg j data re rs w = (w', r)"
  shows "moves tab w w'"
proof -
  have "from_table tab w (stream_start j w)" by (simp add: from_table_def stream_start_def)
  note R = read_records_moves [OF assms(1) this, unfolded from_table_def]
  obtain x st where r: "read_records ports ctx cfg j data re rs (stream_start j w) = (x, st)"
    by (cases "read_records ports ctx cfg j data re rs (stream_start j w)")
  note m = R [OF r]
  show ?thesis
    using assms(2) m rtranclp_trans [OF m flush_stream_moves [OF assms(1)]] unfolding streamWithMetrics_def r
    by (auto split: option.splits prod.splits)
qed

lemma process_body_moves:
  assumes "off_table tab ports" "process_body ports ctx cfg j rs re b w = (w', r)"
  shows "moves tab w w'"
  using assms(2) stream_moves [OF assms(1)] unfolding process_body_def Let_def
  by (auto split: prod.splits option.splits sum.splits if_splits read_end.splits)


subsection \<open>The Worker on the ledger\<close>

lemma wired_simps [simp]:
  "wp_CompletionLedger (wired a db render c ports) = Some (completion_ports a db render)"
  "wp_Ledger (wired a db render c ports) = (if cf_LedgerTable c \<noteq> [] then Some (ledger_ports a db render) else None)"
  "wp_Send (wired a db render c ports) = wp_Send ports" "wp_marshalEvent (wired a db render c ports) = wp_marshalEvent ports"
  "wp_nowInstant (wired a db render c ports) = wp_nowInstant ports"
  "wp_OpenChunkRange (wired a db render c ports) = wp_OpenChunkRange ports"
  by (simp_all add: wired_def)

lemma publishCompletion_moves:
  assumes "dynamo_contract ledger_step tab db" "off_table tab ports" "ledger_inv (tab w)"
    and "publishCompletion (wired a db render c ports) cfg j w = (w', r)"
  shows "moves tab w w'"
proof -
  obtain w1 x where r1: "ReconcileCompletion a db j w = (w1, x)" by (cases "ReconcileCompletion a db j w")
  have m1: "moves tab w w1" by (rule ReconcileCompletion_moves [OF assms(1,3) r1])
  note m2 = rtranclp_trans [OF m1 off_tableD(4) [OF assms(2)]]
  note m3 = rtranclp_trans [OF m2 MarkIntentDelivered_moves [OF assms(1)]]
  show ?thesis
    using assms(4) m1 m2 m3 unfolding publishCompletion_def
    by (auto simp: completion_ports_def r1 map_prod_def split: sum.splits option.splits prod.splits if_splits)
qed

definition chunk_result :: "ChunkJob \<Rightarrow> int \<Rightarrow> int64 \<Rightarrow> Counts \<Rightarrow> int \<Rightarrow> ChunkResult" where
  "chunk_result j attempt nbytes counts now =
    \<lparr>cr_JobID = cj_JobID j, cr_ChunkID = cj_ChunkID j, cr_Attempt = attempt,
     cr_RecordsProduced = co_RecordsPublished counts, cr_BytesProcessed = nbytes, cr_Error = [],
     cr_OccurredAt = now, cr_Counts = counts\<rparr>"

lemma complete_chunk_wired:
  assumes "dynamo_contract ledger_step tab db" "off_table tab ports" "ledger_inv (tab w)" "cf_LedgerTable c \<noteq> []"
    and "complete_chunk (wired a db render c ports) cfg j attempt n counts w = (w', r)"
  shows "moves tab w w' \<and> (r = None \<longrightarrow> chunk_is (tab w') (cj_JobID j) (cj_ChunkID j) ChunkStateCompleted)"
proof -
  let ?r = "chunk_result j attempt n counts (wp_nowInstant ports w)"
  obtain w1 x where c1: "CompleteChunk a db ?r w = (w1, x)" by (cases "CompleteChunk a db ?r w")
  have m1: "moves tab w w1" by (rule CompleteChunk_moves [OF assms(1,3) c1])
  have i1: "ledger_inv (tab w1)" by (rule steps_keep_inv [OF assms(3) m1])
  obtain w2 y where p: "publishCompletion (wired a db render c ports) cfg (cj_JobID j) w1 = (w2, y)"
    by (cases "publishCompletion (wired a db render c ports) cfg (cj_JobID j) w1")
  have m2: "moves tab w1 w2" by (rule publishCompletion_moves [OF assms(1,2) i1 p])
  show ?thesis
  proof (cases x)
    case None
    have "chunk_is (tab w1) (cj_JobID j) (cj_ChunkID j) ChunkStateCompleted"
      using CompleteChunk_sound [OF assms(1,3) c1 [unfolded None]] by (simp add: chunk_result_def)
    from chunk_final_stable [OF m2 this] have "chunk_is (tab w2) (cj_JobID j) (cj_ChunkID j) ChunkStateCompleted"
      by simp
    moreover have "w' = w2"
      using assms(4,5) None c1 p
      by (auto simp: complete_chunk_def ledger_ports_def chunk_result_def split: option.splits)
    ultimately show ?thesis using rtranclp_trans [OF m1 m2] by simp
  next
    case (Some e)
    then show ?thesis
      using assms(4,5) c1 m1 by (auto simp: complete_chunk_def ledger_ports_def chunk_result_def)
  qed
qed

lemma run_chunk_wired:
  assumes "dynamo_contract ledger_step tab db" "off_table tab ports" "ledger_inv (tab w)" "cf_LedgerTable c \<noteq> []"
    and "run_chunk (wired a db render c ports) ctx cfg j attempt t0 w = (w', r)"
  shows "moves tab w w' \<and> (\<forall>x. r = Inr x \<longrightarrow> chunk_is (tab w') (cj_JobID j) (cj_ChunkID j) ChunkStateCompleted)"
proof (cases "chunkReadRange j")
  case (Inl e)
  with assms(5) show ?thesis by (auto simp: run_chunk_def)
next
  case (Inr win)
  obtain rs re where win: "win = (rs, re)" by (cases win)
  obtain w2 b where o: "wp_OpenChunkRange ports j rs re w = (w2, b)" by (cases "wp_OpenChunkRange ports j rs re w")
  have m2: "moves tab w w2" by (rule off_tableD(1) [OF assms(2) o])
  show ?thesis
  proof (cases b)
    case (Inl e)
    with assms(5) Inr win o m2 show ?thesis by (auto simp: run_chunk_def)
  next
    case body: (Inr body)
    obtain w3 x where pb: "process_body (wired a db render c ports) ctx cfg j rs re body w2 = (w3, x)"
      by (cases "process_body (wired a db render c ports) ctx cfg j rs re body w2")
    have m3: "moves tab w w3"
      using rtranclp_trans [OF m2 process_body_moves [OF _ pb, of tab]] assms(2) by simp
    show ?thesis
    proof (cases x)
      case (Inl e)
      with assms(5) Inr win o body pb m3 show ?thesis by (auto simp: run_chunk_def)
    next
      case counts: (Inr counts)
      let ?n = "wrap64 (wrap64 (re - rs) + 1)"
      obtain w4 y where cc: "complete_chunk (wired a db render c ports) cfg j attempt ?n counts w3 = (w4, y)"
        by (cases "complete_chunk (wired a db render c ports) cfg j attempt ?n counts w3")
      note C = complete_chunk_wired [OF assms(1,2) steps_keep_inv [OF assms(3) m3] assms(4) cc]
      have "moves tab w w4" using rtranclp_trans [OF m3] C by blast
      moreover have "w' = w4" "\<And>z. r = Inr z \<Longrightarrow> y = None"
        using assms(5) Inr win o body pb counts cc by (auto simp: run_chunk_def Let_def split: option.splits)
      ultimately show ?thesis using C by auto
    qed
  qed
qed


lemma StartChunk_already:
  assumes "dynamo_contract ledger_step tab db" "StartChunk a db j c n w = (w', Some ErrChunkAlreadyCompleted)"
  shows "chunk_is (tab w') j c ChunkStateCompleted"
proof -
  obtain w1 where "chunkStatus db j c w1 = (w', Inr ChunkStateCompleted)"
    using assms(2) unfolding StartChunk_def by (auto split: prod.splits option.splits sum.splits if_splits)
  from chunkStatus_value [OF assms(1) this] show ?thesis by simp
qed

lemma start_port_cases:
  assumes "dynamo_contract ledger_step tab db" "start_port a db render j c n w = (w1, x)"
  shows "moves tab w w1" "x = Some ErrAlreadyCompleted \<Longrightarrow> chunk_is (tab w1) j c ChunkStateCompleted"
  using assms(2) StartChunk_moves [OF assms(1)] StartChunk_already [OF assms(1)]
  by (cases "StartChunk a db j c n w"; auto simp: start_port_def split: if_splits)+

text \<open>A delivery of a chunk message: the Worker's part, before the failure is recorded.\<close>

lemma processWithMetrics_wired:
  assumes "dynamo_contract ledger_step tab db" "off_table tab ports" "ledger_inv (tab w)" "cf_LedgerTable c \<noteq> []"
    and "processWithMetrics (wired a db render c ports) ctx c decoded attempt w = (w', r)"
  shows "moves tab w w' \<and> (\<forall>x j. r = Inr x \<longrightarrow> decoded = Inr j \<longrightarrow> cj_Control j \<noteq> ''completion''
      \<longrightarrow> chunk_is (tab w') (cj_JobID j) (cj_ChunkID j) ChunkStateCompleted)"
proof (cases decoded)
  case (Inl e)
  with assms(5) show ?thesis by (auto simp: processWithMetrics_def Let_def)
next
  case (Inr j)
  note pc = publishCompletion_moves [OF assms(1,2)]
  show ?thesis
  proof (cases "cj_Control j = ''completion''")
    case True
    with assms(3,5) Inr pc [of w] show ?thesis
      by (auto simp: processWithMetrics_def Let_def split: if_splits prod.splits option.splits)
  next
    case chunk: False
    let ?cfg = "job_config j c"
    let ?t0 = "wp_millis (wired a db render c ports) w"
    show ?thesis
    proof (cases "valid ?cfg j")
      case (Some e)
      with assms(5) Inr chunk show ?thesis by (auto simp: processWithMetrics_def Let_def)
    next
      case None
      obtain w1 x where st: "start_port a db render (cj_JobID j) (cj_ChunkID j) attempt w = (w1, x)"
        by (cases "start_port a db render (cj_JobID j) (cj_ChunkID j) attempt w")
      note S = start_port_cases [OF assms(1) st]
      note i1 = steps_keep_inv [OF assms(3) S(1)]
      have run: "processWithMetrics (wired a db render c ports) ctx c decoded attempt w
          = (case x of
               Some ErrAlreadyCompleted \<Rightarrow>
                 (case publishCompletion (wired a db render c ports) ?cfg (cj_JobID j) w1 of
                    (w'', Some e) \<Rightarrow> (w'', Inl (CompletionFailed e)) | (w'', None) \<Rightarrow> (w'', Inr None))
             | Some (LedgerError e) \<Rightarrow> (w1, Inl (StartFailed e))
             | None \<Rightarrow> run_chunk (wired a db render c ports) ctx ?cfg j attempt ?t0 w1)"
        using Inr chunk None assms(4) st
        by (simp add: processWithMetrics_def Let_def ledger_ports_def split: option.splits ledger_error.splits)
      consider (fresh) "x = None" | (over) "x = Some ErrAlreadyCompleted" | (err) e where "x = Some (LedgerError e)"
        by (cases x) (auto intro: ledger_error.exhaust)
      then show ?thesis
      proof cases
        case fresh
        with run assms(5)
        have "run_chunk (wired a db render c ports) ctx ?cfg j attempt ?t0 w1 = (w', r)" by simp
        from run_chunk_wired [OF assms(1,2) i1 assms(4) this] rtranclp_trans [OF S(1), of "tab w'"] Inr
        show ?thesis by auto
      next
        case over
        obtain w2 y where p: "publishCompletion (wired a db render c ports) ?cfg (cj_JobID j) w1 = (w2, y)"
          by (cases "publishCompletion (wired a db render c ports) ?cfg (cj_JobID j) w1")
        note m = pc [OF i1 p]
        have "w' = w2" using run assms(5) over p by (auto split: option.splits)
        with rtranclp_trans [OF S(1) m] chunk_final_stable [OF m S(2) [OF over]] Inr
        show ?thesis by simp
      next
        case err
        with run assms(5) S(1) show ?thesis by auto
      qed
    qed
  qed
qed

lemma ProcessAttempt_wired:
  assumes "dynamo_contract ledger_step tab db" "off_table tab ports" "ledger_inv (tab w)" "cf_LedgerTable c \<noteq> []"
    and "ProcessAttempt (wired a db render c ports) show_error ctx c decoded attempt w = (w', r)"
  shows "moves tab w w' \<and> (\<forall>j. r = None \<longrightarrow> decoded = Inr j \<longrightarrow> cj_Control j \<noteq> ''completion''
      \<longrightarrow> chunk_is (tab w') (cj_JobID j) (cj_ChunkID j) ChunkStateCompleted)"
proof -
  obtain w1 x where p: "processWithMetrics (wired a db render c ports) ctx c decoded attempt w = (w1, x)"
    by (cases "processWithMetrics (wired a db render c ports) ctx c decoded attempt w")
  note P = processWithMetrics_wired [OF assms(1-4) p]
  have i1: "ledger_inv (tab w1)" using steps_keep_inv [OF assms(3)] P by blast
  have f: "moves tab w (fst (FailChunk a db res w1))" for res
    using FailChunk_moves [OF assms(1) i1] P rtranclp_trans by (metis prod.collapse)
  show ?thesis
    using assms(4,5) p P f
    by (auto simp: ProcessAttempt_def ledger_ports_def split: sum.splits option.splits if_splits)
qed


subsection \<open>Acknowledged messages\<close>

lemma handler_wired:
  assumes "dynamo_contract ledger_step tab db" "off_table tab ports" "cf_LedgerTable c \<noteq> []"
  shows "ledger_inv (tab w) \<Longrightarrow> handler (wired a db render c ports) show_error ctx c decode rs w = (w', failures)
    \<Longrightarrow> moves tab w w' \<and> (\<forall>r j. r \<in> set rs \<longrightarrow> sq_MessageId r \<notin> set failures \<longrightarrow> decode (sq_Body r) = Inr j
      \<longrightarrow> cj_Control j \<noteq> ''completion'' \<longrightarrow> chunk_is (tab w') (cj_JobID j) (cj_ChunkID j) ChunkStateCompleted)"
proof (induction rs arbitrary: w w' failures)
  case (Cons r rs)
  obtain w1 e where p: "ProcessAttempt (wired a db render c ports) show_error ctx c (decode (sq_Body r)) (attempt_of r) w = (w1, e)"
    by (cases "ProcessAttempt (wired a db render c ports) show_error ctx c (decode (sq_Body r)) (attempt_of r) w")
  note P = ProcessAttempt_wired [OF assms(1,2) Cons.prems(1) assms(3) p]
  then have i1: "ledger_inv (tab w1)" by (intro steps_keep_inv [OF Cons.prems(1)]) simp
  obtain w2 fs where h: "handler (wired a db render c ports) show_error ctx c decode rs w1 = (w2, fs)"
    by (cases "handler (wired a db render c ports) show_error ctx c decode rs w1")
  note H = Cons.IH [OF i1 h]
  have w': "w' = w2" "failures = (if e = None then fs else sq_MessageId r # fs)"
    using Cons.prems(2) p h by simp_all
  have "moves tab w w2" using P H rtranclp_trans by metis
  moreover have "chunk_is (tab w2) (cj_JobID j) (cj_ChunkID j) ChunkStateCompleted"
    if "sq_MessageId r \<notin> set failures" "decode (sq_Body r) = Inr j" "cj_Control j \<noteq> ''completion''" for j
  proof -
    have "e = None" using that(1) w'(2) by (auto split: if_splits)
    with P that(2,3) have "chunk_is (tab w1) (cj_JobID j) (cj_ChunkID j) ChunkStateCompleted" by blast
    with H show ?thesis using chunk_final_stable [of "tab w1" "tab w2"] by simp
  qed
  moreover have "sq_MessageId r' \<notin> set fs" if "sq_MessageId r' \<notin> set failures" for r'
    using that w'(2) by (auto split: if_splits)
  ultimately show ?case using H w'(1) by auto
qed simp

text \<open>
  C6. An acknowledged chunk is complete: when the Lambda returns, every message of the batch that is
  not among the reported failures, which the queue therefore deletes, and that carries a chunk,
  has its chunk COMPLETED in the table, and the invariants of the ledger hold. This is so in
  whatever order the calls to S3, SQS and the table succeed and fail, and whatever the other
  Workers do at the same time.
\<close>

theorem acknowledged_messages_are_complete:
  assumes "dynamo_contract ledger_step tab db" "off_table tab ports" "cf_LedgerTable c \<noteq> []"
    and "ledger_step\<^sup>*\<^sup>* (\<lambda>_. None) (tab w)"
    and "handler (wired a db render c ports) show_error ctx c decode rs w = (w', failures)"
    and "r \<in> set rs" "sq_MessageId r \<notin> set failures" "decode (sq_Body r) = Inr j" "cj_Control j \<noteq> ''completion''"
  shows "chunk_is (tab w') (cj_JobID j) (cj_ChunkID j) ChunkStateCompleted \<and> ledger_inv (tab w')"
  using handler_wired [OF assms(1-3) reachable_ledger_inv [OF assms(4)] assms(5)] assms(6-9)
    steps_keep_inv [OF reachable_ledger_inv [OF assms(4)]] by blast


text \<open>A second delivery of the chunk of the concrete run, after the job has finished.\<close>

definition store_ports :: "store worker_ports" where
  "store_ports = \<lparr>wp_OpenChunkRange = (\<lambda>_ _ _ w. (w, Inl [])), wp_submit = (\<lambda>b w. (w, None)),
     wp_wait = (\<lambda>w. (w, None, \<lparr>ct_messages = 0, ct_events = 0, ct_calls = 0\<rparr>)),
     wp_Send = (\<lambda>_ _ w. (w, Inr [])), wp_Ledger = None, wp_CompletionLedger = None, wp_now = (\<lambda>_. ''now''),
     wp_nowInstant = (\<lambda>_. 0), wp_millis = (\<lambda>_. 0), wp_marshalEvent = (\<lambda>_. [])\<rparr>"

definition sample_config :: Config where
  "sample_config = zero_Config\<lparr>cf_LedgerTable := ''t'', cf_CompletionQueueURL := ''q''\<rparr>"

definition delivered_job :: ChunkJob where
  "delivered_job = sample_chunk\<lparr>cj_SchemaVersion := SchemaVersion, cj_Bucket := ''b'', cj_Key := ''k'',
     cj_DataType := DataTypeText\<rparr>"

definition sample_record :: sqs_record where
  "sample_record = \<lparr>sq_MessageId = ''m'', sq_Body = [], sq_ReceiveCount = ''2''\<rparr>"

lemma store_ports_off_table: "off_table map_of store_ports"
  by (simp add: off_table_def store_ports_def)

lemma finished_start:
  "\<exists>w1. StartChunk sample_aws map_db ''f'' ''00000001'' n finished_world = (w1, Some ErrChunkAlreadyCompleted)
     \<and> w1 = finished_world"
proof -
  have c: "chunkStatus map_db ''f'' ''00000001'' finished_world = (finished_world, Inr ChunkStateCompleted)"
    using finished_facts(2) by (auto simp: chunkStatus_def map_db_def chunk_is_def item_at_def stringAttr_def str_of_def split: option.splits)
  have no: "\<not> write_ok (map_of finished_world) (start_chunk_write sample_aws ''f'' ''00000001'' n (db_now map_db finished_world))"
    using finished_facts(2) by (auto simp: start_chunk_write_def chunk_is_def item_at_def split: option.splits)
  have "db_Write map_db (start_chunk_write sample_aws ''f'' ''00000001'' n (db_now map_db finished_world)) finished_world
      = (finished_world, Some ConditionalCheckFailed)"
    using no by (simp add: map_db_def)
  then show ?thesis by (simp add: StartChunk_def c)
qed

lemma duplicate_is_acknowledged:
  "\<exists>w'. handler (wired sample_aws map_db (\<lambda>_. []) sample_config store_ports) (\<lambda>_. []) no_cancel sample_config
      (\<lambda>_. Inr delivered_job) [sample_record] finished_world = (w', [])"
proof -
  let ?ports = "wired sample_aws map_db (\<lambda>_. []) sample_config store_ports"
  have ids: "cj_JobID delivered_job = ''f''" "cj_ChunkID delivered_job = ''00000001''" "cj_Control delivered_job = []"
    by (simp_all add: delivered_job_def sample_chunk_def zero_records)
  have cfg: "cf_LedgerTable sample_config = ''t''" "cf_CompletionQueueURL (job_config delivered_job sample_config) = ''q''"
    by (simp_all add: sample_config_def job_config_def Let_def)
  have v: "valid (job_config delivered_job sample_config) delivered_job = None"
    by code_simp
  obtain i where r: "ReconcileCompletion sample_aws map_db ''f'' finished_world = (finished_world, Inr (Some i))"
    using finished_reconcile by blast
  have "snd (MarkIntentDelivered sample_aws map_db k n finished_world) = None" for k n
    by (simp add: MarkIntentDelivered_def sample_aws_def map_db_def conditionalConflict_def)
  then obtain w2 where m: "MarkIntentDelivered sample_aws map_db (ci_JobID i) (ci_Version i) finished_world = (w2, None)"
    by (metis prod.collapse)
  have p: "publishCompletion ?ports (job_config delivered_job sample_config) ''f'' finished_world = (w2, None)"
    by (simp add: publishCompletion_def completion_ports_def r cfg store_ports_def m)
  have s: "start_port sample_aws map_db (\<lambda>_. []) ''f'' ''00000001'' n finished_world = (finished_world, Some ErrAlreadyCompleted)" for n
    using finished_start [of n] by (auto simp: start_port_def)
  have "processWithMetrics ?ports no_cancel sample_config (Inr delivered_job) n finished_world = (w2, Inr None)" for n
    by (simp add: processWithMetrics_def Let_def ids v cfg ledger_ports_def s p)
  then show ?thesis by (simp add: ProcessAttempt_def)
qed

theorem acknowledged_messages_are_complete_witness:
  "\<exists>w'. handler (wired sample_aws map_db (\<lambda>_. []) sample_config store_ports) (\<lambda>_. []) no_cancel sample_config
      (\<lambda>_. Inr delivered_job) [sample_record] finished_world = (w', [])
    \<and> chunk_is (map_of w') ''f'' ''00000001'' ChunkStateCompleted"
proof -
  obtain w' where h: "handler (wired sample_aws map_db (\<lambda>_. []) sample_config store_ports) (\<lambda>_. []) no_cancel sample_config
      (\<lambda>_. Inr delivered_job) [sample_record] finished_world = (w', [])"
    using duplicate_is_acknowledged by blast
  have "cf_LedgerTable sample_config \<noteq> []" "cj_JobID delivered_job = ''f''" "cj_ChunkID delivered_job = ''00000001''"
    "cj_Control delivered_job \<noteq> ''completion''"
    by (simp_all add: sample_config_def delivered_job_def sample_chunk_def zero_records)
  with acknowledged_messages_are_complete [OF sample_contract store_ports_off_table this(1) finished_reachable h, of sample_record delivered_job]
    h show ?thesis by auto
qed

end
