(* ===== verification/Prefix_Config.thy ===== *)
theory Prefix_Config
  imports Messages Go_Std
begin

section \<open>Prefix configurations\<close>

text \<open>
  \<^verbatim>\<open>internal/platform/aws/prefix_configuration.go\<close>. The parameter store is a function on the
  state \<open>'w\<close> of the world that returns a page of parameters and the token of the next page; a
  parameter's value is given as what the JSON decoder makes of it. The loop over the pages takes
  fuel; \<open>PagesLeft\<close> is the run that would go on.
\<close>

record 'a parameter =
  pm_Name :: string
  pm_Value :: "string + 'a"
  pm_Version :: int64

datatype prefix_error =
    ReadParametersFailed string
  | BadParameter string string
  | NoMatch string string
  | PagesLeft

definition trim_right_slash :: "string \<Rightarrow> string" where
  "trim_right_slash s = rev (dropWhile (\<lambda>c. c = CHR ''/'') (rev s))"

definition config_path :: "string \<Rightarrow> string \<Rightarrow> string" where
  "config_path fileConfigPath bucket = trim_right_slash fileConfigPath @ ''/'' @ bucket @ ''/''"

text \<open>The selection so far: configuration, parameter name and version.\<close>

type_synonym selection = "PrefixConfiguration \<times> string \<times> int64"

definition no_selection :: selection where
  "no_selection = (zero_PrefixConfiguration, [], 0)"

definition takes_over :: "string \<Rightarrow> string \<Rightarrow> PrefixConfiguration \<Rightarrow> PrefixConfiguration \<Rightarrow> bool" where
  "takes_over bucket key candidate selected \<longleftrightarrow>
     pc_Bucket candidate = bucket \<and> has_prefix key (pc_Prefix candidate)
     \<and> length (pc_Prefix candidate) > length (pc_Prefix selected)"

fun select_page ::
  "string \<Rightarrow> string \<Rightarrow> PrefixConfiguration parameter list \<Rightarrow> selection \<Rightarrow> prefix_error + selection" where
  "select_page bucket key [] sel = Inr sel"
| "select_page bucket key (p # ps) sel =
    (case pm_Value p of
       Inl e \<Rightarrow> Inl (BadParameter (pm_Name p) e)
     | Inr candidate \<Rightarrow>
         select_page bucket key ps
           (if takes_over bucket key candidate (fst sel) then (candidate, pm_Name p, pm_Version p) else sel))"

fun select_pages ::
  "nat \<Rightarrow> (string option \<Rightarrow> 'w \<Rightarrow> 'w \<times> (string + PrefixConfiguration parameter list \<times> string option))
    \<Rightarrow> string \<Rightarrow> string \<Rightarrow> string option \<Rightarrow> selection \<Rightarrow> 'w \<Rightarrow> 'w \<times> (prefix_error + selection)" where
  "select_pages 0 get bucket key token sel w = (w, Inl PagesLeft)"
| "select_pages (Suc n) get bucket key token sel w =
    (case get token w of
       (w, Inl e) \<Rightarrow> (w, Inl (ReadParametersFailed e))
     | (w, Inr (ps, nxt)) \<Rightarrow>
         (case select_page bucket key ps sel of
            Inl e \<Rightarrow> (w, Inl e)
          | Inr sel' \<Rightarrow> if nxt = None then (w, Inr sel') else select_pages n get bucket key nxt sel' w))"

definition ResolvePrefixConfiguration ::
  "nat \<Rightarrow> (string \<Rightarrow> string option \<Rightarrow> 'w \<Rightarrow> 'w \<times> (string + PrefixConfiguration parameter list \<times> string option))
    \<Rightarrow> (PrefixConfiguration \<Rightarrow> string) \<Rightarrow> ('w \<Rightarrow> string) \<Rightarrow> string \<Rightarrow> string \<Rightarrow> string \<Rightarrow> 'w
    \<Rightarrow> 'w \<times> (prefix_error + PrefixConfiguration \<times> ConfigurationSnapshot)" where
  "ResolvePrefixConfiguration pages get marshal now fileConfigPath bucket key w =
    (case select_pages pages (get (config_path fileConfigPath bucket)) bucket key None no_selection w of
       (w, Inl e) \<Rightarrow> (w, Inl e)
     | (w, Inr (selected, name, version)) \<Rightarrow>
         if pc_Prefix selected = [] then (w, Inl (NoMatch bucket key))
         else (w, Inr (selected,
           zero_ConfigurationSnapshot\<lparr>cs_Configuration := selected, cs_ConfigHash := sha256_hex (marshal selected),
             cs_ParameterName := name, cs_ParameterVersion := version, cs_Responsible := pc_Responsible selected,
             cs_LoadedAt := now w\<rparr>)))"

text \<open>\<^verbatim>\<open>LoadGlobalLimits\<close>: the limits, the version and the name of their parameter.\<close>

definition LoadGlobalLimits ::
  "(string \<Rightarrow> 'w \<Rightarrow> 'w \<times> (string + GlobalLimits parameter)) \<Rightarrow> string \<Rightarrow> 'w
    \<Rightarrow> 'w \<times> (prefix_error + GlobalLimits \<times> int64 \<times> string)" where
  "LoadGlobalLimits get name w =
    (case get name w of
       (w, Inl e) \<Rightarrow> (w, Inl (ReadParametersFailed e))
     | (w, Inr p) \<Rightarrow>
         (case pm_Value p of
            Inl e \<Rightarrow> (w, Inl (BadParameter name e))
          | Inr limits \<Rightarrow> (w, Inr (limits, pm_Version p, name))))"

subsection \<open>The most specific prefix\<close>

text \<open>The parameters of all pages, in order, as the loop sees them.\<close>

fun all_parameters ::
  "nat \<Rightarrow> (string option \<Rightarrow> 'w \<Rightarrow> 'w \<times> (string + PrefixConfiguration parameter list \<times> string option))
    \<Rightarrow> string option \<Rightarrow> 'w \<Rightarrow> PrefixConfiguration parameter list" where
  "all_parameters 0 get token w = []"
| "all_parameters (Suc n) get token w =
    (case get token w of
       (w, Inl e) \<Rightarrow> []
     | (w, Inr (ps, nxt)) \<Rightarrow> ps @ (if nxt = None then [] else all_parameters n get nxt w))"

definition applies :: "string \<Rightarrow> string \<Rightarrow> PrefixConfiguration \<Rightarrow> bool" where
  "applies bucket key c \<longleftrightarrow> pc_Bucket c = bucket \<and> has_prefix key (pc_Prefix c)"

text \<open>The invariant of the selection: nothing seen so far is more specific.\<close>

definition best_of :: "string \<Rightarrow> string \<Rightarrow> PrefixConfiguration parameter list \<Rightarrow> selection \<Rightarrow> bool" where
  "best_of bucket key ps sel \<longleftrightarrow>
     (sel = no_selection \<or> applies bucket key (fst sel)
        \<and> (\<exists>p\<in>set ps. pm_Value p = Inr (fst sel) \<and> pm_Name p = fst (snd sel) \<and> pm_Version p = snd (snd sel)))
     \<and> (\<forall>p\<in>set ps. \<forall>c. pm_Value p = Inr c \<longrightarrow> applies bucket key c \<longrightarrow> length (pc_Prefix c) \<le> length (pc_Prefix (fst sel)))"

lemma select_page_best:
  "best_of bucket key qs sel \<Longrightarrow> select_page bucket key ps sel = Inr sel' \<Longrightarrow> best_of bucket key (qs @ ps) sel'"
proof (induction ps arbitrary: qs sel)
  case (Cons p ps)
  obtain c where c: "pm_Value p = Inr c"
    using Cons.prems(2) by (cases "pm_Value p") auto
  let ?s = "if takes_over bucket key c (fst sel) then (c, pm_Name p, pm_Version p) else sel"
  have "best_of bucket key (qs @ [p]) ?s"
    using Cons.prems(1) c unfolding best_of_def takes_over_def applies_def by force
  moreover have "select_page bucket key ps ?s = Inr sel'"
    using Cons.prems(2) c by simp
  ultimately show ?case using Cons.IH [of "qs @ [p]"] by simp
qed simp

lemma select_pages_best:
  "best_of bucket key qs sel \<Longrightarrow> select_pages n get bucket key token sel w = (w', Inr sel')
    \<Longrightarrow> best_of bucket key (qs @ all_parameters n get token w) sel'"
proof (induction n arbitrary: qs token sel w)
  case (Suc n)
  obtain w1 ps nxt sel1 where g: "get token w = (w1, Inr (ps, nxt))" "select_page bucket key ps sel = Inr sel1"
    using Suc.prems(2) by (auto split: prod.splits sum.splits)
  note B = select_page_best [OF Suc.prems(1) g(2)]
  show ?case
  proof (cases nxt)
    case None
    with Suc.prems(2) g B show ?thesis by simp
  next
    case (Some k)
    with Suc.prems(2) g have "select_pages n get bucket key nxt sel1 w1 = (w', Inr sel')" by simp
    from Suc.IH [OF B this] g Some show ?thesis by simp
  qed
qed simp

text \<open>
  C22. The most specific configuration wins: what \<^verbatim>\<open>ResolvePrefixConfiguration\<close> returns is one of the
  stored parameters, its bucket is the object's bucket, its prefix is not empty and a prefix of
  the key, no stored configuration that applies has a longer prefix, and the snapshot carries
  the configuration, the hash of its encoding, and the name and version of its parameter.
\<close>

theorem resolved_configuration_is_most_specific:
  assumes "ResolvePrefixConfiguration pages get marshal now path bucket key w = (w', Inr (c, snapshot))"
  defines "ps \<equiv> all_parameters pages (get (config_path path bucket)) None w"
  shows "applies bucket key c \<and> pc_Prefix c \<noteq> []
    \<and> (\<exists>p\<in>set ps. pm_Value p = Inr c \<and> pm_Name p = cs_ParameterName snapshot \<and> pm_Version p = cs_ParameterVersion snapshot)
    \<and> (\<forall>p\<in>set ps. \<forall>d. pm_Value p = Inr d \<longrightarrow> applies bucket key d \<longrightarrow> length (pc_Prefix d) \<le> length (pc_Prefix c))
    \<and> cs_Configuration snapshot = c \<and> cs_ConfigHash snapshot = sha256_hex (marshal c)"
proof -
  obtain w1 name version where s: "select_pages pages (get (config_path path bucket)) bucket key None no_selection w
      = (w1, Inr (c, name, version))" "pc_Prefix c \<noteq> []"
    and snap: "cs_Configuration snapshot = c" "cs_ConfigHash snapshot = sha256_hex (marshal c)"
      "cs_ParameterName snapshot = name" "cs_ParameterVersion snapshot = version"
    using assms(1) by (auto simp: ResolvePrefixConfiguration_def split: prod.splits sum.splits if_splits)
  have "best_of bucket key [] no_selection" by (simp add: best_of_def)
  from select_pages_best [OF this s(1)] have "best_of bucket key ps (c, name, version)"
    by (simp add: ps_def)
  moreover have "(c, name, version) \<noteq> no_selection"
    using s(2) by (auto simp: no_selection_def zero_PrefixConfiguration_def)
  ultimately show ?thesis
    using s(2) snap unfolding best_of_def by auto
qed


text \<open>Two pages, the second with the longer prefix.\<close>

definition prefix_parameter :: "string \<Rightarrow> PrefixConfiguration parameter" where
  "prefix_parameter p =
    \<lparr>pm_Name = p, pm_Value = Inr (zero_PrefixConfiguration\<lparr>pc_Bucket := ''b'', pc_Prefix := p\<rparr>), pm_Version = 1\<rparr>"

definition two_pages :: "string \<Rightarrow> string option \<Rightarrow> 'w \<Rightarrow> 'w \<times> (string + PrefixConfiguration parameter list \<times> string option)" where
  "two_pages path token w =
    (w, Inr (if token = None then ([prefix_parameter ''in/''], Some ''t'') else ([prefix_parameter ''in/a/''], None)))"

lemma two_pages_selected:
  "\<exists>c s. ResolvePrefixConfiguration 2 two_pages (\<lambda>_. []) (\<lambda>_. []) ''/f2e/'' ''b'' ''in/a/x'' w = (w, Inr (c, s))"
proof -
  have "select_pages 2 (two_pages path) ''b'' ''in/a/x'' None no_selection w
      = (w, Inr (zero_PrefixConfiguration\<lparr>pc_Bucket := ''b'', pc_Prefix := ''in/a/''\<rparr>, ''in/a/'', 1))" for path
    by (simp add: numeral_2_eq_2 two_pages_def prefix_parameter_def takes_over_def no_selection_def has_prefix_def
        zero_PrefixConfiguration_def)
  then show ?thesis by (simp add: ResolvePrefixConfiguration_def)
qed

theorem resolved_configuration_is_most_specific_witness:
  "\<exists>c s. ResolvePrefixConfiguration 2 two_pages (\<lambda>_. []) (\<lambda>_. []) ''/f2e/'' ''b'' ''in/a/x'' () = ((), Inr (c, s))
     \<and> 5 \<le> length (pc_Prefix c) \<and> applies ''b'' ''in/a/x'' c"
proof -
  obtain c s where r: "ResolvePrefixConfiguration 2 two_pages (\<lambda>_. []) (\<lambda>_. []) ''/f2e/'' ''b'' ''in/a/x'' () = ((), Inr (c, s))"
    using two_pages_selected [of "()"] by (elim exE) (rule that)
  note T = resolved_configuration_is_most_specific [OF r]
  have "prefix_parameter ''in/a/'' \<in> set (all_parameters 2 (two_pages (config_path ''/f2e/'' ''b'')) None ())"
    by (simp add: numeral_2_eq_2 two_pages_def)
  moreover have "pm_Value (prefix_parameter ''in/a/'') = Inr (zero_PrefixConfiguration\<lparr>pc_Bucket := ''b'', pc_Prefix := ''in/a/''\<rparr>)"
    "applies ''b'' ''in/a/x'' (zero_PrefixConfiguration\<lparr>pc_Bucket := ''b'', pc_Prefix := ''in/a/''\<rparr>)"
    by (simp_all add: prefix_parameter_def applies_def has_prefix_def)
  ultimately have "length (pc_Prefix (zero_PrefixConfiguration\<lparr>pc_Bucket := ''b'', pc_Prefix := ''in/a/''\<rparr>)) \<le> length (pc_Prefix c)"
    using T by blast
  with r T show ?thesis by auto
qed

end
