(* ===== verification/S3_Event.thy ===== *)
theory S3_Event
  imports Messages Go_Std
begin

section \<open>S3 notifications\<close>

text \<open>
  \<^verbatim>\<open>internal/adapter/inbound/s3event/notification.go\<close> and the encoder of test notifications of
  \<^verbatim>\<open>cmd/organizer/main.go\<close>. The JSON decoder is an argument (\<open>decode\<close>); what it decodes is the
  record \<open>s3_record\<close>. \<^verbatim>\<open>url.QueryUnescape\<close>, \<^verbatim>\<open>url.QueryEscape\<close> and the replacement of \<^verbatim>\<open>+\<close> are
  written out on bytes.
\<close>

record s3_record =
  sr_EventName :: string
  sr_BucketName :: string
  sr_Key :: string
  sr_VersionID :: string
  sr_Size :: int64
  sr_ETag :: string
  sr_Sequencer :: string

record Notification =
  nt_Records :: "s3_record list"

subsection \<open>Percent encoding\<close>

definition upper_hex :: "nat \<Rightarrow> char" where
  "upper_hex d = char_of (if d < 10 then 48 + d else 55 + d)"

definition is_hex :: "char \<Rightarrow> bool" where
  "is_hex c \<longleftrightarrow> (let n = of_char c :: nat in 48 \<le> n \<and> n \<le> 57 \<or> 65 \<le> n \<and> n \<le> 70 \<or> 97 \<le> n \<and> n \<le> 102)"

definition unhex :: "char \<Rightarrow> nat" where
  "unhex c = (let n = of_char c :: nat in if n \<le> 57 then n - 48 else if n \<le> 70 then n - 55 else n - 87)"

text \<open>The bytes \<^verbatim>\<open>QueryEscape\<close> leaves alone.\<close>

definition unreserved :: "char \<Rightarrow> bool" where
  "unreserved c \<longleftrightarrow> (let n = of_char c :: nat in
     48 \<le> n \<and> n \<le> 57 \<or> 65 \<le> n \<and> n \<le> 90 \<or> 97 \<le> n \<and> n \<le> 122 \<or> c \<in> {CHR ''-'', CHR ''_'', CHR ''.'', CHR ''~''})"

definition escape_byte :: "char \<Rightarrow> string" where
  "escape_byte c =
    (if c = CHR '' '' then ''+''
     else if unreserved c then [c]
     else [CHR 0x25, upper_hex (of_char c div 16), upper_hex (of_char c mod 16)])"

definition QueryEscape :: "string \<Rightarrow> string" where
  "QueryEscape s = concat (map escape_byte s)"

text \<open>\<open>None\<close> is the \<^verbatim>\<open>EscapeError\<close> of a percent sign without two hexadecimal digits.\<close>

fun QueryUnescape :: "string \<Rightarrow> string option" where
  "QueryUnescape [] = Some []"
| "QueryUnescape (c # s) =
    (if c = CHR 0x25 then
       (case s of
          a # b # t \<Rightarrow>
            if is_hex a \<and> is_hex b
            then map_option (\<lambda>r. char_of (16 * unhex a + unhex b) # r) (QueryUnescape t) else None
        | _ \<Rightarrow> None)
     else map_option (\<lambda>r. (if c = CHR ''+'' then CHR '' '' else c) # r) (QueryUnescape s))"

definition plus_to_percent :: "string \<Rightarrow> string" where
  "plus_to_percent s = concat (map (\<lambda>c. if c = CHR ''+'' then ''%20'' else [c]) s)"

subsection \<open>Parsing\<close>

datatype notification_error = BadNotification string | BadKey string

fun created_references :: "s3_record list \<Rightarrow> notification_error + FileReference list" where
  "created_references [] = Inr []"
| "created_references (r # rs) =
    (if \<not> has_prefix (sr_EventName r) ''ObjectCreated:'' then created_references rs
     else case QueryUnescape (plus_to_percent (sr_Key r)) of
       None \<Rightarrow> Inl (BadKey (sr_Key r))
     | Some key \<Rightarrow>
         (case created_references rs of
            Inl e \<Rightarrow> Inl e
          | Inr refs \<Rightarrow> Inr (\<lparr>fref_Bucket = sr_BucketName r, fref_Key = key, fref_VersionID = sr_VersionID r\<rparr> # refs)))"

definition Parse :: "(bytes \<Rightarrow> string + Notification) \<Rightarrow> bytes \<Rightarrow> notification_error + FileReference list" where
  "Parse decode body =
    (case decode body of Inl e \<Rightarrow> Inl (BadNotification e) | Inr n \<Rightarrow> created_references (nt_Records n))"

text \<open>\<^verbatim>\<open>singleS3Notification\<close>, before it is marshalled.\<close>

definition singleS3Notification :: "FileReference \<Rightarrow> Notification" where
  "singleS3Notification reference = \<lparr>nt_Records = [
     \<lparr>sr_EventName = ''ObjectCreated:Put'', sr_BucketName = fref_Bucket reference, sr_Key = QueryEscape (fref_Key reference),
      sr_VersionID = fref_VersionID reference, sr_Size = 0, sr_ETag = [], sr_Sequencer = []\<rparr>]\<rparr>"

subsection \<open>Reading back\<close>

lemma plus_to_percent_append: "plus_to_percent (a @ b) = plus_to_percent a @ plus_to_percent b"
  by (simp add: plus_to_percent_def)

lemma upper_hex_value:
  assumes "d < 16"
  shows "is_hex (upper_hex d) \<and> unhex (upper_hex d) = d \<and> upper_hex d \<noteq> CHR ''+''"
proof -
  have n: "(of_char (upper_hex d) :: nat) = (if d < 10 then 48 + d else 55 + d)"
    using assms by (simp add: upper_hex_def)
  then have "(of_char (upper_hex d) :: nat) \<noteq> of_char (CHR ''+'')"
    by simp
  then have "upper_hex d \<noteq> CHR ''+''" by metis
  then show ?thesis
    using assms by (simp add: is_hex_def unhex_def n Let_def)
qed

lemma unescape_escaped_byte:
  "QueryUnescape (plus_to_percent (escape_byte c) @ s) = map_option (\<lambda>r. c # r) (QueryUnescape s)"
proof -
  let ?n = "of_char c :: nat"
  have "?n div 16 < 16" "?n mod 16 < 16"
    using of_char_less_256 [of c] by (simp_all add: less_mult_imp_div_less)
  note hex = this [THEN upper_hex_value]
  have char: "char_of (16 * (?n div 16) + ?n mod 16) = c" by simp
  show ?thesis
  proof (cases "c = CHR '' ''")
    case True
    have "char_of (16 * unhex (CHR ''2'') + unhex (CHR ''0'')) = CHR '' ''" "is_hex (CHR ''2'')" "is_hex (CHR ''0'')"
      by code_simp+
    with True show ?thesis by (simp add: escape_byte_def plus_to_percent_def)
  next
    case False
    have "\<not> unreserved (CHR 0x25)" "\<not> unreserved (CHR ''+'')" by code_simp+
    then show ?thesis
      using False hex char by (auto simp: escape_byte_def plus_to_percent_def)
  qed
qed

lemma unescape_escape: "QueryUnescape (plus_to_percent (QueryEscape s)) = Some s"
  by (induction s) (simp_all add: QueryEscape_def plus_to_percent_append unescape_escaped_byte plus_to_percent_def [of "[]"])

text \<open>
  C30. A notification reads back: from the notification written for a file, whatever bytes its key
  has (spaces, plus signs, percent signs, non-ASCII), the Organizer takes exactly this file.
\<close>

theorem notification_reads_back:
  assumes "decode body = Inr (singleS3Notification reference)"
  shows "Parse decode body = Inr [reference]"
  using assms by (simp add: Parse_def singleS3Notification_def unescape_escape has_prefix_def)

theorem notification_reads_back_witness:
  "Parse (\<lambda>_. Inr (singleS3Notification \<lparr>fref_Bucket = ''b'', fref_Key = ''a b+c%'', fref_VersionID = []\<rparr>)) []
     = Inr [\<lparr>fref_Bucket = ''b'', fref_Key = ''a b+c%'', fref_VersionID = []\<rparr>]"
  by (rule notification_reads_back) simp

end
