(* ===== verification/Ledger_Status.thy ===== *)
theory Ledger_Status
  imports Ledger_Behaviour
begin

section \<open>The statuses the ledger stores\<close>

text \<open>
  The state machine of the job status as the requests of the ledger really move it
  (\<open>job_edges\<close>, \<open>status_edge\<close>), read off every request, and what follows: only declared
  statuses are stored, PROCESSING is none of them, and a job whose scheduling failed stays in
  that status for ever. The table of transitions that \<^verbatim>\<open>states.go\<close> declares is compared with it.
\<close>

definition job_edges :: "(JobStatus \<times> JobStatus) list" where
  "job_edges =
     [(JobStateReceived, JobStateValidating), (JobStateReceived, JobStateRejected), (JobStateValidating, JobStateRejected),
      (JobStateValidating, JobStatePlanning),
      (JobPending, JobScheduled), (JobStatePlanning, JobScheduled),
      (JobPending, JobSchedulingFailed), (JobStatePlanning, JobSchedulingFailed),
      (JobPending, JobRunning), (JobScheduled, JobRunning),
      (JobPending, JobCompleted), (JobScheduled, JobCompleted), (JobRunning, JobCompleted),
      (JobPending, JobFailed), (JobScheduled, JobFailed), (JobRunning, JobFailed)]"

text \<open>Besides the edges: a new item starts as RECEIVED or PENDING, and sealing gives PENDING.\<close>

definition status_edge :: "bool \<Rightarrow> av option \<Rightarrow> av option \<Rightarrow> bool" where
  "status_edge sealed old new \<longleftrightarrow> new = old
     \<or> old = None \<and> (new = Some (S JobStateReceived) \<or> new = Some (S JobPending))
     \<or> \<not> sealed \<and> new = Some (S JobPending)
     \<or> (\<exists>(a, b) \<in> set job_edges. old = Some (S a) \<and> new = Some (S b))"

lemma edge_same [simp]: "status_edge sealed s s"
  by (simp add: status_edge_def)

lemma edge_in: "(a, b) \<in> set job_edges \<Longrightarrow> status_edge sealed (Some (S a)) (Some (S b))"
  unfolding status_edge_def by blast

abbreviation job_status_at :: "table \<Rightarrow> string \<Rightarrow> av option" where
  "job_status_at t j \<equiv> item_at t (j, SK_JOB) at_status"

abbreviation sealed_at :: "table \<Rightarrow> string \<Rightarrow> bool" where
  "sealed_at t j \<equiv> item_at t (j, SK_JOB) at_manifestSealed = Some (BOOL True)"

lemma status_write_edge:
  assumes "status_write w k froms to" "write_ok t w" "\<forall>s\<in>set froms. s = to \<or> (s, to) \<in> set job_edges"
  shows "status_edge (sealed_at t j) (job_status_at t j) (job_status_at (apply_write t w) j)"
proof (cases "j = k")
  case True
  obtain c us where w: "w = Update (k, SK_JOB) c us"
    and c: "\<forall>it. holds it c \<longrightarrow> (\<exists>i. it = Some i \<and> (\<exists>s\<in>set froms. i at_status = Some (S s)))"
    and us: "\<forall>i. foldl act i us at_status = Some (S to)"
    using assms(1) unfolding status_write_def by blast
  obtain i s where i: "t (k, SK_JOB) = Some i" "s \<in> set froms" "i at_status = Some (S s)"
    using assms(2) c by (auto simp: w)
  have "status_edge (sealed_at t j) (Some (S s)) (Some (S to))"
    using assms(3) i(2) by (auto intro: edge_in)
  then show ?thesis using us i True by (simp add: w acts_def)
next
  case False
  then show ?thesis using assms(1) by (auto simp: status_write_def)
qed

text \<open>A write to another item than the job item leaves the status of the job.\<close>

lemma other_item_status: "write_key w \<noteq> (j, SK_JOB) \<Longrightarrow> job_status_at (apply_write t w) j = job_status_at t j"
  by (cases w) auto

lemma active_edges:
  assumes "s = JobPending \<or> s = JobScheduled \<or> s = JobRunning" "to = JobRunning \<or> to = JobCompleted \<or> to = JobFailed"
  shows "s = to \<or> (s, to) \<in> set job_edges"
  using assms by (auto simp: job_edges_def)

lemma active_update_edge:
  assumes "holds (t (k, SK_JOB)) job_running_cond" "\<And>i. foldl act i us at_status = Some (S to)"
    and "to = JobRunning \<or> to = JobCompleted \<or> to = JobFailed"
  shows "status_edge (sealed_at t j) (job_status_at t j) (job_status_at (t((k, SK_JOB) \<mapsto> acts (t (k, SK_JOB)) us)) j)"
proof (cases "j = k")
  case True
  obtain i s where i: "t (k, SK_JOB) = Some i" "i at_status = Some (S s)" "s = JobPending \<or> s = JobScheduled \<or> s = JobRunning"
    using assms(1) unfolding job_running_cond_def by (cases "t (k, SK_JOB)") auto
  have "status_edge (sealed_at t j) (Some (S s)) (Some (S to))"
    using active_edges [OF i(3) assms(3)] by (auto intro: edge_in)
  then show ?thesis using True i assms(2) by (simp add: acts_def)
qed simp

text \<open>Both halves of a transaction: the chunk item first, then the job item.\<close>

lemma pair_edge:
  assumes "transact_ok t [Update (k, SK_CHUNK c) c1 us1, Update (k, SK_JOB) job_running_cond (Set at_status (S to) # us)]"
    and "at_status \<notin> target ` set us" "to = JobRunning \<or> to = JobCompleted \<or> to = JobFailed"
  shows "status_edge (sealed_at t j) (job_status_at t j)
    (job_status_at (apply_writes t [Update (k, SK_CHUNK c) c1 us1, Update (k, SK_JOB) job_running_cond (Set at_status (S to) # us)]) j)"
proof -
  have f: "foldl act i (Set at_status (S to) # us) at_status = Some (S to)" for i
    using foldl_act_other [OF assms(2), of "act i (Set at_status (S to))"] by (simp add: act_rules)
  have "holds (t (k, SK_JOB)) job_running_cond" using assms(1) by simp
  from active_update_edge [of t k "Set at_status (S to) # us" to, OF this f assms(3), of j] show ?thesis
    by (cases "j = k") simp_all
qed

lemma reason_targets: "at_status \<notin> target ` set (reason_actions c)"
  by (auto simp: reason_actions_def)

lemma request_edge:
  assumes "ledger_request ws" "transact_ok t ws"
  shows "status_edge (sealed_at t j) (job_status_at t j) (job_status_at (apply_writes t ws) j)"
  using assms
proof cases
  case (req_plan_head a plan)
  then show ?thesis
    by (cases "j = jp_JobID plan")
      (auto simp: plan_head_write_def acts_item_at act_rules status_edge_def split: option.splits)
next
  case (req_seal a plan now)
  then show ?thesis
    using assms(2)
    by (cases "j = jp_JobID plan") (auto simp: plan_seal_write_def acts_item_at act_rules status_edge_def item_at_def split: option.splits)
next
  case (req_mark_scheduled a k message now)
  have "\<forall>s\<in>set [JobPending, JobStatePlanning, JobScheduled]. s = JobScheduled \<or> (s, JobScheduled) \<in> set job_edges"
    by (simp add: job_edges_def)
  then show ?thesis
    using assms(2) req_mark_scheduled status_write_edge [OF status_write_mark_scheduled] by simp
next
  case (req_mark_failed a k message now)
  have "\<forall>s\<in>set [JobPending, JobStatePlanning, JobSchedulingFailed]. s = JobSchedulingFailed \<or> (s, JobSchedulingFailed) \<in> set job_edges"
    by (simp add: job_edges_def)
  then show ?thesis
    using assms(2) req_mark_failed status_write_edge [OF status_write_mark_failed] by simp
next
  case (req_complete a r)
  have ok: "transact_ok t (complete_chunk_writes a r)" using assms(2) req_complete by simp
  show ?thesis
    unfolding req_complete complete_chunk_writes_def Let_def append_Cons append_Nil
    by (rule pair_edge) (use ok reason_targets in \<open>simp_all add: complete_chunk_writes_def Let_def\<close>)
next
  case (req_fail a r)
  then have ok: "transact_ok t (fail_chunk_writes a r)" using assms(2) by simp
  show ?thesis
    unfolding req_fail fail_chunk_writes_def
    by (rule pair_edge) (use ok in \<open>simp_all add: fail_chunk_writes_def\<close>)
next
  case (req_validate a k now)
  then show ?thesis
    using assms(2) status_write_edge [OF status_write_advance, of "[JobStateReceived]" "[]" t a k JobStateValidating]
    by (simp add: job_edges_def)
next
  case (req_reject a k reason v now)
  then show ?thesis
    using assms(2) status_write_edge [OF status_write_advance, of "[JobStateReceived, JobStateValidating]" "[Set at_rejection v]" t a k JobStateRejected]
    by (simp add: job_edges_def)
next
  case (req_begin_planning a k now)
  then show ?thesis
    using assms(2) status_write_edge [OF status_write_advance, of "[JobStateValidating]" "[]" t a k JobStatePlanning]
    by (simp add: job_edges_def)
next
  case (req_admit a rc token now)
  then show ?thesis
    using assms(2)
    by (cases "j = rc_FileID rc") (auto simp: admit_write_def admission_item_def Let_def status_edge_def)
next
  case (req_reclaim a k token now)
  then show ?thesis
    by (cases "j = k") (simp_all add: reclaim_write_def acts_item_at act_rules)
qed (simp_all add: other_item_status plan_chunk_write_def scheduled_write_def start_chunk_write_def retry_chunk_write_def
  acquire_chunk_write_def deliver_write_def replay_audit_write_def)


lemma finish_edge:
  assumes "transact_ok t (finalize_writes a it k now now2)"
  shows "status_edge (sealed_at t j) (job_status_at t j) (job_status_at (apply_writes t (finalize_writes a it k now now2)) j)"
proof -
  let ?us = "[Set at_status (S (final_status it)), Set at_result (S (final_result it)),
        Set at_counts (countsMap (final_counts it)), Set at_completedAt (S (aws_format a now)),
        Set at_updatedAt (S (aws_format a now))]"
  have "holds (t (k, SK_JOB)) job_running_cond"
    using assms by (simp add: finalize_writes_def)
  from active_update_edge [of t k ?us "final_status it" j, OF this] show ?thesis
    by (cases "j = k") (simp_all add: finalize_writes_def act_rules final_status_def)
qed

lemma step_edge: "ledger_step t t' \<Longrightarrow> status_edge (sealed_at t j) (job_status_at t j) (job_status_at t' j)"
  by (erule ledger_step_cases) (simp_all add: request_edge finish_edge)

subsection \<open>Declared statuses\<close>

definition ledger_statuses :: "JobStatus list" where
  "ledger_statuses = [JobStateReceived, JobStateValidating, JobStatePlanning, JobStateRejected, JobPending, JobScheduled,
     JobSchedulingFailed, JobRunning, JobCompleted, JobFailed]"

definition declared :: "av option \<Rightarrow> bool" where
  "declared s \<longleftrightarrow> s = None \<or> (\<exists>a\<in>set ledger_statuses. s = Some (S a))"

lemma edge_targets: "(a, b) \<in> set job_edges \<Longrightarrow> b \<in> set ledger_statuses"
  by (auto simp: job_edges_def ledger_statuses_def)

lemma edge_declared: "status_edge sealed s s' \<Longrightarrow> declared s \<Longrightarrow> declared s'"
proof -
  have "JobStateReceived \<in> set ledger_statuses" "JobPending \<in> set ledger_statuses" by (simp_all add: ledger_statuses_def)
  then show "status_edge sealed s s' \<Longrightarrow> declared s \<Longrightarrow> declared s'"
    unfolding status_edge_def declared_def by (auto dest: edge_targets)
qed

text \<open>
  C32. The status of a job is always one of ten declared values: in every table any processes can
  reach, the status attribute of a job item is a string, namely a status the program declares,
  and it is never PROCESSING, the status that the transition table of \<^verbatim>\<open>states.go\<close> and the
  search for stuck jobs expect of a running job.
\<close>

theorem job_statuses_are_declared:
  assumes "ledger_step\<^sup>*\<^sup>* (\<lambda>_. None) t"
  shows "declared (job_status_at t j) \<and> job_status_at t j \<noteq> Some (S JobStateProcessing)"
proof -
  have d: "declared (job_status_at t j)"
    using assms
  proof (induction rule: rtranclp_induct)
    case base
    show ?case by (simp add: declared_def)
  next
    case (step t t')
    then show ?case using edge_declared [OF step_edge] by blast
  qed
  moreover have "JobStateProcessing \<notin> set ledger_statuses"
    by (simp add: ledger_statuses_def)
  ultimately show ?thesis by (auto simp: declared_def)
qed

theorem job_statuses_are_declared_witness:
  "declared (job_status_at (map_of finished_world) ''f'') \<and> job_status_at (map_of finished_world) ''f'' = Some (S JobCompleted)"
  using job_statuses_are_declared [OF finished_reachable, of "''f''"] finished_facts(1) by blast

subsection \<open>Scheduling failures\<close>

lemma sealed_step: "ledger_step t t' \<Longrightarrow> sealed_at t j \<Longrightarrow> sealed_at t' j"
proof -
  assume "ledger_step t t'" "sealed_at t j"
  then have "job_step j (view t j) (view t' j)" "jv_sealed (view t j)"
    using ledger_step_simulation by (auto simp: view_fields)
  then have "jv_sealed (view t' j)" by (cases rule: job_step_cases) auto
  then show "sealed_at t' j" by (simp add: view_fields)
qed

lemma no_edge_from_failed: "(JobSchedulingFailed, b) \<notin> set job_edges"
  by (simp add: job_edges_def)

text \<open>
  A scheduling failure is for ever: a job with a sealed manifest whose status is
  SCHEDULING_FAILED keeps this status in every table reached later, whatever any process calls.
  So chunks that did reach the queue can be started but never completed or failed, and the job
  never finishes, although the organizer's retry would send the missing ones.
\<close>

theorem scheduling_failure_is_final:
  assumes "ledger_step\<^sup>*\<^sup>* t t'" "sealed_at t j" "job_status_at t j = Some (S JobSchedulingFailed)"
  shows "job_status_at t' j = Some (S JobSchedulingFailed)"
proof -
  have "sealed_at t' j \<and> job_status_at t' j = Some (S JobSchedulingFailed)"
    using assms(1)
  proof (induction rule: rtranclp_induct)
    case (step t1 t2)
    then have "status_edge True (Some (S JobSchedulingFailed)) (job_status_at t2 j)"
      using step_edge [of t1 t2 j] by simp
    then have "job_status_at t2 j = Some (S JobSchedulingFailed)"
      using no_edge_from_failed by (auto simp: status_edge_def)
    with step sealed_step [of t1 t2 j] show ?case by blast
  qed (use assms in simp)
  then show ?thesis ..
qed

definition failed_scheduling_world :: store where
  "failed_scheduling_world = run_call 1 sample_aws map_db (C_MarkSchedulingFailed [''f''] ''send failed'') planned_world"

theorem scheduling_failure_is_final_witness:
  "job_status_at (map_of (run_calls 1 sample_aws map_db [C_StartChunk ''f'' ''00000001'' 1, C_CompleteChunk sample_result,
      C_MarkScheduled [''f'']] failed_scheduling_world)) ''f'' = Some (S JobSchedulingFailed)"
proof -
  have "case map_of failed_scheduling_world (''f'', SK_JOB) of None \<Rightarrow> False
      | Some it \<Rightarrow> it at_manifestSealed = Some (BOOL True) \<and> it at_status = Some (S JobSchedulingFailed)"
    by code_simp
  then have a: "sealed_at (map_of failed_scheduling_world) ''f''"
    and b: "job_status_at (map_of failed_scheduling_world) ''f'' = Some (S JobSchedulingFailed)"
    by (auto split: option.splits)
  have "ledger_inv (map_of failed_scheduling_world)"
    unfolding failed_scheduling_world_def by (intro reachable_ledger_inv call_reachable planned_reachable)
  note moved = run_calls_moves [OF sample_contract this]
  show ?thesis by (rule scheduling_failure_is_final [OF moved a b])
qed

subsection \<open>Chunks\<close>

abbreviation chunk_status_at :: "table \<Rightarrow> string \<Rightarrow> string \<Rightarrow> av option" where
  "chunk_status_at t j c \<equiv> item_at t (j, SK_CHUNK c) at_status"

definition chunk_edge :: "av option \<Rightarrow> av option \<Rightarrow> bool" where
  "chunk_edge old new \<longleftrightarrow> new = old \<or> old = None \<and> new = Some (S ChunkStatePending)
     \<or> (\<exists>a b. old = Some (S a) \<and> new = Some (S b) \<and> ChunkCanTransitionTo a b)"

lemma chunk_edge_same [simp]: "chunk_edge s s"
  by (simp add: chunk_edge_def)

lemma chunk_edges:
  "chunk_edge (Some (S ChunkStatePending)) (Some (S ChunkStateRunning))"
  "chunk_edge (Some (S ChunkStateRetryPending)) (Some (S ChunkStateRunning))"
  "chunk_edge (Some (S ChunkStateRunning)) (Some (S ChunkStateCompleted))"
  "chunk_edge (Some (S ChunkStateRunning)) (Some (S ChunkStateRetryPending))"
  "chunk_edge (Some (S ChunkStateRunning)) (Some (S ChunkStateFailed))"
  by (auto simp: chunk_edge_def ChunkCan_iff simp del: status_synonyms)


text \<open>A conditional write to a chunk item, alone or with a write to the job item.\<close>

lemma chunk_update_edge:
  assumes "transact_ok t (Update (k, SK_CHUNK d) cnd us # rest)" "\<And>i. foldl act i us at_status = Some (S to)"
    and "\<And>i. holds (Some i) cnd \<Longrightarrow> chunk_edge (i at_status) (Some (S to))" "\<not> holds None cnd"
    and "rest = [] \<or> (\<exists>c2 us2. rest = [Update (k, SK_JOB) c2 us2])"
  shows "chunk_edge (chunk_status_at t j c) (chunk_status_at (apply_writes t (Update (k, SK_CHUNK d) cnd us # rest)) j c)"
proof -
  have h: "holds (t (k, SK_CHUNK d)) cnd" using assms(1) by simp
  then obtain i where i: "t (k, SK_CHUNK d) = Some i" using assms(4) by (cases "t (k, SK_CHUNK d)") auto
  have e: "chunk_edge (i at_status) (Some (S to))" using assms(3) h i by simp
  have "chunk_edge (chunk_status_at t j c) (chunk_status_at (t((k, SK_CHUNK d) \<mapsto> acts (t (k, SK_CHUNK d)) us)) j c)"
    using e i assms(2) by (cases "(j, c) = (k, d)") (auto simp: acts_def)
  with assms(5) show ?thesis by auto
qed

lemma other_item_chunk: "write_key w \<noteq> (j, SK_CHUNK c) \<Longrightarrow> chunk_status_at (apply_write t w) j c = chunk_status_at t j c"
  by (cases w) auto

lemma request_chunk_edge:
  assumes "ledger_request ws" "transact_ok t ws"
  shows "chunk_edge (chunk_status_at t j c) (chunk_status_at (apply_writes t ws) j c)"
  using assms
proof cases
  case (req_plan_chunk a plan chunk)
  then show ?thesis
    by (cases "(j, c) = (jp_JobID plan, cj_ChunkID chunk)")
      (auto simp: plan_chunk_write_def acts_item_at act_rules chunk_edge_def split: option.splits)
next
  case (req_scheduled a chunk now)
  then show ?thesis
    by (cases "(j, c) = (cj_JobID chunk, cj_ChunkID chunk)") (auto simp: scheduled_write_def acts_item_at act_rules)
next
  case (req_start a k d attempt now)
  show ?thesis
    unfolding req_start start_chunk_write_def
    by (rule chunk_update_edge [where to = ChunkStateRunning])
      (use assms(2) req_start chunk_edges in \<open>auto simp: start_chunk_write_def act_rules\<close>)
next
  case (req_acquire a k d token now)
  show ?thesis
    unfolding req_acquire acquire_chunk_write_def
    by (rule chunk_update_edge [where to = ChunkStateRunning])
      (use assms(2) req_acquire chunk_edges in \<open>auto simp: acquire_chunk_write_def act_rules\<close>)
next
  case (req_retry a r)
  show ?thesis
    unfolding req_retry retry_chunk_write_def
    by (rule chunk_update_edge [where to = ChunkStateRetryPending])
      (use assms(2) req_retry chunk_edges in \<open>auto simp: retry_chunk_write_def act_rules owned_chunk_cond_def\<close>)
next
  case (req_complete a r)
  show ?thesis
    unfolding req_complete complete_chunk_writes_def Let_def
    by (rule chunk_update_edge [where to = ChunkStateCompleted])
      (use assms(2) req_complete chunk_edges in \<open>auto simp: complete_chunk_writes_def Let_def act_rules owned_chunk_cond_def\<close>)
next
  case (req_fail a r)
  show ?thesis
    unfolding req_fail fail_chunk_writes_def
    by (rule chunk_update_edge [where to = ChunkStateFailed])
      (use assms(2) req_fail chunk_edges in \<open>auto simp: fail_chunk_writes_def act_rules owned_chunk_cond_def\<close>)
qed (simp_all add: other_item_chunk plan_head_write_def plan_seal_write_def mark_job_write_def advance_write_def admit_write_def
  reclaim_write_def deliver_write_def replay_audit_write_def)

text \<open>
  C21. The chunks live by the declared state machine: whatever request any process sends, a chunk
  item is created PENDING, and afterwards its status changes only along the transitions that
  \<^verbatim>\<open>CanTransitionTo\<close> of \<^verbatim>\<open>states.go\<close> allows; in particular a terminal chunk is never left.
\<close>

theorem chunks_follow_the_declared_transitions:
  assumes "ledger_step t t'"
  shows "chunk_status_at t' j c = chunk_status_at t j c
    \<or> chunk_status_at t j c = None \<and> chunk_status_at t' j c = Some (S ChunkStatePending)
    \<or> (\<exists>a b. chunk_status_at t j c = Some (S a) \<and> chunk_status_at t' j c = Some (S b)
         \<and> ChunkCanTransitionTo a b \<and> \<not> ChunkTerminal a)"
proof -
  have "chunk_edge (chunk_status_at t j c) (chunk_status_at t' j c)"
    using assms by (elim ledger_step_cases) (simp_all add: request_chunk_edge finalize_writes_def)
  then show ?thesis
    unfolding chunk_edge_def using chunk_machine.terminal_stuck by blast
qed

theorem chunks_follow_the_declared_transitions_witness:
  "\<exists>a. chunk_status_at (map_of planned_world) ''f'' ''00000001'' = Some (S a) \<and> ChunkCanTransitionTo a ChunkStateRunning"
proof -
  let ?w = "start_chunk_write sample_aws ''f'' ''00000001'' 1 0" and ?t = "map_of planned_world"
  have "write_ok ?t ?w" by code_simp
  then have step: "ledger_step ?t (apply_write ?t ?w)"
    using step_request [OF req_start, of ?t] by simp
  have "chunk_is (apply_write ?t ?w) ''f'' ''00000001'' ChunkStateRunning" by (rule start_effect)
  then have new: "chunk_status_at (apply_write ?t ?w) ''f'' ''00000001'' = Some (S ChunkStateRunning)"
    by (auto simp: chunk_is_def)
  have old: "chunk_status_at ?t ''f'' ''00000001'' \<noteq> None \<and> chunk_status_at ?t ''f'' ''00000001'' \<noteq> Some (S ChunkStateRunning)"
    by code_simp
  show ?thesis
    using chunks_follow_the_declared_transitions [OF step, of "''f''" "''00000001''"] old unfolding new by auto
qed

end
