(* ===== verification/Publisher.thy ===== *)
theory Publisher
  imports Ledger_Status Sender
begin

section \<open>Publishing the chunks of a plan\<close>

text \<open>
  \<^verbatim>\<open>Publish\<close> and \<^verbatim>\<open>Replay\<close> of \<^verbatim>\<open>internal/application/organizer/service.go\<close>: persist the plan of
  every job, take the chunks that are not yet scheduled, send them in batches of at most ten
  with three attempts each, and checkpoint every confirmed chunk in the ledger. The ports are
  functions on the state \<open>'w\<close> of the world. Go ranges over the map of jobs in any order:
  \<open>op_order\<close> gives the order of the keys. A chunk job always encodes; its JSON text is
  \<open>op_marshal\<close>.
\<close>

subsection \<open>The ports\<close>

record 'w plan_ports =
  pl_Admit :: "Receipt \<Rightarrow> 'w \<Rightarrow> 'w \<times> AcquisitionResult \<times> string option"
  pl_BeginValidation :: "string \<Rightarrow> 'w \<Rightarrow> 'w \<times> string option"
  pl_BeginPlanning :: "string \<Rightarrow> 'w \<Rightarrow> 'w \<times> string option"
  pl_Plan :: "JobPlan \<Rightarrow> ChunkJob list \<Rightarrow> 'w \<Rightarrow> 'w \<times> string option"
  pl_UnscheduledChunks :: "string \<Rightarrow> 'w \<Rightarrow> 'w \<times> (string + ChunkJob list)"
  pl_MarkChunksScheduled :: "ChunkJob list \<Rightarrow> 'w \<Rightarrow> 'w \<times> string option"
  pl_MarkScheduled :: "string list \<Rightarrow> 'w \<Rightarrow> 'w \<times> string option"
  pl_MarkSchedulingFailed :: "string list \<Rightarrow> string \<Rightarrow> 'w \<Rightarrow> 'w \<times> string option"
  pl_Replay :: "string \<Rightarrow> string \<Rightarrow> string list \<Rightarrow> 'w \<Rightarrow> 'w \<times> (string + ChunkJob list)"

record 'w organizer_ports =
  op_Send :: "string \<Rightarrow> OutboundMessage list \<Rightarrow> 'w \<Rightarrow> 'w \<times> (string + int list)"
  op_Ledger :: "'w plan_ports option"
  op_order :: "string list \<Rightarrow> string list"
  op_marshal :: "ChunkJob \<Rightarrow> string"
  op_pause :: "nat \<Rightarrow> 'w \<Rightarrow> 'w \<times> string option"
  op_now :: "'w \<Rightarrow> int"
  op_random :: "'w \<Rightarrow> string"

datatype publish_fault =
    PersistFailed string
  | LoadFailed string
  | NoQueue string
  | SendRefused string
  | InvalidIndex int
  | CheckpointFailed string
  | Cancelled string
  | PartialFailure
  | MarkScheduledFailed string
  | MarkFailedFailed publish_fault string
  | ReplayRefused
  | ReplayLoadFailed string

subsection \<open>Planning the jobs\<close>

definition plan_of :: "ChunkJob list \<Rightarrow> int \<Rightarrow> JobPlan" where
  "plan_of chunks now =
    (let first = hd chunks in
     \<lparr>jp_JobID = cj_JobID first, jp_FileID = cj_FileID first, jp_Bucket = cj_Bucket first, jp_Key = cj_Key first,
      jp_VersionID = cj_VersionID first, jp_ETag = cj_ETag first, jp_FileSize = cj_FileSize first,
      jp_ExpectedChunks = int (length chunks), jp_CreatedAt = now, jp_ConfigSnapshot = cj_ConfigSnapshot first\<rparr>)"

fun plan_groups ::
  "'w organizer_ports \<Rightarrow> 'w plan_ports \<Rightarrow> ChunkJob list \<Rightarrow> string list \<Rightarrow> 'w
    \<Rightarrow> 'w \<times> (publish_fault + ChunkJob list \<times> string list)" where
  "plan_groups ports l jobs [] w = (w, Inr ([], []))"
| "plan_groups ports l jobs (k # ks) w =
    (let chunks = filter (\<lambda>j. cj_JobID j = k) jobs in
     case pl_Plan l (plan_of chunks (op_now ports w)) chunks w of
       (w1, Some e) \<Rightarrow> (w1, Inl (PersistFailed e))
     | (w1, None) \<Rightarrow>
         (case pl_UnscheduledChunks l k w1 of
            (w2, Inl e) \<Rightarrow> (w2, Inl (LoadFailed e))
          | (w2, Inr unscheduled) \<Rightarrow>
              (case plan_groups ports l jobs ks w2 of
                 (w3, Inl e) \<Rightarrow> (w3, Inl e)
               | (w3, Inr (js, ids)) \<Rightarrow> (w3, Inr (unscheduled @ js, k # ids)))))"

definition is_control :: "ChunkJob \<Rightarrow> bool" where
  "is_control j \<longleftrightarrow> cj_Control j = ''completion''"

text \<open>What to publish, and the jobs to mark afterwards.\<close>

definition to_publish ::
  "'w organizer_ports \<Rightarrow> ChunkJob list \<Rightarrow> 'w \<Rightarrow> 'w \<times> (publish_fault + ChunkJob list \<times> string list)" where
  "to_publish ports jobs w =
    (let controls = filter is_control jobs; planned = filter (\<lambda>j. \<not> is_control j) jobs in
     case op_Ledger ports of
       None \<Rightarrow> (w, Inr (planned @ controls, []))
     | Some l \<Rightarrow>
         (case plan_groups ports l planned (op_order ports (remdups (map cj_JobID planned))) w of
            (w1, Inl e) \<Rightarrow> (w1, Inl e)
          | (w1, Inr (js, ids)) \<Rightarrow> (w1, Inr (js @ controls, ids))))"

subsection \<open>Sending\<close>

definition checkpoint :: "'w organizer_ports \<Rightarrow> ChunkJob list \<Rightarrow> 'w \<Rightarrow> 'w \<times> publish_fault option" where
  "checkpoint ports js w =
    (case op_Ledger ports of
       None \<Rightarrow> (w, None)
     | Some l \<Rightarrow> map_prod id (map_option CheckpointFailed) (pl_MarkChunksScheduled l js w))"

text \<open>
  One batch: the messages with their jobs. \<open>n\<close> counts the attempts that are left; the code
  leaves the loop after the third.
\<close>

fun flush_attempts ::
  "nat \<Rightarrow> 'w organizer_ports \<Rightarrow> string \<Rightarrow> nat \<Rightarrow> (OutboundMessage \<times> ChunkJob) list \<Rightarrow> 'w \<Rightarrow> 'w \<times> publish_fault option" where
  "flush_attempts 0 ports url attempt pending w = (w, Some PartialFailure)"
| "flush_attempts (Suc n) ports url attempt pending w =
    (let pause = (\<lambda>next w. case op_pause ports attempt w of
            (w', Some e) \<Rightarrow> (w', Some (Cancelled e))
          | (w', None) \<Rightarrow> flush_attempts n ports url (attempt + 1) next w')
     in case op_Send ports url (map fst pending) w of
       (w1, Inl e) \<Rightarrow> if attempt = 2 then (w1, Some (SendRefused e)) else pause pending w1
     | (w1, Inr failed) \<Rightarrow>
         if failed = [] then checkpoint ports (map snd pending) w1
         else (case find (\<lambda>i. i < 0 \<or> i \<ge> int (length pending)) failed of
            Some i \<Rightarrow> (w1, Some (InvalidIndex i))
          | None \<Rightarrow>
              (case checkpoint ports (map snd (map snd (filter (\<lambda>ip. int (fst ip) \<notin> set failed) (enumerate 0 pending)))) w1 of
                 (w2, Some e) \<Rightarrow> (w2, Some e)
               | (w2, None) \<Rightarrow> pause (map (\<lambda>i. pending ! nat i) failed) w2)))"

definition flush_chunks ::
  "'w organizer_ports \<Rightarrow> string \<Rightarrow> (OutboundMessage \<times> ChunkJob) list \<Rightarrow> 'w \<Rightarrow> 'w \<times> publish_fault option" where
  "flush_chunks ports url pending w = flush_attempts 3 ports url 0 pending w"

definition chunk_queue :: "Config \<Rightarrow> ChunkJob \<Rightarrow> string" where
  "chunk_queue cfg j =
    (if jc_ChunkQueueURL (cj_Configuration j) \<noteq> [] then jc_ChunkQueueURL (cj_Configuration j) else cf_ChunkQueueURL cfg)"

definition chunk_message :: "'w organizer_ports \<Rightarrow> ChunkJob \<Rightarrow> OutboundMessage" where
  "chunk_message ports j = \<lparr>om_Body = op_marshal ports j, om_Attributes = [], om_LogicalEvents = 0\<rparr>"

text \<open>The loop over the jobs; the batch is flushed when it is full and when the queue changes.\<close>

fun send_chunks ::
  "'w organizer_ports \<Rightarrow> Config \<Rightarrow> ChunkJob list \<Rightarrow> (OutboundMessage \<times> ChunkJob) list \<Rightarrow> string \<Rightarrow> 'w
    \<Rightarrow> 'w \<times> publish_fault option" where
  "send_chunks ports cfg [] batch url w = (if batch \<noteq> [] then flush_chunks ports url batch w else (w, None))"
| "send_chunks ports cfg (j # js) batch url w =
    (let jobURL = chunk_queue cfg j in
     if jobURL = [] then (w, Some (NoQueue (cj_ChunkID j)))
     else case (if batch \<noteq> [] \<and> url \<noteq> jobURL then (case flush_chunks ports url batch w of (w1, e) \<Rightarrow> (w1, e, [])) else (w, None, batch)) of
       (w1, Some e, batch1) \<Rightarrow> (w1, Some e)
     | (w1, None, batch1) \<Rightarrow>
         let batch2 = batch1 @ [(chunk_message ports j, j)] in
         if length batch2 = 10
         then (case flush_chunks ports jobURL batch2 w1 of
                 (w2, Some e) \<Rightarrow> (w2, Some e)
               | (w2, None) \<Rightarrow> send_chunks ports cfg js [] jobURL w2)
         else send_chunks ports cfg js batch2 jobURL w1)"

text \<open>The closure \<^verbatim>\<open>finish\<close>; \<open>render\<close> is \<^verbatim>\<open>Error()\<close>.\<close>

definition finish_publish ::
  "'w organizer_ports \<Rightarrow> (publish_fault \<Rightarrow> string) \<Rightarrow> string list \<Rightarrow> publish_fault option \<Rightarrow> 'w
    \<Rightarrow> 'w \<times> publish_fault option" where
  "finish_publish ports render ids err w =
    (case op_Ledger ports of
       None \<Rightarrow> (w, err)
     | Some l \<Rightarrow>
         (case err of
            Some e \<Rightarrow>
              (case pl_MarkSchedulingFailed l ids (render e) w of
                 (w1, Some le) \<Rightarrow> (w1, Some (MarkFailedFailed e le))
               | (w1, None) \<Rightarrow> (w1, Some e))
          | None \<Rightarrow> map_prod id (map_option MarkScheduledFailed) (pl_MarkScheduled l ids w)))"

definition Publish ::
  "'w organizer_ports \<Rightarrow> (publish_fault \<Rightarrow> string) \<Rightarrow> Config \<Rightarrow> ChunkJob list \<Rightarrow> 'w \<Rightarrow> 'w \<times> publish_fault option" where
  "Publish ports render cfg jobs w =
    (case to_publish ports jobs w of
       (w1, Inl e) \<Rightarrow> (w1, Some e)
     | (w1, Inr (js, ids)) \<Rightarrow>
         (case send_chunks ports cfg js [] [] w1 of
            (w2, err) \<Rightarrow> finish_publish ports render ids err w2))"

definition Replay ::
  "'w organizer_ports \<Rightarrow> (publish_fault \<Rightarrow> string) \<Rightarrow> Config \<Rightarrow> string \<Rightarrow> string list \<Rightarrow> 'w
    \<Rightarrow> 'w \<times> (publish_fault + ChunkJob list)" where
  "Replay ports render cfg sourceJobID chunkIDs w =
    (case op_Ledger ports of
       None \<Rightarrow> (w, Inl ReplayRefused)
     | Some l \<Rightarrow>
         if sourceJobID = [] then (w, Inl ReplayRefused)
         else (case pl_Replay l sourceJobID (op_random ports w) chunkIDs w of
            (w1, Inl e) \<Rightarrow> (w1, Inl (ReplayLoadFailed e))
          | (w1, Inr jobs) \<Rightarrow>
              (case Publish ports render cfg jobs w1 of
                 (w2, Some e) \<Rightarrow> (w2, Inl e)
               | (w2, None) \<Rightarrow> (w2, Inr jobs))))"


subsection \<open>The queue and the checkpoints\<close>

text \<open>
  What \<^verbatim>\<open>Publish\<close> relies on. \<open>stored\<close> is what the queues have ever accepted; an accepted request
  stored every entry it does not report as failed. \<open>marked\<close> are the chunks with a scheduling
  checkpoint; only \<^verbatim>\<open>MarkChunksScheduled\<close> adds to them, and only the chunks it is given.
\<close>

definition chunk_key :: "ChunkJob \<Rightarrow> string \<times> string" where
  "chunk_key j = (cj_JobID j, cj_ChunkID j)"

definition grows :: "('w \<Rightarrow> 'm set) \<Rightarrow> ('w \<Rightarrow> 'k set) \<Rightarrow> 'k set \<Rightarrow> 'w \<Rightarrow> 'w \<Rightarrow> bool" where
  "grows stored marked K w w' \<longleftrightarrow> stored w \<subseteq> stored w' \<and> marked w' \<subseteq> marked w \<union> K"

lemma grows_trans: "grows st mk K w w1 \<Longrightarrow> grows st mk K2 w1 w2 \<Longrightarrow> grows st mk (K \<union> K2) w w2"
  by (auto simp: grows_def)

lemma grows_mono: "grows st mk K w w' \<Longrightarrow> K \<subseteq> K2 \<Longrightarrow> grows st mk K2 w w'"
  by (auto simp: grows_def)

locale checkpointed_queue =
  fixes ports :: "'w organizer_ports" and stored :: "'w \<Rightarrow> (string \<times> OutboundMessage) set"
    and marked :: "'w \<Rightarrow> (string \<times> string) set"
  assumes send_grows: "op_Send ports url ms w = (w', r) \<Longrightarrow> grows stored marked {} w w'"
    and send_stores: "op_Send ports url ms w = (w', Inr failed) \<Longrightarrow> m \<in> set (confirmed failed ms) \<Longrightarrow> (url, m) \<in> stored w'"
    and pause_grows: "op_pause ports n w = (w', e) \<Longrightarrow> grows stored marked {} w w'"
    and mark_grows: "op_Ledger ports = Some l \<Longrightarrow> pl_MarkChunksScheduled l js w = (w', e)
      \<Longrightarrow> grows stored marked (chunk_key ` set js) w w'"
    and plan_grows: "op_Ledger ports = Some l \<Longrightarrow> pl_Plan l plan cs w = (w', e) \<Longrightarrow> grows stored marked {} w w'"
    and unscheduled_grows: "op_Ledger ports = Some l \<Longrightarrow> pl_UnscheduledChunks l k w = (w', x) \<Longrightarrow> grows stored marked {} w w'"
    and scheduled_grows: "op_Ledger ports = Some l \<Longrightarrow> pl_MarkScheduled l ids w = (w', e) \<Longrightarrow> grows stored marked {} w w'"
    and failed_grows: "op_Ledger ports = Some l \<Longrightarrow> pl_MarkSchedulingFailed l ids t w = (w', e) \<Longrightarrow> grows stored marked {} w w'"
begin

definition sent_keys :: "string \<Rightarrow> (OutboundMessage \<times> ChunkJob) list \<Rightarrow> 'w \<Rightarrow> (string \<times> string) set" where
  "sent_keys url pending w = {chunk_key j | m j. (m, j) \<in> set pending \<and> (url, m) \<in> stored w}"

lemma sent_keys_mono: "stored w \<subseteq> stored w' \<Longrightarrow> set p \<subseteq> set q \<Longrightarrow> sent_keys url p w \<subseteq> sent_keys url q w'"
  unfolding sent_keys_def by blast

lemma checkpoint_grows: "checkpoint ports js w = (w', e) \<Longrightarrow> grows stored marked (chunk_key ` set js) w w'"
proof (cases "op_Ledger ports")
  case None
  then show "checkpoint ports js w = (w', e) \<Longrightarrow> ?thesis" by (simp add: checkpoint_def grows_def)
next
  case (Some l)
  then show "checkpoint ports js w = (w', e) \<Longrightarrow> ?thesis"
    by (cases "pl_MarkChunksScheduled l js w") (auto simp: checkpoint_def dest: mark_grows)
qed

end

lemma confirmed_pairs:
  "confirmed failed (map fst pending) = map fst (map snd (filter (\<lambda>ip. int (fst ip) \<notin> set failed) (enumerate 0 pending)))"
proof -
  have "enumerate k (map fst pending) = map (\<lambda>ip. (fst ip, fst (snd ip))) (enumerate k pending)" for k
    by (induction pending arbitrary: k) simp_all
  then show ?thesis by (simp add: confirmed_def filter_map o_def)
qed

lemma confirmed_or_failed:
  assumes "x \<in> set pending" "\<forall>i\<in>set failed. 0 \<le> i \<and> i < int (length pending)"
  shows "x \<in> set (map snd (filter (\<lambda>ip. int (fst ip) \<notin> set failed) (enumerate 0 pending)))
    \<or> x \<in> set (map (\<lambda>i. pending ! nat i) failed)"
proof -
  obtain n where n: "n < length pending" "x = pending ! n" using assms(1) by (auto simp: in_set_conv_nth)
  show ?thesis
  proof (cases "int n \<in> set failed")
    case True
    then show ?thesis using n by force
  next
    case False
    have "(n, x) \<in> set (enumerate 0 pending)" using n by (auto simp: in_set_enumerate_eq)
    then show ?thesis using False by force
  qed
qed


context checkpointed_queue begin

lemma flush_attempts_grows:
  "flush_attempts n ports url attempt pending w = (w', r)
    \<Longrightarrow> grows stored marked (sent_keys url pending w') w w'
      \<and> (r = None \<longrightarrow> (\<forall>(m, j)\<in>set pending. (url, m) \<in> stored w'))"
proof (induction n arbitrary: attempt pending w)
  case 0
  then show ?case by (auto simp: grows_def)
next
  case (Suc n)
  have later: "grows stored marked (sent_keys url pending w') w w'
      \<and> (r = None \<longrightarrow> (\<forall>(m, j)\<in>set pending. (url, m) \<in> stored w'))"
    if run: "(case op_pause ports attempt w2 of (w', Some e) \<Rightarrow> (w', Some (Cancelled e))
        | (w', None) \<Rightarrow> flush_attempts n ports url (Suc attempt) again w') = (w', r)"
      and before: "grows stored marked (sent_keys url pending w2) w w2" and sub: "set again \<subseteq> set pending"
      and rest: "\<forall>(m, j)\<in>set pending. (url, m) \<in> stored w2 \<or> (m, j) \<in> set again"
    for w2 again
  proof -
    obtain w3 e where p: "op_pause ports attempt w2 = (w3, e)" by (cases "op_pause ports attempt w2")
    note g3 = pause_grows [OF p]
    have st: "stored w2 \<subseteq> stored w3" using g3 by (simp add: grows_def)
    show ?thesis
    proof (cases e)
      case (Some x)
      then have "w' = w3" "r \<noteq> None" using run p by auto
      moreover have "grows stored marked (sent_keys url pending w3) w w3"
        using grows_mono [OF grows_trans [OF before g3]] sent_keys_mono [OF st, of pending pending] by simp
      ultimately show ?thesis by auto
    next
      case None
      then have "flush_attempts n ports url (Suc attempt) again w3 = (w', r)" using run p by simp
      note I = Suc.IH [OF this]
      have st': "stored w3 \<subseteq> stored w'" using I by (simp add: grows_def)
      have "grows stored marked (sent_keys url pending w2 \<union> {} \<union> sent_keys url again w') w w'"
        using grows_trans [OF grows_trans [OF before g3]] I by blast
      moreover have "sent_keys url pending w2 \<union> {} \<union> sent_keys url again w' \<subseteq> sent_keys url pending w'"
        using sent_keys_mono [of w2 w' pending pending] sent_keys_mono [of w' w' again pending] st st' sub by blast
      ultimately have "grows stored marked (sent_keys url pending w') w w'" by (rule grows_mono)
      moreover have "\<forall>(m, j)\<in>set pending. (url, m) \<in> stored w'" if "r = None"
        using rest I that st st' by blast
      ultimately show ?thesis by blast
    qed
  qed
  obtain w1 x where s: "op_Send ports url (map fst pending) w = (w1, x)" by (cases "op_Send ports url (map fst pending) w")
  have g1: "grows stored marked (sent_keys url pending w1) w w1"
    using send_grows [OF s] by (rule grows_mono) simp
  show ?case
  proof (cases x)
    case (Inl e)
    show ?thesis
    proof (cases "attempt = 2")
      case True
      with Suc.prems s Inl g1 show ?thesis by (auto simp: Let_def)
    next
      case False
      with Suc.prems s Inl show ?thesis
        by (intro later [OF _ g1, of pending]) (auto simp: Let_def)
    qed
  next
    case (Inr failed)
    let ?ok = "map snd (filter (\<lambda>ip. int (fst ip) \<notin> set failed) (enumerate 0 pending))"
    have okst: "(url, m) \<in> stored w1" if "(m, j) \<in> set ?ok" for m j
      using send_stores [OF s [unfolded Inr], of m] that unfolding confirmed_pairs by (force simp: image_iff)
    have oksub: "set ?ok \<subseteq> set pending" by (auto simp: in_set_enumerate_eq dest: nth_mem)
    have okkeys: "chunk_key ` set (map snd ?ok) \<subseteq> sent_keys url pending w1"
      using okst oksub unfolding sent_keys_def by force
    show ?thesis
    proof (cases "failed = []")
      case True
      then have all: "?ok = pending" by (simp add: filter_True) 
      have c: "checkpoint ports (map snd pending) w1 = (w', r)" using Suc.prems s Inr True by (simp add: Let_def)
      note g2 = checkpoint_grows [OF c]
      have st: "stored w1 \<subseteq> stored w'" using g2 by (simp add: grows_def)
      have "grows stored marked (sent_keys url pending w1 \<union> chunk_key ` set (map snd pending)) w w'"
        by (rule grows_trans [OF g1 g2])
      then have "grows stored marked (sent_keys url pending w') w w'"
        by (rule grows_mono) (use okkeys sent_keys_mono [OF st, of pending pending url] in \<open>simp only: all Un_least subset_refl; blast\<close>)
      then show ?thesis using okst st unfolding all by blast
    next
      case False
      show ?thesis
      proof (cases "find (\<lambda>i. i < 0 \<or> i \<ge> int (length pending)) failed")
        case (Some i)
        with Suc.prems s Inr False g1 show ?thesis by (auto simp: Let_def)
      next
        case None
        then have valid: "\<forall>i\<in>set failed. 0 \<le> i \<and> i < int (length pending)"
          by (auto simp: find_None_iff)
        obtain w2 e where c: "checkpoint ports (map snd ?ok) w1 = (w2, e)" by (cases "checkpoint ports (map snd ?ok) w1")
        note g2 = checkpoint_grows [OF c]
        have st: "stored w1 \<subseteq> stored w2" using g2 by (simp add: grows_def)
        have "grows stored marked (sent_keys url pending w1 \<union> chunk_key ` set (map snd ?ok)) w w2"
          by (rule grows_trans [OF g1 g2])
        then have g: "grows stored marked (sent_keys url pending w2) w w2"
          by (rule grows_mono) (use okkeys sent_keys_mono [OF st, of pending pending url] in blast)
        show ?thesis
        proof (cases e)
          case (Some y)
          with Suc.prems s Inr False None c g show ?thesis by (auto simp: Let_def)
        next
          case ok: None
          have "set (map (\<lambda>i. pending ! nat i) failed) \<subseteq> set pending"
            using valid by (auto simp: nat_less_iff)
          moreover have "\<forall>(m, j)\<in>set pending. (url, m) \<in> stored w2 \<or> (m, j) \<in> set (map (\<lambda>i. pending ! nat i) failed)"
            using confirmed_or_failed [OF _ valid] okst st by blast
          ultimately show ?thesis
            using Suc.prems s Inr False None c ok
            by (intro later [OF _ g, of "map (\<lambda>i. pending ! nat i) failed"]) (auto simp: Let_def)
        qed
      qed
    qed
  qed
qed

definition in_queue :: "Config \<Rightarrow> 'w \<Rightarrow> ChunkJob \<Rightarrow> bool" where
  "in_queue cfg w j \<longleftrightarrow> (chunk_queue cfg j, chunk_message ports j) \<in> stored w"

definition queued_keys :: "Config \<Rightarrow> ChunkJob list \<Rightarrow> 'w \<Rightarrow> (string \<times> string) set" where
  "queued_keys cfg js w = chunk_key ` {j \<in> set js. in_queue cfg w j}"

definition batch_ok :: "Config \<Rightarrow> string \<Rightarrow> (OutboundMessage \<times> ChunkJob) list \<Rightarrow> bool" where
  "batch_ok cfg url batch \<longleftrightarrow> (\<forall>(m, j)\<in>set batch. m = chunk_message ports j \<and> chunk_queue cfg j = url)"

lemma queued_keys_mono: "stored w \<subseteq> stored w' \<Longrightarrow> set js \<subseteq> set ks \<Longrightarrow> queued_keys cfg js w \<subseteq> queued_keys cfg ks w'"
  unfolding queued_keys_def in_queue_def by blast

lemma grows_stored: "grows stored marked K w w' \<Longrightarrow> stored w \<subseteq> stored w'"
  by (simp add: grows_def)

lemma flush_chunks_grows:
  assumes "batch_ok cfg url batch" "flush_chunks ports url batch w = (w', r)"
  shows "grows stored marked (queued_keys cfg (map snd batch) w') w w'"
    and "r = None \<Longrightarrow> j \<in> set (map snd batch) \<Longrightarrow> in_queue cfg w' j"
proof -
  note F = flush_attempts_grows [OF assms(2) [unfolded flush_chunks_def]]
  have b: "m = chunk_message ports j \<and> chunk_queue cfg j = url" if "(m, j) \<in> set batch" for m j
    using assms(1) that unfolding batch_ok_def by blast
  have "sent_keys url batch w' \<subseteq> queued_keys cfg (map snd batch) w'"
  proof
    fix k assume "k \<in> sent_keys url batch w'"
    then obtain m j where mj: "k = chunk_key j" "(m, j) \<in> set batch" "(url, m) \<in> stored w'"
      unfolding sent_keys_def by blast
    then have "j \<in> set (map snd batch)" using image_eqI [of j snd "(m, j)" "set batch"] by simp
    with mj b [OF mj(2)] show "k \<in> queued_keys cfg (map snd batch) w'"
      unfolding queued_keys_def in_queue_def by simp
  qed
  with F show "grows stored marked (queued_keys cfg (map snd batch) w') w w'"
    by (elim conjE) (rule grows_mono)
  show "in_queue cfg w' j" if r: "r = None" and j: "j \<in> set (map snd batch)"
  proof -
    obtain m where m: "(m, j) \<in> set batch" using j by auto
    then have "(url, m) \<in> stored w'" using F r by blast
    with b [OF m] show ?thesis unfolding in_queue_def by simp
  qed
qed

lemma send_chunks_grows:
  "batch_ok cfg url batch \<Longrightarrow> send_chunks ports cfg js batch url w = (w', r)
    \<Longrightarrow> grows stored marked (queued_keys cfg (map snd batch @ js) w') w w'
      \<and> (r = None \<longrightarrow> (\<forall>j\<in>set (map snd batch @ js). in_queue cfg w' j))"
proof (induction js arbitrary: batch url w)
  case Nil
  show ?case
  proof (cases "batch = []")
    case True
    with Nil show ?thesis by (auto simp: grows_def)
  next
    case False
    then have "flush_chunks ports url batch w = (w', r)" using Nil by simp
    from flush_chunks_grows [OF Nil(1) this] show ?thesis by simp
  qed
next
  case (Cons j js)
  let ?url = "chunk_queue cfg j" and ?x = "(chunk_message ports j, j)"
  show ?case
  proof (cases "?url = []")
    case True
    with Cons.prems show ?thesis by (auto simp: grows_def)
  next
    case url: False
    obtain w1 e batch1 where f: "(if batch \<noteq> [] \<and> url \<noteq> ?url then (case flush_chunks ports url batch w of (w1, e) \<Rightarrow> (w1, e, [])) else (w, None, batch))
        = (w1, e, batch1)"
      by (cases "batch \<noteq> [] \<and> url \<noteq> ?url"; cases "flush_chunks ports url batch w") auto
    have g1: "grows stored marked (queued_keys cfg (map snd batch) w1) w w1"
      and ok1: "batch_ok cfg ?url batch1" and sub1: "set (map snd batch1) \<subseteq> set (map snd batch)"
      and rest1: "e = None \<Longrightarrow> k \<in> set (map snd batch) \<Longrightarrow> k \<in> set (map snd batch1) \<or> in_queue cfg w1 k" for k
    proof -
      show "grows stored marked (queued_keys cfg (map snd batch) w1) w w1"
        using f flush_chunks_grows(1) [OF Cons.prems(1)]
        by (auto split: if_splits prod.splits simp: grows_def)
      show "batch_ok cfg ?url batch1" "set (map snd batch1) \<subseteq> set (map snd batch)"
        using f Cons.prems(1) by (auto split: if_splits prod.splits simp: batch_ok_def)
      show "e = None \<Longrightarrow> k \<in> set (map snd batch) \<Longrightarrow> k \<in> set (map snd batch1) \<or> in_queue cfg w1 k"
        using f flush_chunks_grows(2) [OF Cons.prems(1)] by (auto split: if_splits prod.splits)
    qed
    show ?thesis
    proof (cases e)
      case (Some x)
      have "w' = w1" "r = Some x" using Cons.prems(2) url f Some by (simp_all add: Let_def)
      with grows_mono [OF g1 queued_keys_mono [of w1 w1 "map snd batch" "map snd batch @ j # js" cfg]] show ?thesis
        by auto
    next
      case None
      let ?b = "batch1 @ [?x]"
      have okb: "batch_ok cfg ?url ?b" using ok1 by (simp add: batch_ok_def)
      have ok0: "batch_ok cfg ?url []" by (simp add: batch_ok_def)
      have run: "(if length ?b = 10 then (case flush_chunks ports ?url ?b w1 of (w2, Some e) \<Rightarrow> (w2, Some e)
            | (w2, None) \<Rightarrow> send_chunks ports cfg js [] ?url w2) else send_chunks ports cfg js ?b ?url w1) = (w', r)"
        using Cons.prems(2) url f None by (simp add: Let_def)
      have combine: ?thesis
        if s1: "grows stored marked (queued_keys cfg (map snd ?b @ js) w') w1 w'"
          and s2: "r = None \<Longrightarrow> \<forall>k\<in>set (map snd ?b @ js). in_queue cfg w' k"
      proof -
        have st: "stored w1 \<subseteq> stored w'" by (rule grows_stored [OF s1])
        have "queued_keys cfg (map snd batch) w1 \<subseteq> queued_keys cfg (map snd batch @ j # js) w'"
          by (rule queued_keys_mono [OF st]) auto
        moreover have "queued_keys cfg (map snd ?b @ js) w' \<subseteq> queued_keys cfg (map snd batch @ j # js) w'"
          by (rule queued_keys_mono) (use sub1 in auto)
        ultimately have "queued_keys cfg (map snd batch) w1 \<union> queued_keys cfg (map snd ?b @ js) w' \<subseteq> queued_keys cfg (map snd batch @ j # js) w'"
          by (rule Un_least)
        from grows_mono [OF grows_trans [OF g1 s1] this]
        have "grows stored marked (queued_keys cfg (map snd batch @ j # js) w') w w'" .
        moreover have "in_queue cfg w' k" if "r = None" "k \<in> set (map snd batch @ j # js)" for k
          using s2 [OF that(1)] that(2) rest1 [OF None, of k] st unfolding in_queue_def by auto
        ultimately show ?thesis by blast
      qed
      show ?thesis
      proof (cases "length ?b = 10")
        case False
        then have "send_chunks ports cfg js ?b ?url w1 = (w', r)" using run by simp
        from Cons.IH [OF okb this] show ?thesis by (intro combine) blast+
      next
        case True
        obtain w2 e2 where f2: "flush_chunks ports ?url ?b w1 = (w2, e2)" by (cases "flush_chunks ports ?url ?b w1")
        note F2 = flush_chunks_grows [OF okb f2]
        show ?thesis
        proof (cases e2)
          case (Some y)
          then have "w' = w2" "r = Some y" using run True f2 by simp_all
          with F2(1) grows_mono [OF F2(1) queued_keys_mono [of w2 w2 "map snd ?b" "map snd ?b @ js" cfg]] show ?thesis
            by (intro combine) auto
        next
          case none2: None
          then have "send_chunks ports cfg js [] ?url w2 = (w', r)" using run True f2 by simp
          note I = Cons.IH [OF ok0 this]
          have st: "stored w2 \<subseteq> stored w'" using I grows_stored by blast
          have "queued_keys cfg (map snd ?b) w2 \<union> queued_keys cfg (map snd [] @ js) w' \<subseteq> queued_keys cfg (map snd ?b @ js) w'"
            using queued_keys_mono [OF st, of "map snd ?b" "map snd ?b @ js" cfg]
              queued_keys_mono [of w' w' js "map snd ?b @ js" cfg] by auto
          then have "grows stored marked (queued_keys cfg (map snd ?b @ js) w') w1 w'"
            using I by (intro grows_mono [OF grows_trans [OF F2(1)]]) blast+
          moreover have "\<forall>k\<in>set (map snd ?b @ js). in_queue cfg w' k" if "r = None"
            using I that F2(2) [OF none2] st unfolding in_queue_def by auto
          ultimately show ?thesis by (rule combine)
        qed
      qed
    qed
  qed
qed

lemma plan_groups_grows:
  assumes "op_Ledger ports = Some l"
  shows "plan_groups ports l jobs ks w = (w', r) \<Longrightarrow> grows stored marked {} w w'"
proof (induction ks arbitrary: w w' r)
  case Nil
  then show ?case by (simp add: grows_def)
next
  case (Cons k ks)
  let ?cs = "filter (\<lambda>j. cj_JobID j = k) jobs"
  obtain w1 e where p: "pl_Plan l (plan_of ?cs (op_now ports w)) ?cs w = (w1, e)"
    by (cases "pl_Plan l (plan_of ?cs (op_now ports w)) ?cs w")
  obtain w2 u where u: "pl_UnscheduledChunks l k w1 = (w2, u)" by (cases "pl_UnscheduledChunks l k w1")
  obtain w3 x where g: "plan_groups ports l jobs ks w2 = (w3, x)" by (cases "plan_groups ports l jobs ks w2")
  note g1 = plan_grows [OF assms p] and g2 = unscheduled_grows [OF assms u]
  have g12: "grows stored marked {} w w2" using grows_trans [OF g1 g2] by simp
  have g13: "grows stored marked {} w w3" using grows_trans [OF g12 Cons.IH [OF g]] by simp
  show ?case
    using Cons.prems p u g g1 g12 g13 by (auto simp: Let_def split: option.splits sum.splits)
qed

lemma to_publish_grows: "to_publish ports jobs w = (w', r) \<Longrightarrow> grows stored marked {} w w'"
  by (auto simp: to_publish_def Let_def grows_def [where K = "{}"] split: option.splits prod.splits sum.splits
    dest!: plan_groups_grows)

lemma finish_grows: "finish_publish ports render ids err w = (w', r) \<Longrightarrow> grows stored marked {} w w'"
proof (cases "op_Ledger ports")
  case None
  then show "finish_publish ports render ids err w = (w', r) \<Longrightarrow> ?thesis" by (simp add: finish_publish_def grows_def)
next
  case (Some l)
  then show "finish_publish ports render ids err w = (w', r) \<Longrightarrow> ?thesis"
    using scheduled_grows [OF Some] failed_grows [OF Some]
    by (cases err; cases "pl_MarkScheduled l ids w"; cases "pl_MarkSchedulingFailed l ids (render (the err)) w")
      (auto simp: finish_publish_def split: option.splits)
qed

lemma finish_ok: "finish_publish ports render ids err w = (w', None) \<Longrightarrow> err = None"
  by (auto simp: finish_publish_def split: option.splits prod.splits)

lemma Publish_grows:
  assumes "Publish ports render cfg jobs w = (w', r)" "to_publish ports jobs w = (w1, Inr (js, ids))"
  shows "grows stored marked (queued_keys cfg js w') w w'"
    and "r = None \<Longrightarrow> j \<in> set js \<Longrightarrow> in_queue cfg w' j"
proof -
  obtain w2 err where s: "send_chunks ports cfg js [] [] w1 = (w2, err)" by (cases "send_chunks ports cfg js [] [] w1")
  have f: "finish_publish ports render ids err w2 = (w', r)" using assms s by (simp add: Publish_def)
  note S = send_chunks_grows [OF _ s, unfolded batch_ok_def, simplified]
  note g3 = finish_grows [OF f]
  have st: "stored w2 \<subseteq> stored w'" by (rule grows_stored [OF g3])
  have "grows stored marked ({} \<union> queued_keys cfg js w2 \<union> {}) w w'"
    using grows_trans [OF grows_trans [OF to_publish_grows [OF assms(2)]] g3] S by blast
  then show "grows stored marked (queued_keys cfg js w') w w'"
    by (rule grows_mono) (use queued_keys_mono [OF st, of js js cfg] in blast)
  show "in_queue cfg w' j" if "r = None" "j \<in> set js"
  proof -
    have "err = None" using f that(1) finish_ok by blast
    with S that(2) st show ?thesis unfolding in_queue_def by blast
  qed
qed

end

end
