(* ===== verification/Organizer_Handler.thy ===== *)
theory Organizer_Handler
  imports Planner S3_Event Publisher Prefix_Config Process_Config
begin

section \<open>The Organizer Lambda\<close>

text \<open>
  \<^verbatim>\<open>cmd/organizer/main.go\<close>: from a batch of SQS records to published chunks. What \<^verbatim>\<open>init\<close> leaves in
  the package's variables, and what the handlers reach through it, is the record
  \<open>organizer_env\<close>; the object store is a function of the state \<open>'w\<close> of the world. The locale
  extends the contract of \<open>Publish\<close> to admission and to the resolver.
\<close>

subsection \<open>The process\<close>

record 'w organizer_env =
  oe_ports :: "'w organizer_ports"
  oe_Store :: "'w \<Rightarrow> ObjectStore"
  oe_Config :: Config
  oe_Resolver :: "(string \<Rightarrow> string \<Rightarrow> 'w \<Rightarrow> 'w \<times> (prefix_error + PrefixConfiguration \<times> ConfigurationSnapshot)) option"
  oe_globalLimits :: GlobalLimits
  oe_globalLimitsVersion :: int64
  oe_globalLimitsParameter :: string
  oe_map_order :: map_order
  oe_names :: "'w \<Rightarrow> nat \<Rightarrow> string"
  oe_millis :: "'w \<Rightarrow> int64 \<times> int64"
  oe_decode_request :: "bytes \<Rightarrow> string + OrganizerRequest"
  oe_decode_event :: "bytes \<Rightarrow> string + Notification"
  oe_render :: "publish_fault \<Rightarrow> string"

datatype init_error =
    ConfigurationFailed load_error
  | LimitsFailed prefix_error
  | LimitsRejected config_error

text \<open>\<^verbatim>\<open>init\<close>: \<open>base\<close> is the environment with the clients, the rest is filled in.\<close>

definition init_organizer ::
  "(string \<Rightarrow> string) \<Rightarrow> (string \<Rightarrow> 'w \<Rightarrow> 'w \<times> (string + GlobalLimits parameter)) \<Rightarrow> 'w organizer_env
    \<Rightarrow> 'w \<Rightarrow> 'w \<times> (init_error + 'w organizer_env)" where
  "init_organizer env getParameter base w =
    (case Load env of
       Inl e \<Rightarrow> (w, Inl (ConfigurationFailed e))
     | Inr c \<Rightarrow>
         (case LoadGlobalLimits getParameter (cf_GlobalLimitsParameter c) w of
            (w1, Inl e) \<Rightarrow> (w1, Inl (LimitsFailed e))
          | (w1, Inr (limits, version, parameter)) \<Rightarrow>
              (case ValidateGlobalLimits limits of
                 Some e \<Rightarrow> (w1, Inl (LimitsRejected e))
               | None \<Rightarrow>
                   (w1, Inr (base\<lparr>oe_Config := c\<lparr>cf_MaxFileBytes := gl_MaxFileBytes limits,
                                 cf_MaxChunkBytes := gl_MaxChunkBytes limits, cf_MaxEventBytes := gl_MaxEventBytes limits\<rparr>,
                               oe_globalLimits := limits, oe_globalLimitsVersion := version,
                               oe_globalLimitsParameter := parameter,
                               oe_ports := (if cf_LedgerTable c \<noteq> [] then oe_ports base
                                            else (oe_ports base)\<lparr>op_Ledger := None\<rparr>)\<rparr>)))))"

datatype organizer_fault =
    PlanFailed plan_error
  | EventFailed notification_error
  | NoResolver
  | ResolveFailed prefix_error
  | ConfigurationRejected config_error
  | AdmissionHeadFailed string
  | VersionUnsupported string
  | AdmitFailed string
  | AdmissionBusy string
  | ValidationFailed string
  | PlanningFailed string
  | SealFailed string

subsection \<open>One referenced object\<close>

definition headAdmissionObject :: "ObjectStore \<Rightarrow> FileReference \<Rightarrow> organizer_fault + ObjectIdentity" where
  "headAdmissionObject store reference =
    (let object = \<lparr>oi_Bucket = fref_Bucket reference, oi_Key = fref_Key reference, oi_VersionID = fref_VersionID reference,
                   oi_ETag = [], oi_Size = 0\<rparr>
     in if fref_VersionID reference = [] \<or> fref_VersionID reference = ''null''
        then map_sum AdmissionHeadFailed id (os_Head store (fref_Bucket reference) (fref_Key reference))
        else (case os_HeadObject store of
                None \<Rightarrow> Inl (VersionUnsupported (fref_VersionID reference))
              | Some headObject \<Rightarrow> map_sum AdmissionHeadFailed id (headObject object)))"

definition configured :: "Config \<Rightarrow> PrefixConfiguration \<Rightarrow> Config" where
  "configured cfg p =
     cfg\<lparr>cf_RecordsPerChunk := pc_RecordsPerChunk p, cf_BatchSize := pc_BatchSize p,
         cf_MaxEventBytes := pc_MaxEventBytes p, cf_MaxFileBytes := pc_MaxFileBytes p,
         cf_MaxChunkBytes := pc_MaxChunkBytes p, cf_TargetChunkBytes := pc_TargetChunkBytes p,
         cf_EventSchemaID := pc_EventSchemaID p, cf_EventSchemaVersion := pc_EventSchemaVersion p,
         cf_EventFormat := pc_EventFormat p\<rparr>"

definition enriched :: "'w organizer_env \<Rightarrow> ConfigurationSnapshot \<Rightarrow> ConfigurationSnapshot" where
  "enriched env s =
     s\<lparr>cs_GlobalLimitsParameter := oe_globalLimitsParameter env, cs_GlobalLimitsVersion := oe_globalLimitsVersion env,
       cs_GlobalLimits := oe_globalLimits env\<rparr>"

text \<open>Admission in the ledger. \<open>Inr False\<close> skips the object: it is completed already.\<close>

definition admission ::
  "'w organizer_env \<Rightarrow> Receipt \<Rightarrow> 'w \<Rightarrow> 'w \<times> (organizer_fault + bool)" where
  "admission env receipt w =
    (case op_Ledger (oe_ports env) of
       None \<Rightarrow> (w, Inr True)
     | Some l \<Rightarrow>
         (case pl_Admit l receipt w of
            (w1, acq, Some e) \<Rightarrow> (w1, Inl (AdmitFailed e))
          | (w1, acq, None) \<Rightarrow>
              if acq = AlreadyCompleted then (w1, Inr False)
              else if acq = Busy then (w1, Inl (AdmissionBusy (rc_FileID receipt)))
              else (case pl_BeginValidation l (rc_FileID receipt) w1 of
                      (w2, Some e) \<Rightarrow> (w2, Inl (ValidationFailed e))
                    | (w2, None) \<Rightarrow>
                        (case pl_BeginPlanning l (rc_FileID receipt) w2 of
                           (w3, Some e) \<Rightarrow> (w3, Inl (PlanningFailed e))
                         | (w3, None) \<Rightarrow> (w3, Inr True)))))"

definition event_request :: "FileReference \<Rightarrow> ObjectIdentity \<Rightarrow> PrefixConfiguration \<Rightarrow> OrganizerRequest" where
  "event_request reference object p =
     \<lparr>or_SchemaVersion = SchemaVersion, or_ExecutionID = FileID object,
      or_Files = [\<lparr>fr_Bucket = fref_Bucket reference, fr_Key = fref_Key reference, fr_VersionID = oi_VersionID object,
                   fr_ETag = oi_ETag object, fr_PresignedURL = [], fr_DataType = pc_DataType p,
                   fr_MaxRecordLengthBytes = pc_MaxRecordLengthBytes p, fr_MultiLineLayout = pc_MultiLineLayout p,
                   fr_JSONArrayLayout = pc_JSONArrayLayout p, fr_Context = zero_CorporateContext\<rparr>]\<rparr>"

definition empty_plan :: "ObjectIdentity \<Rightarrow> int \<Rightarrow> ConfigurationSnapshot \<Rightarrow> JobPlan" where
  "empty_plan object now snapshot =
     \<lparr>jp_JobID = FileID object, jp_FileID = FileID object, jp_Bucket = oi_Bucket object, jp_Key = oi_Key object,
      jp_VersionID = oi_VersionID object, jp_ETag = oi_ETag object, jp_FileSize = oi_Size object, jp_ExpectedChunks = 0,
      jp_CreatedAt = now, jp_ConfigSnapshot = snapshot\<rparr>"

definition control_job :: "ObjectIdentity \<Rightarrow> PrefixConfiguration \<Rightarrow> ChunkJob" where
  "control_job object p =
     zero_ChunkJob\<lparr>cj_SchemaVersion := SchemaVersion, cj_JobID := FileID object, cj_FileID := FileID object,
       cj_ChunkID := ''completion'', cj_Bucket := oi_Bucket object, cj_Key := oi_Key object,
       cj_Configuration := zero_JobConfiguration\<lparr>jc_ChunkQueueURL := pc_ChunkQueueURL p\<rparr>, cj_Control := ''completion''\<rparr>"

definition prefix_job_configuration :: "PrefixConfiguration \<Rightarrow> JobConfiguration" where
  "prefix_job_configuration p =
     \<lparr>jc_BatchSize = pc_BatchSize p, jc_MaxEventBytes = pc_MaxEventBytes p, jc_MaxChunkBytes = pc_MaxChunkBytes p,
      jc_TargetChunkBytes = pc_TargetChunkBytes p, jc_EventSchemaID = pc_EventSchemaID p,
      jc_EventSchemaVersion = pc_EventSchemaVersion p, jc_EventFormat = pc_EventFormat p, jc_OutputMode = pc_OutputMode p,
      jc_MaxEnvelopesPerMessage = pc_MaxEnvelopesPerMessage p, jc_MaxMessageBytes = pc_MaxMessageBytes p,
      jc_OutputQueueURL = pc_OutputQueueURL p, jc_PrefixID = pc_PrefixID p, jc_ChunkQueueURL = pc_ChunkQueueURL p\<rparr>"

text \<open>The manifest without chunks of an empty JSON array is sealed here; a message completes it.\<close>

definition seal_empty ::
  "'w organizer_env \<Rightarrow> ObjectIdentity \<Rightarrow> PrefixConfiguration \<Rightarrow> ConfigurationSnapshot \<Rightarrow> ChunkJob list \<Rightarrow> 'w
    \<Rightarrow> 'w \<times> (organizer_fault + ChunkJob list)" where
  "seal_empty env object p snapshot jobs w =
    (case op_Ledger (oe_ports env) of
       None \<Rightarrow> (w, Inr jobs)
     | Some l \<Rightarrow>
         if jobs \<noteq> [] then (w, Inr jobs)
         else (case pl_Plan l (empty_plan object (op_now (oe_ports env) w) snapshot) [] w of
                 (w1, Some e) \<Rightarrow> (w1, Inl (SealFailed e))
               | (w1, None) \<Rightarrow> (w1, Inr [control_job object p])))"

definition plan_reference ::
  "'w organizer_env \<Rightarrow> Config \<Rightarrow> OrganizerRequest \<Rightarrow> 'w \<Rightarrow> organizer_fault + ChunkJob list" where
  "plan_reference env cfg request w =
    (case PlanWithSummary (oe_map_order env) (oe_Store env w) cfg (oe_names env w) (fst (oe_millis env w)) (snd (oe_millis env w)) request of
       Inl e \<Rightarrow> Inl (PlanFailed e)
     | Inr (summary, jobs) \<Rightarrow> Inr jobs)"

text \<open>The body of the loop over the references; an object that is skipped gives no jobs.\<close>

definition reference_jobs ::
  "'w organizer_env \<Rightarrow> (string \<Rightarrow> string \<Rightarrow> 'w \<Rightarrow> 'w \<times> (prefix_error + PrefixConfiguration \<times> ConfigurationSnapshot))
    \<Rightarrow> string \<Rightarrow> FileReference \<Rightarrow> 'w \<Rightarrow> 'w \<times> (organizer_fault + ChunkJob list)" where
  "reference_jobs env resolve executionID reference w =
    (case resolve (fref_Bucket reference) (fref_Key reference) w of
       (w1, Inl e) \<Rightarrow> (w1, Inl (ResolveFailed e))
     | (w1, Inr (p, snapshot0)) \<Rightarrow>
         let snapshot = enriched env snapshot0; cfg = configured (oe_Config env) p in
         (case ValidatePrefixConfiguration (oe_map_order env) p (oe_globalLimits env) of
            Some e \<Rightarrow> (w1, Inl (ConfigurationRejected e))
          | None \<Rightarrow>
              (case headAdmissionObject (oe_Store env w1) reference of
                 Inl e \<Rightarrow> (w1, Inl e)
               | Inr object \<Rightarrow>
                   (case admission env \<lparr>rc_ReceiptID = executionID, rc_FileID = FileID object, rc_Source = object,
                              rc_Environment = cf_Environment cfg, rc_ReceivedAt = op_now (oe_ports env) w1,
                              rc_ConfigSnapshot = snapshot, rc_PrefixID = pc_PrefixID p\<rparr> w1 of
                      (w2, Inl e) \<Rightarrow> (w2, Inl e)
                    | (w2, Inr False) \<Rightarrow> (w2, Inr [])
                    | (w2, Inr True) \<Rightarrow>
                        (case plan_reference env cfg (event_request reference object p) w2 of
                           Inl e \<Rightarrow> (w2, Inl e)
                         | Inr planned \<Rightarrow>
                             (case seal_empty env object p snapshot planned w2 of
                                (w3, Inl e) \<Rightarrow> (w3, Inl e)
                              | (w3, Inr jobs) \<Rightarrow>
                                  (w3, Inr (map (\<lambda>j. j\<lparr>cj_Configuration := prefix_job_configuration p,
                                                        cj_ConfigSnapshot := snapshot\<rparr>) jobs))))))))"

fun references_jobs ::
  "'w organizer_env \<Rightarrow> (string \<Rightarrow> string \<Rightarrow> 'w \<Rightarrow> 'w \<times> (prefix_error + PrefixConfiguration \<times> ConfigurationSnapshot))
    \<Rightarrow> string \<Rightarrow> FileReference list \<Rightarrow> 'w \<Rightarrow> 'w \<times> (organizer_fault + ChunkJob list)" where
  "references_jobs env resolve executionID [] w = (w, Inr [])"
| "references_jobs env resolve executionID (r # rs) w =
    (case reference_jobs env resolve executionID r w of
       (w1, Inl e) \<Rightarrow> (w1, Inl e)
     | (w1, Inr jobs) \<Rightarrow>
         (case references_jobs env resolve executionID rs w1 of
            (w2, Inl e) \<Rightarrow> (w2, Inl e)
          | (w2, Inr jobs2) \<Rightarrow> (w2, Inr (jobs @ jobs2))))"

subsection \<open>The handlers\<close>

text \<open>A body that decodes as a request with a schema version; any other body is an S3 event.\<close>

definition explicit_request :: "'w organizer_env \<Rightarrow> bytes \<Rightarrow> OrganizerRequest option" where
  "explicit_request env body =
    (case oe_decode_request env body of
       Inr request \<Rightarrow> if or_SchemaVersion request \<noteq> [] then Some request else None
     | Inl _ \<Rightarrow> None)"

definition jobsFor :: "'w organizer_env \<Rightarrow> bytes \<Rightarrow> string \<Rightarrow> 'w \<Rightarrow> 'w \<times> (organizer_fault + ChunkJob list)" where
  "jobsFor env body executionID w =
    (case explicit_request env body of
       Some request \<Rightarrow> (w, plan_reference env (oe_Config env) (request\<lparr>or_ExecutionID := executionID\<rparr>) w)
     | None \<Rightarrow>
         (case Parse (oe_decode_event env) body of
            Inl e \<Rightarrow> (w, Inl (EventFailed e))
          | Inr references \<Rightarrow>
              if references = [] then (w, Inr [])
              else (case oe_Resolver env of
                      None \<Rightarrow> (w, Inl NoResolver)
                    | Some resolve \<Rightarrow> references_jobs env resolve executionID references w)))"

record intake_record =
  ir_MessageId :: string
  ir_Body :: bytes

definition publish_record :: "'w organizer_env \<Rightarrow> intake_record \<Rightarrow> 'w \<Rightarrow> 'w \<times> bool" where
  "publish_record env r w =
    (case jobsFor env (ir_Body r) (ir_MessageId r) w of
       (w1, Inl e) \<Rightarrow> (w1, False)
     | (w1, Inr jobs) \<Rightarrow>
         map_prod id (\<lambda>e. e = None) (Publish (oe_ports env) (oe_render env) (oe_Config env) jobs w1))"

fun handleSQSEvent :: "'w organizer_env \<Rightarrow> intake_record list \<Rightarrow> 'w \<Rightarrow> 'w \<times> string list" where
  "handleSQSEvent env [] w = (w, [])"
| "handleSQSEvent env (r # rs) w =
    (case publish_record env r w of
       (w1, ok) \<Rightarrow>
         (case handleSQSEvent env rs w1 of
            (w2, failures) \<Rightarrow> (w2, if ok then failures else ir_MessageId r # failures)))"

definition organizer_handler ::
  "(bytes \<Rightarrow> string + intake_record list) \<Rightarrow> 'w organizer_env \<Rightarrow> bytes \<Rightarrow> 'w \<Rightarrow> 'w \<times> (string + string list)" where
  "organizer_handler decode env raw w =
    (case decode raw of
       Inl e \<Rightarrow> (w, Inl e)
     | Inr rs \<Rightarrow> map_prod id Inr (handleSQSEvent env rs w))"


subsection \<open>Relations kept by every port\<close>

text \<open>
  A reflexive and transitive relation on the worlds that every call of the intake, respectively
  of publishing, respects is respected by the whole.
\<close>

locale related_intake =
  fixes env :: "'w organizer_env" and R :: "'w \<Rightarrow> 'w \<Rightarrow> bool"
  assumes intake_refl: "R w w"
    and intake_trans: "R w w1 \<Longrightarrow> R w1 w2 \<Longrightarrow> R w w2"
    and resolve_related: "oe_Resolver env = Some f \<Longrightarrow> f b k w = (w', x) \<Longrightarrow> R w w'"
    and admit_related: "op_Ledger (oe_ports env) = Some l \<Longrightarrow> pl_Admit l rc w = (w', y) \<Longrightarrow> R w w'"
    and validation_related: "op_Ledger (oe_ports env) = Some l \<Longrightarrow> pl_BeginValidation l j w = (w', e) \<Longrightarrow> R w w'"
    and planning_related: "op_Ledger (oe_ports env) = Some l \<Longrightarrow> pl_BeginPlanning l j w = (w', e) \<Longrightarrow> R w w'"
    and plan_related: "op_Ledger (oe_ports env) = Some l \<Longrightarrow> pl_Plan l plan [] w = (w', e) \<Longrightarrow> R w w'"
begin

lemma admission_related:
  assumes "admission env rc w = (w', r)"
  shows "R w w'"
proof (cases "op_Ledger (oe_ports env)")
  case None
  with assms show ?thesis by (simp add: admission_def intake_refl)
next
  case (Some l)
  obtain w1 acq e where a: "pl_Admit l rc w = (w1, acq, e)" by (cases "pl_Admit l rc w")
  obtain w2 e2 where v: "pl_BeginValidation l (rc_FileID rc) w1 = (w2, e2)" by (cases "pl_BeginValidation l (rc_FileID rc) w1")
  obtain w3 e3 where p: "pl_BeginPlanning l (rc_FileID rc) w2 = (w3, e3)" by (cases "pl_BeginPlanning l (rc_FileID rc) w2")
  note R1 = admit_related [OF Some a] and R2 = validation_related [OF Some v] and R3 = planning_related [OF Some p]
  have "w' = w1 \<or> w' = w2 \<or> w' = w3"
    using assms Some a v p by (auto simp: admission_def split: option.splits if_splits)
  with R1 intake_trans [OF R1 R2] intake_trans [OF intake_trans [OF R1 R2] R3] show ?thesis by blast
qed

lemma seal_empty_related: "seal_empty env object p s jobs w = (w', r) \<Longrightarrow> R w w'"
  by (auto simp: seal_empty_def intake_refl split: option.splits if_splits prod.splits dest: plan_related)

lemma reference_jobs_related:
  assumes "oe_Resolver env = Some f" "reference_jobs env f executionID reference w = (w', r)"
  shows "R w w'"
proof -
  obtain w1 x where f: "f (fref_Bucket reference) (fref_Key reference) w = (w1, x)" by (cases "f (fref_Bucket reference) (fref_Key reference) w")
  note R1 = resolve_related [OF assms(1) f]
  show ?thesis
    using assms(2) f R1
    by (auto simp: reference_jobs_def Let_def split: sum.splits option.splits prod.splits bool.splits
        dest!: admission_related seal_empty_related elim: intake_trans)
qed

lemma references_jobs_related:
  assumes "oe_Resolver env = Some f"
  shows "references_jobs env f executionID refs w = (w', r) \<Longrightarrow> R w w'"
  by (induction refs arbitrary: w w' r)
    (auto simp: intake_refl split: prod.splits sum.splits dest!: reference_jobs_related [OF assms] elim: intake_trans)

lemma jobsFor_related: "jobsFor env body executionID w = (w', r) \<Longrightarrow> R w w'"
  by (auto simp: jobsFor_def intake_refl split: option.splits sum.splits if_splits dest: references_jobs_related)

end

lemma mapped_pair: "map_prod id g p = (v, x) \<Longrightarrow> \<exists>y. p = (v, y)"
  by (cases p) simp

locale related_publish =
  fixes ports :: "'w organizer_ports" and R :: "'w \<Rightarrow> 'w \<Rightarrow> bool"
  assumes publish_refl: "R w w"
    and publish_trans: "R w w1 \<Longrightarrow> R w1 w2 \<Longrightarrow> R w w2"
    and send_related: "op_Send ports url ms w = (w', x) \<Longrightarrow> R w w'"
    and pause_related: "op_pause ports n w = (w', e) \<Longrightarrow> R w w'"
    and mark_related: "op_Ledger ports = Some l \<Longrightarrow> pl_MarkChunksScheduled l js w = (w', e) \<Longrightarrow> R w w'"
    and manifest_related: "op_Ledger ports = Some l \<Longrightarrow> \<forall>c\<in>set cs. cj_JobID c = k
      \<Longrightarrow> pl_Plan l (plan_of cs now) cs w = (w', e) \<Longrightarrow> R w w'"
    and unscheduled_related: "op_Ledger ports = Some l \<Longrightarrow> pl_UnscheduledChunks l k w = (w', u) \<Longrightarrow> R w w'"
    and scheduled_related: "op_Ledger ports = Some l \<Longrightarrow> pl_MarkScheduled l ids w = (w', e) \<Longrightarrow> R w w'"
    and failed_related: "op_Ledger ports = Some l \<Longrightarrow> pl_MarkSchedulingFailed l ids t w = (w', e) \<Longrightarrow> R w w'"
begin

lemma checkpoint_related: "checkpoint ports js w = (w', e) \<Longrightarrow> R w w'"
  by (cases "op_Ledger ports") (auto simp: checkpoint_def publish_refl dest!: mapped_pair dest: mark_related)

lemma flush_attempts_related: "flush_attempts n ports url attempt pending w = (w', r) \<Longrightarrow> R w w'"
proof (induction n arbitrary: attempt pending w)
  case (Suc n)
  obtain w1 x where s: "op_Send ports url (map fst pending) w = (w1, x)" by (cases "op_Send ports url (map fst pending) w")
  note R1 = send_related [OF s]
  show ?case
    using Suc.prems s R1
    by (auto simp: Let_def split: sum.splits if_splits option.splits prod.splits
        dest!: checkpoint_related pause_related Suc.IH elim: publish_trans) (meson publish_trans)
qed (simp add: publish_refl)

lemma send_chunks_related: "send_chunks ports cfg js batch url w = (w', r) \<Longrightarrow> R w w'"
proof (induction js arbitrary: batch url w)
  case Nil
  then show ?case by (auto simp: flush_chunks_def publish_refl split: if_splits dest: flush_attempts_related)
next
  case (Cons j js)
  show ?case
    using Cons.prems
    by (auto simp: flush_chunks_def Let_def publish_refl split: if_splits prod.splits option.splits
        dest!: flush_attempts_related Cons.IH elim: publish_trans)
qed

lemma plan_groups_related:
  assumes "op_Ledger ports = Some l"
  shows "plan_groups ports l jobs ks w = (w', r) \<Longrightarrow> R w w'"
proof (induction ks arbitrary: w w' r)
  case (Cons k ks)
  let ?cs = "filter (\<lambda>j. cj_JobID j = k) jobs"
  obtain w1 e where p: "pl_Plan l (plan_of ?cs (op_now ports w)) ?cs w = (w1, e)"
    by (cases "pl_Plan l (plan_of ?cs (op_now ports w)) ?cs w")
  have R1: "R w w1" by (rule manifest_related [OF assms _ p, of k]) simp
  show ?case
    using Cons.prems p R1
    by (auto simp: Let_def split: prod.splits option.splits sum.splits
        dest!: unscheduled_related [OF assms] Cons.IH elim: publish_trans)
qed (simp add: publish_refl)

lemma Publish_related:
  assumes "Publish ports render cfg jobs w = (w', r)"
  shows "R w w'"
proof -
  obtain w1 x where p: "to_publish ports jobs w = (w1, x)" by (cases "to_publish ports jobs w")
  have R1: "R w w1"
    using p by (auto simp: to_publish_def Let_def publish_refl split: option.splits prod.splits sum.splits dest: plan_groups_related)
  show ?thesis
  proof (cases x)
    case (Inl e)
    with assms p R1 show ?thesis by (simp add: Publish_def)
  next
    case (Inr ji)
    obtain js ids where ji: "ji = (js, ids)" by (cases ji)
    obtain w2 err where s: "send_chunks ports cfg js [] [] w1 = (w2, err)" by (cases "send_chunks ports cfg js [] [] w1")
    have f: "finish_publish ports render ids err w2 = (w', r)" using assms p Inr ji s by (simp add: Publish_def)
    have "R w2 w'"
      using f by (auto simp: finish_publish_def publish_refl split: option.splits prod.splits
          dest!: mapped_pair dest: scheduled_related failed_related)
    with R1 send_chunks_related [OF s] show ?thesis by (blast intro: publish_trans)
  qed
qed

end

end
