(* ===== verification/Organizer_Props.thy ===== *)
theory Organizer_Props
  imports Organizer_Handler
begin

section \<open>What the Organizer guarantees\<close>

text \<open>
  The locale \<open>organizer_contract\<close> joins the contract of \<open>Publish\<close>, the admission and the manifest:
  after a plan has been written, a chunk of it has its checkpoint or is reported as unscheduled.
  From it follows that an acknowledged message has all its chunks in the queues. The other
  properties are about the jobs the handler makes from a notification and from a request.
\<close>

subsection \<open>The contract\<close>

locale organizer_contract =
    checkpointed_queue "oe_ports env" stored marked
  + intake: related_intake env "\<lambda>w w'. grows stored marked {} w w' \<and> (good w \<longrightarrow> good w')"
  + publishing: related_publish "oe_ports env" "\<lambda>w w'. good w \<longrightarrow> good w'"
  for env :: "'w organizer_env" and stored :: "'w \<Rightarrow> (string \<times> OutboundMessage) set"
    and marked :: "'w \<Rightarrow> (string \<times> string) set" and good :: "'w \<Rightarrow> bool" +
  assumes order_set: "set (op_order (oe_ports env) ks) = set ks"
    and unscheduled_complete: "op_Ledger (oe_ports env) = Some l \<Longrightarrow> good w
      \<Longrightarrow> pl_Plan l (plan_of cs now) cs w = (w1, None) \<Longrightarrow> pl_UnscheduledChunks l k w1 = (w2, Inr us)
      \<Longrightarrow> \<forall>c\<in>set cs. cj_JobID c = k \<Longrightarrow> c \<in> set cs
      \<Longrightarrow> chunk_key c \<in> marked w2 \<or> chunk_key c \<in> chunk_key ` set us"
begin

lemma plan_groups_complete:
  assumes "op_Ledger (oe_ports env) = Some l"
  shows "plan_groups (oe_ports env) l jobs ks w = (w', Inr (js, ids)) \<Longrightarrow> good w \<Longrightarrow> j \<in> set jobs \<Longrightarrow> cj_JobID j \<in> set ks
    \<Longrightarrow> chunk_key j \<in> marked w \<or> chunk_key j \<in> chunk_key ` set js"
proof (induction ks arbitrary: w js ids)
  case (Cons k ks)
  let ?ports = "oe_ports env"
  let ?cs = "filter (\<lambda>j. cj_JobID j = k) jobs"
  obtain w1 w2 us js2 ids2 where p: "pl_Plan l (plan_of ?cs (op_now ?ports w)) ?cs w = (w1, None)"
    and u: "pl_UnscheduledChunks l k w1 = (w2, Inr us)" and g: "plan_groups ?ports l jobs ks w2 = (w', Inr (js2, ids2))"
    and js: "js = us @ js2"
    using Cons.prems(1) by (auto simp: Let_def split: prod.splits option.splits sum.splits)
  have "good w1"
    using Cons.prems(2) publishing.manifest_related [OF assms _ p, of k] by simp
  then have good2: "good w2"
    using publishing.unscheduled_related [OF assms u] by blast
  have m: "marked w2 \<subseteq> marked w"
    using plan_grows [OF assms p] unscheduled_grows [OF assms u] by (auto simp: grows_def)
  show ?case
  proof (cases "cj_JobID j = k")
    case True
    then have "chunk_key j \<in> marked w2 \<or> chunk_key j \<in> chunk_key ` set us"
      using unscheduled_complete [OF assms Cons.prems(2) p u] Cons.prems(3) by simp
    with m js show ?thesis by auto
  next
    case False
    then have "chunk_key j \<in> marked w2 \<or> chunk_key j \<in> chunk_key ` set js2"
      using Cons.IH [OF g good2] Cons.prems by simp
    with m js show ?thesis by auto
  qed
qed simp

lemma to_publish_complete:
  assumes "to_publish (oe_ports env) jobs w = (w', Inr (js, ids))" "good w" "j \<in> set jobs"
  shows "chunk_key j \<in> marked w \<or> chunk_key j \<in> chunk_key ` set js"
proof (cases "is_control j \<or> op_Ledger (oe_ports env) = None")
  case True
  with assms(1,3) show ?thesis
    by (auto simp: to_publish_def Let_def split: option.splits prod.splits sum.splits)
next
  case False
  then obtain l where l: "op_Ledger (oe_ports env) = Some l" by auto
  let ?planned = "filter (\<lambda>j. \<not> is_control j) jobs"
  obtain js1 where g: "plan_groups (oe_ports env) l ?planned (op_order (oe_ports env) (remdups (map cj_JobID ?planned))) w = (w', Inr (js1, ids))"
    and js: "js = js1 @ filter is_control jobs"
    using assms(1) l by (auto simp: to_publish_def Let_def split: prod.splits sum.splits)
  have "chunk_key j \<in> marked w \<or> chunk_key j \<in> chunk_key ` set js1"
    using plan_groups_complete [OF l g assms(2), of j] False assms(3) by (simp add: order_set)
  with js show ?thesis by auto
qed

text \<open>Every checkpoint is backed by a message.\<close>

definition backed :: "'w \<Rightarrow> bool" where
  "backed w \<longleftrightarrow> (\<forall>k\<in>marked w. \<exists>j. chunk_key j = k \<and> in_queue (oe_Config env) w j)"

definition covered :: "'w \<Rightarrow> ChunkJob \<Rightarrow> bool" where
  "covered w j \<longleftrightarrow> (\<exists>j'. chunk_key j' = chunk_key j \<and> in_queue (oe_Config env) w j')"

lemma covered_mono: "stored w \<subseteq> stored w' \<Longrightarrow> covered w j \<Longrightarrow> covered w' j"
  unfolding covered_def in_queue_def by blast

lemma backed_grows: "backed w \<Longrightarrow> grows stored marked {} w w' \<Longrightarrow> backed w'"
  unfolding backed_def in_queue_def grows_def by blast

lemma Publish_covers:
  assumes "Publish (oe_ports env) render (oe_Config env) jobs w = (w', r)" "good w" "backed w"
  shows "good w' \<and> backed w' \<and> stored w \<subseteq> stored w' \<and> (r = None \<longrightarrow> (\<forall>j\<in>set jobs. covered w' j))"
proof -
  have good: "good w'" using publishing.Publish_related [OF assms(1)] assms(2) by blast
  obtain w1 x where p: "to_publish (oe_ports env) jobs w = (w1, x)" by (cases "to_publish (oe_ports env) jobs w")
  show ?thesis
  proof (cases x)
    case (Inl e)
    then have "w' = w1" "r \<noteq> None" using assms(1) p by (auto simp: Publish_def)
    with good backed_grows [OF assms(3)] to_publish_grows [OF p] grows_stored show ?thesis by auto
  next
    case (Inr ji)
    obtain js ids where ji: "ji = (js, ids)" by (cases ji)
    note P = Publish_grows [OF assms(1) p [unfolded Inr ji]]
    have st: "stored w \<subseteq> stored w'" using P(1) by (rule grows_stored)
    have "backed w'"
      using P(1) assms(3) st unfolding backed_def grows_def queued_keys_def in_queue_def by blast
    moreover have "covered w' j" if r: "r = None" and j: "j \<in> set jobs" for j
      using to_publish_complete [OF p [unfolded Inr ji] assms(2) j]
    proof
      assume "chunk_key j \<in> marked w"
      then show ?thesis using assms(3) st unfolding backed_def covered_def in_queue_def by blast
    next
      assume "chunk_key j \<in> chunk_key ` set js"
      then show ?thesis using P(2) [OF r] unfolding covered_def by auto
    qed
    ultimately show ?thesis using good st by blast
  qed
qed

lemma publish_record_covers:
  assumes "publish_record env r w = (w', ok)" "good w" "backed w"
  shows "good w' \<and> backed w' \<and> stored w \<subseteq> stored w'
    \<and> (ok \<longrightarrow> (\<exists>w1 jobs. jobsFor env (ir_Body r) (ir_MessageId r) w = (w1, Inr jobs) \<and> (\<forall>j\<in>set jobs. covered w' j)))"
proof -
  obtain w1 x where j: "jobsFor env (ir_Body r) (ir_MessageId r) w = (w1, x)" by (cases "jobsFor env (ir_Body r) (ir_MessageId r) w")
  have g: "grows stored marked {} w w1" "good w1" using intake.jobsFor_related [OF j] assms(2) by blast+
  note b1 = backed_grows [OF assms(3) g(1)] and st = grows_stored [OF g(1)]
  show ?thesis
  proof (cases x)
    case (Inl e)
    with assms(1) j g b1 st show ?thesis by (simp add: publish_record_def)
  next
    case (Inr jobs)
    obtain e where p: "Publish (oe_ports env) (oe_render env) (oe_Config env) jobs w1 = (w', e)" and ok: "ok \<longleftrightarrow> e = None"
      using assms(1) j Inr by (cases "Publish (oe_ports env) (oe_render env) (oe_Config env) jobs w1") (simp add: publish_record_def)
    from Publish_covers [OF p g(2) b1] st j Inr ok show ?thesis by auto
  qed
qed

lemma handle_covers:
  "handleSQSEvent env rs w = (w', failures) \<Longrightarrow> good w \<Longrightarrow> backed w
    \<Longrightarrow> stored w \<subseteq> stored w' \<and> (\<forall>r\<in>set rs. ir_MessageId r \<notin> set failures \<longrightarrow>
      (\<exists>w1 w2 jobs. jobsFor env (ir_Body r) (ir_MessageId r) w1 = (w2, Inr jobs) \<and> (\<forall>j\<in>set jobs. covered w' j)))"
proof (induction rs arbitrary: w failures)
  case (Cons r rs)
  obtain w1 ok where p: "publish_record env r w = (w1, ok)" by (cases "publish_record env r w")
  obtain fs where h: "handleSQSEvent env rs w1 = (w', fs)" and fs: "failures = (if ok then fs else ir_MessageId r # fs)"
    using Cons.prems(1) p by (auto split: prod.splits)
  note P = publish_record_covers [OF p Cons.prems(2,3)]
  have I: "stored w1 \<subseteq> stored w'" "\<forall>r\<in>set rs. ir_MessageId r \<notin> set fs \<longrightarrow>
      (\<exists>w1 w2 jobs. jobsFor env (ir_Body r) (ir_MessageId r) w1 = (w2, Inr jobs) \<and> (\<forall>j\<in>set jobs. covered w' j))"
    using Cons.IH [OF h] P by blast+
  have "\<exists>w0 w2 jobs. jobsFor env (ir_Body r) (ir_MessageId r) w0 = (w2, Inr jobs) \<and> (\<forall>j\<in>set jobs. covered w' j)" if ok
    using P that covered_mono [OF I(1)] by blast
  with I P fs show ?case by auto
qed simp

end


subsection \<open>The identities a plan gives\<close>

text \<open>What every planned job of a file says about the file and the execution.\<close>

definition of_file :: "string \<Rightarrow> FileRequest \<Rightarrow> ChunkJob \<Rightarrow> bool" where
  "of_file executionID file j \<longleftrightarrow> cj_JobID j = executionID \<and> cj_Control j = [] \<and> cj_Bucket j = fr_Bucket file
     \<and> cj_Key j = fr_Key file \<and> (fr_ETag file \<noteq> [] \<longrightarrow> cj_ETag j = fr_ETag file)"

lemma mk_job_fields [simp]:
  "cj_JobID (mk_job file sz etag v ex c a b m) = ex" "cj_Control (mk_job file sz etag v ex c a b m) = []"
  "cj_Bucket (mk_job file sz etag v ex c a b m) = fr_Bucket file" "cj_Key (mk_job file sz etag v ex c a b m) = fr_Key file"
  "cj_ETag (mk_job file sz etag v ex c a b m) = etag" "cj_ChunkID (mk_job file sz etag v ex c a b m) = format_pad 8 c"
  by (simp_all add: mk_job_def zero_ChunkJob_def)

lemma multiline_loop_jobs:
  "multiline_loop n store file sz etag v ex nominal start c = Inr js \<Longrightarrow> fr_ETag file \<noteq> [] \<longrightarrow> etag = fr_ETag file
    \<Longrightarrow> (\<forall>j\<in>set js. of_file ex file j) \<and> (js \<noteq> [] \<longrightarrow> cj_ChunkID (hd js) = format_pad 8 c)"
proof (induction n arbitrary: start c js)
  case (Suc n)
  show ?case
  proof (cases "start < sz")
    case True
    obtain padding js2 e where "js = (mk_job file sz etag v ex c start e (ml_MaxBytesPerRecord (fr_MultiLineLayout file)))
        \<lparr>cj_TrailingPaddingBytes := padding, cj_MultiLineLayout := fr_MultiLineLayout file\<rparr> # js2"
      and "multiline_loop n store file sz etag v ex nominal (wrap64 (start + nominal)) (c + 1) = Inr js2"
      using Suc.prems(1) True by (auto simp: Let_def split: sum.splits)
    with Suc.IH [OF this(2) Suc.prems(2)] Suc.prems(2) show ?thesis by (auto simp: of_file_def)
  qed (use Suc.prems in auto)
qed simp

lemma json_loop_jobs:
  "json_loop n file sz etag v ex nominal start c = Inr js \<Longrightarrow> fr_ETag file \<noteq> [] \<longrightarrow> etag = fr_ETag file
    \<Longrightarrow> (\<forall>j\<in>set js. of_file ex file j) \<and> (js \<noteq> [] \<longrightarrow> cj_ChunkID (hd js) = format_pad 8 c)"
proof (induction n arbitrary: start c js)
  case (Suc n)
  show ?case
  proof (cases "start < sz")
    case True
    obtain e js2 s2 where "js = (mk_job file sz etag v ex c start e (ja_MaxBytesPerElement (fr_JSONArrayLayout file)))
        \<lparr>cj_JSONArrayLayout := fr_JSONArrayLayout file\<rparr> # js2"
      and "json_loop n file sz etag v ex nominal s2 (c + 1) = Inr js2"
      using Suc.prems(1) True by (auto simp: Let_def split: sum.splits)
    with Suc.IH [OF this(2) Suc.prems(2)] Suc.prems(2) show ?thesis by (auto simp: of_file_def)
  qed (use Suc.prems in auto)
qed simp

lemma variableJobs_jobs:
  assumes "variableJobs cfg file sz etag v ex = Inr js" "fr_ETag file \<noteq> [] \<longrightarrow> etag = fr_ETag file"
  shows "(\<forall>j\<in>set js. of_file ex file j) \<and> (js \<noteq> [] \<longrightarrow> cj_ChunkID (hd js) = format_pad 8 1)"
proof -
  obtain n where js: "js = map (\<lambda>k. mk_job file sz etag v ex (int k + 1) (go_div (wrap64 (sz * int k)) n)
      (wrap64 (go_div (wrap64 (sz * (int k + 1))) n - 1)) (fr_MaxRecordLengthBytes file)) [0..<nat n]"
    using assms(1) by (auto simp: variableJobs_def Let_def split: if_splits sum.splits)
  show ?thesis
    unfolding js using assms(2) by (cases "nat n") (auto simp: of_file_def upt_conv_Cons simp del: upt_Suc)
qed

lemma plan_file_jobs:
  assumes "plan_file ord store cfg ex rnd file = Inr js" "ex \<noteq> []"
  shows "(\<forall>j\<in>set js. of_file ex file j) \<and> (js \<noteq> [] \<longrightarrow> cj_ChunkID (hd js) = format_pad 8 1)"
proof -
  obtain object where h: "head store \<lparr>oi_Bucket = fr_Bucket file, oi_Key = fr_Key file,
      oi_VersionID = fr_VersionID file, oi_ETag = [], oi_Size = 0\<rparr> = Inr object"
    using assms(1) by (auto simp: plan_file_def split: if_splits sum.splits)
  have o: "fr_ETag file \<noteq> [] \<longrightarrow> oi_ETag object = fr_ETag file"
    using assms(1) h by (auto simp: plan_file_def split: if_splits)
  have cases: "multiLineJobs ord store cfg file (oi_Size object) (oi_ETag object) (oi_VersionID object) ex = Inr js
      \<or> jsonArrayJobs cfg file (oi_Size object) (oi_ETag object) (oi_VersionID object) ex = Inr js
      \<or> variableJobs cfg file (oi_Size object) (oi_ETag object) (oi_VersionID object) ex = Inr js
      \<or> js = [mk_job file (oi_Size object) (oi_ETag object) (oi_VersionID object) ex 1 0 (oi_Size object - 1) (fr_MaxRecordLengthBytes file)]"
    using assms h by (simp add: plan_file_def Let_def split: if_splits)
  from cases show ?thesis
  proof (elim disjE)
    assume "multiLineJobs ord store cfg file (oi_Size object) (oi_ETag object) (oi_VersionID object) ex = Inr js"
    then show ?thesis
      by (auto simp: multiLineJobs_def Let_def simp del: multiline_loop.simps split: option.splits if_splits dest!: multiline_loop_jobs [OF _ o])
  next
    assume "jsonArrayJobs cfg file (oi_Size object) (oi_ETag object) (oi_VersionID object) ex = Inr js"
    then show ?thesis
      by (auto simp: jsonArrayJobs_def Let_def simp del: json_loop.simps split: if_splits dest!: json_loop_jobs [OF _ o])
  next
    assume "variableJobs cfg file (oi_Size object) (oi_ETag object) (oi_VersionID object) ex = Inr js"
    then show ?thesis by (rule variableJobs_jobs) (rule o)
  qed (use o in \<open>simp add: of_file_def\<close>)
qed

lemma plan_files_jobs:
  "plan_files ord store cfg ex rnd i files = Inr jobs \<Longrightarrow> ex \<noteq> [] \<Longrightarrow> j \<in> set jobs
    \<Longrightarrow> \<exists>file\<in>set files. of_file ex file j \<and> (\<exists>a\<in>set jobs. of_file ex file a \<and> cj_ChunkID a = format_pad 8 1)"
proof (induction files arbitrary: i jobs)
  case (Cons f fs)
  obtain planned js where p: "plan_file ord store cfg ex (rnd i) f = Inr planned"
    and r: "plan_files ord store cfg ex rnd (Suc i) fs = Inr js" and jobs: "jobs = planned @ js"
    using Cons.prems(1) by (auto split: sum.splits)
  note P = plan_file_jobs [OF p Cons.prems(2)]
  show ?case
  proof (cases "j \<in> set planned")
    case True
    then have "planned \<noteq> []" by auto
    then have "hd planned \<in> set planned" "cj_ChunkID (hd planned) = format_pad 8 1" using P by auto
    with P True jobs show ?thesis by auto
  next
    case False
    with Cons.IH [OF r Cons.prems(2)] Cons.prems(3) jobs show ?thesis by auto
  qed
qed simp

lemma Plan_jobs:
  assumes "Plan ord store cfg rnd request = Inr jobs" "or_ExecutionID request \<noteq> []" "j \<in> set jobs"
  shows "\<exists>file\<in>set (or_Files request). of_file (or_ExecutionID request) file j
    \<and> (\<exists>a\<in>set jobs. of_file (or_ExecutionID request) file a \<and> cj_ChunkID a = format_pad 8 1)"
proof -
  obtain js where p: "plan_files ord store cfg (or_ExecutionID request) rnd 0 (or_Files request) = Inr js"
    and jobs: "jobs = map (\<lambda>job. job\<lparr>cj_Configuration := job_configuration cfg\<rparr>) js"
    using assms(1) by (auto simp: Plan_def split: if_splits sum.splits)
  obtain j0 where j0: "j0 \<in> set js" "j = j0\<lparr>cj_Configuration := job_configuration cfg\<rparr>" using assms(3) jobs by auto
  obtain f a where fa: "f \<in> set (or_Files request)" "of_file (or_ExecutionID request) f j0"
    "a \<in> set js" "of_file (or_ExecutionID request) f a" "cj_ChunkID a = format_pad 8 1"
    using plan_files_jobs [OF p assms(2) j0(1)] by blast
  have "a\<lparr>cj_Configuration := job_configuration cfg\<rparr> \<in> set jobs" using fa(3) jobs by simp
  moreover have "of_file (or_ExecutionID request) f (a\<lparr>cj_Configuration := job_configuration cfg\<rparr>)"
    "of_file (or_ExecutionID request) f j"
    using fa(2,4) j0(2) by (simp_all add: of_file_def)
  ultimately show ?thesis using fa(1,5) by (intro bexI conjI) simp_all
qed


lemma PlanWithSummary_jobs: "PlanWithSummary ord store cfg rnd t0 t1 request = Inr (s, jobs) \<Longrightarrow> Plan ord store cfg rnd request = Inr jobs"
  by (auto simp: PlanWithSummary_def Let_def split: sum.splits)

lemma plan_reference_jobs:
  assumes "plan_reference env cfg request w = Inr jobs" "or_ExecutionID request \<noteq> []" "j \<in> set jobs"
  shows "\<exists>f\<in>set (or_Files request). of_file (or_ExecutionID request) f j
    \<and> (\<exists>a\<in>set jobs. of_file (or_ExecutionID request) f a \<and> cj_ChunkID a = format_pad 8 1)"
proof -
  obtain summary where "PlanWithSummary (oe_map_order env) (oe_Store env w) cfg (oe_names env w) (fst (oe_millis env w))
      (snd (oe_millis env w)) request = Inr (summary, jobs)"
    using assms(1) unfolding plan_reference_def
    by (cases "PlanWithSummary (oe_map_order env) (oe_Store env w) cfg (oe_names env w) (fst (oe_millis env w))
      (snd (oe_millis env w)) request") auto
  from Plan_jobs [OF PlanWithSummary_jobs [OF this] assms(2,3)] show ?thesis .
qed

lemma FileID_nonempty [simp]: "FileID object \<noteq> []"
  using length_sha256_hex [of "oi_Bucket object @ ''/'' @ oi_Key object @ ''/'' @
     oi_VersionID object @ ''/'' @ oi_ETag object @ ''/'' @ format_int (oi_Size object)"]
  by (auto simp: FileID_def simp del: length_sha256_hex)

subsection \<open>From a notification to jobs\<close>

text \<open>What a job made from a notification says about its configuration and its object.\<close>

definition configured_job ::
  "'w organizer_env \<Rightarrow> PrefixConfiguration \<Rightarrow> ConfigurationSnapshot \<Rightarrow> ObjectIdentity \<Rightarrow> ChunkJob \<Rightarrow> bool" where
  "configured_job env p s object j \<longleftrightarrow>
     ValidatePrefixConfiguration (oe_map_order env) p (oe_globalLimits env) = None
     \<and> cj_Configuration j = prefix_job_configuration p \<and> cj_ConfigSnapshot j = enriched env s
     \<and> cj_JobID j = FileID object \<and> (is_control j \<or> oi_ETag object = [] \<or> cj_ETag j = oi_ETag object)"

lemma event_job_fields:
  assumes "plan_reference env cfg (event_request reference object p) w = Inr jobs" "j \<in> set jobs"
  shows "cj_JobID j = FileID object \<and> \<not> is_control j \<and> (oi_ETag object = [] \<or> cj_ETag j = oi_ETag object)"
  using plan_reference_jobs [OF assms(1) _ assms(2)]
  by (auto simp: event_request_def of_file_def is_control_def)

lemma sealed_job_fields:
  assumes "seal_empty env object p snapshot planned w = (w', Inr jobs)" "j \<in> set jobs"
    and "\<And>j. j \<in> set planned \<Longrightarrow> cj_JobID j = FileID object \<and> \<not> is_control j \<and> (oi_ETag object = [] \<or> cj_ETag j = oi_ETag object)"
  shows "cj_JobID j = FileID object \<and> (is_control j \<or> oi_ETag object = [] \<or> cj_ETag j = oi_ETag object)"
proof -
  have "j \<in> set planned \<or> j = control_job object p"
    using assms(1,2) by (auto simp: seal_empty_def split: option.splits if_splits prod.splits)
  with assms(3) show ?thesis by (auto simp: control_job_def is_control_def)
qed

lemma reference_job_fields:
  assumes "reference_jobs env resolve executionID reference w = (w', Inr jobs)" "j \<in> set jobs"
  shows "\<exists>w1 p s object. resolve (fref_Bucket reference) (fref_Key reference) w = (w1, Inr (p, s))
    \<and> headAdmissionObject (oe_Store env w1) reference = Inr object \<and> configured_job env p s object j"
proof -
  obtain w1 p s where r: "resolve (fref_Bucket reference) (fref_Key reference) w = (w1, Inr (p, s))"
    using assms(1) by (auto simp: reference_jobs_def split: prod.splits sum.splits)
  have v: "ValidatePrefixConfiguration (oe_map_order env) p (oe_globalLimits env) = None"
    using assms(1) r by (auto simp: reference_jobs_def Let_def split: option.splits)
  obtain object where h: "headAdmissionObject (oe_Store env w1) reference = Inr object"
    using assms(1) r v by (auto simp: reference_jobs_def Let_def split: sum.splits)
  obtain w2 planned sealed where p: "plan_reference env (configured (oe_Config env) p) (event_request reference object p) w2 = Inr planned"
    and e: "seal_empty env object p (enriched env s) planned w2 = (w', Inr sealed)"
    and jobs: "jobs = map (\<lambda>j. j\<lparr>cj_Configuration := prefix_job_configuration p, cj_ConfigSnapshot := enriched env s\<rparr>) sealed"
    using assms r v h by (auto simp: reference_jobs_def Let_def split: prod.splits sum.splits bool.splits)
  obtain j0 where j0: "j0 \<in> set sealed" "j = j0\<lparr>cj_Configuration := prefix_job_configuration p, cj_ConfigSnapshot := enriched env s\<rparr>"
    using assms(2) jobs by auto
  have "cj_JobID j0 = FileID object \<and> (is_control j0 \<or> oi_ETag object = [] \<or> cj_ETag j0 = oi_ETag object)"
    by (rule sealed_job_fields [OF e j0(1)]) (rule event_job_fields [OF p])
  then have "configured_job env p s object j" using v j0(2) by (simp add: configured_job_def is_control_def)
  with r h show ?thesis by blast
qed

lemma references_job_fields:
  "references_jobs env resolve executionID refs w = (w', Inr jobs) \<Longrightarrow> j \<in> set jobs
    \<Longrightarrow> \<exists>reference\<in>set refs. \<exists>w0 w1 p s object. resolve (fref_Bucket reference) (fref_Key reference) w0 = (w1, Inr (p, s))
      \<and> headAdmissionObject (oe_Store env w1) reference = Inr object \<and> configured_job env p s object j"
proof (induction refs arbitrary: w jobs)
  case (Cons r refs)
  obtain w1 js js2 where a: "reference_jobs env resolve executionID r w = (w1, Inr js)"
    and b: "references_jobs env resolve executionID refs w1 = (w', Inr js2)" and jobs: "jobs = js @ js2"
    using Cons.prems(1) by (auto split: prod.splits sum.splits)
  show ?case
  proof (cases "j \<in> set js")
    case True
    from reference_job_fields [OF a this] show ?thesis by auto
  next
    case False
    then have "j \<in> set js2" using Cons.prems(2) jobs by simp
    from Cons.IH [OF b this] show ?thesis by auto
  qed
qed simp

subsection \<open>A process without a ledger\<close>

text \<open>
  Every object has ten bytes, every notification names \<open>in/x\<close>, and a request names the files
  given; with none, every body is a notification.
\<close>

definition text_prefix :: PrefixConfiguration where
  "text_prefix = zero_PrefixConfiguration\<lparr>pc_Bucket := ''b'', pc_Prefix := ''in/'', pc_DataType := DataTypeText,
     pc_RecordsPerChunk := 1, pc_BatchSize := 1, pc_MaxEventBytes := 1024, pc_MaxFileBytes := 1024, pc_MaxChunkBytes := 1024,
     pc_MaxRecordLengthBytes := 100, pc_EventSchemaID := ''s'', pc_EventSchemaVersion := ''1'', pc_EventFormat := ''json''\<rparr>"

definition text_limits :: GlobalLimits where
  "text_limits = zero_GlobalLimits\<lparr>gl_MaxFileBytes := 1024, gl_MaxChunkBytes := 1024, gl_MaxEventBytes := 1024,
     gl_MaxBatchSize := 10, gl_InputTypes := [(DataTypeText, \<lparr>il_MaxFileBytes = 1024, il_MaxRecordBytes = 1024\<rparr>)]\<rparr>"

definition plain_ports :: "unit organizer_ports" where
  "plain_ports = \<lparr>op_Send = (\<lambda>_ _ w. (w, Inr [])), op_Ledger = None, op_order = (\<lambda>ks. ks), op_marshal = cj_ChunkID,
     op_pause = (\<lambda>_ w. (w, None)), op_now = (\<lambda>_. 0), op_random = (\<lambda>_. ''r'')\<rparr>"

definition plain_file :: "string \<Rightarrow> FileRequest" where
  "plain_file k = \<lparr>fr_Bucket = ''b'', fr_Key = k, fr_VersionID = [], fr_ETag = [], fr_PresignedURL = [],
     fr_DataType = DataTypeText, fr_MaxRecordLengthBytes = 0, fr_MultiLineLayout = zero_MultiLineLayout,
     fr_JSONArrayLayout = zero_JSONArrayLayout, fr_Context = zero_CorporateContext\<rparr>"

definition plain_env :: "FileRequest list \<Rightarrow> unit organizer_env" where
  "plain_env files = \<lparr>oe_ports = plain_ports,
     oe_Store = (\<lambda>_. \<lparr>os_HeadObject = None,
       os_Head = (\<lambda>b k. Inr \<lparr>oi_Bucket = b, oi_Key = k, oi_VersionID = [], oi_ETag = ''e'', oi_Size = 10\<rparr>),
       os_GetRange = (\<lambda>_ _ _. RangeBody (Inr []) None)\<rparr>),
     oe_Config = zero_Config\<lparr>cf_ChunkQueueURL := ''q''\<rparr>,
     oe_Resolver = Some (\<lambda>_ _ w. (w, Inr (text_prefix, zero_ConfigurationSnapshot))),
     oe_globalLimits = text_limits, oe_globalLimitsVersion = 7, oe_globalLimitsParameter = ''limits'',
     oe_map_order = (\<lambda>xs. xs), oe_names = (\<lambda>_ _. ''name''), oe_millis = (\<lambda>_. (0, 0)),
     oe_decode_request = (\<lambda>_. if files = [] then Inl ''not a request''
        else Inr \<lparr>or_SchemaVersion = SchemaVersion, or_ExecutionID = [], or_Files = files\<rparr>),
     oe_decode_event = (\<lambda>_. Inr (singleS3Notification \<lparr>fref_Bucket = ''b'', fref_Key = ''in/x'', fref_VersionID = []\<rparr>)),
     oe_render = (\<lambda>_. [])\<rparr>"

lemma text_prefix_valid: "ValidatePrefixConfiguration (\<lambda>xs. xs) text_prefix text_limits = None"
  by code_simp

lemma text_prefix_fields:
  "pc_DataType text_prefix = DataTypeText" "pc_MaxRecordLengthBytes text_prefix = 100" "pc_MaxFileBytes text_prefix = 1024"
  by (simp_all add: text_prefix_def)

lemmas plan_defs = plan_reference_def PlanWithSummary_def Plan_def plan_file_def head_def validType_def DataTypeText_def
  DataTypeMultiLine_def DataTypeJSON_def variableJobs_def textChunkCount_def minimumTargetChunkBytes_def SchemaVersion_def
  maxChunkBytes_def

lemma event_jobs:
  "\<exists>j. jobsFor (plain_env []) body ''m'' () = ((), Inr [j])"
  by (simp add: jobsFor_def explicit_request_def plain_env_def plain_ports_def Parse_def singleS3Notification_def
      unescape_escape has_prefix_def reference_jobs_def text_prefix_valid headAdmissionObject_def admission_def seal_empty_def
      plan_defs event_request_def configured_def text_prefix_fields Let_def)

lemma request_jobs:
  "\<exists>j k. jobsFor (plain_env [plain_file ''x'', plain_file ''y'']) body ''m'' () = ((), Inr [j, k]) \<and> cj_Key j = ''x'' \<and> cj_Key k = ''y''"
  by (simp add: jobsFor_def explicit_request_def plain_env_def plan_defs plain_file_def zero_Config_def Let_def
      mk_job_def zero_ChunkJob_def)



text \<open>
  C40. The files of one request share their chunks: when an explicit request names several files and
  is planned, then for any two planned files there are a job of the one and a job of the other
  with the same job and chunk identifier, for which the ledger has one manifest item.
\<close>

theorem files_of_a_request_share_chunks:
  assumes "explicit_request env body = Some request" "executionID \<noteq> []"
    and "jobsFor env body executionID w = (w', Inr jobs)" "j \<in> set jobs" "k \<in> set jobs"
  shows "\<exists>a\<in>set jobs. \<exists>b\<in>set jobs. chunk_key a = chunk_key b
    \<and> (cj_Bucket a, cj_Key a) = (cj_Bucket j, cj_Key j) \<and> (cj_Bucket b, cj_Key b) = (cj_Bucket k, cj_Key k)"
proof -
  have p: "plan_reference env (oe_Config env) (request\<lparr>or_ExecutionID := executionID\<rparr>) w = Inr jobs"
    using assms(1,3) by (auto simp: jobsFor_def)
  have ex: "or_ExecutionID (request\<lparr>or_ExecutionID := executionID\<rparr>) \<noteq> []" using assms(2) by simp
  obtain f a where f: "of_file executionID f j" "a \<in> set jobs" "of_file executionID f a" "cj_ChunkID a = format_pad 8 1"
    using plan_reference_jobs [OF p ex assms(4)] by auto
  obtain g b where g: "of_file executionID g k" "b \<in> set jobs" "of_file executionID g b" "cj_ChunkID b = format_pad 8 1"
    using plan_reference_jobs [OF p ex assms(5)] by auto
  show ?thesis
    by (rule bexI [OF _ f(2)], rule bexI [OF _ g(2)]) (use f g in \<open>simp add: of_file_def chunk_key_def\<close>)
qed


theorem files_of_a_request_share_chunks_witness:
  "\<exists>jobs a b. jobsFor (plain_env [plain_file ''x'', plain_file ''y'']) [] ''m'' () = ((), Inr jobs) \<and> a \<in> set jobs \<and> b \<in> set jobs
     \<and> chunk_key a = chunk_key b \<and> cj_Key a = ''x'' \<and> cj_Key b = ''y''"
proof -
  let ?env = "plain_env [plain_file ''x'', plain_file ''y'']"
  obtain j k where r: "jobsFor ?env [] ''m'' () = ((), Inr [j, k])" and keys: "cj_Key j = ''x''" "cj_Key k = ''y''"
    using request_jobs [of "[]"] by blast
  have e: "\<exists>request. explicit_request ?env [] = Some request"
    by (simp add: explicit_request_def plain_env_def SchemaVersion_def)
  then obtain request where e: "explicit_request ?env [] = Some request" by blast
  have "\<exists>a\<in>set [j, k]. \<exists>b\<in>set [j, k]. chunk_key a = chunk_key b
    \<and> (cj_Bucket a, cj_Key a) = (cj_Bucket j, cj_Key j) \<and> (cj_Bucket b, cj_Key b) = (cj_Bucket k, cj_Key k)"
    by (rule files_of_a_request_share_chunks [OF e _ r]) simp_all
  then obtain a b where "a \<in> set [j, k]" "b \<in> set [j, k]" "chunk_key a = chunk_key b" "cj_Key a = ''x''" "cj_Key b = ''y''"
    using keys by auto
  with r show ?thesis by blast
qed

end
