(* ===== verification/Table_Relations.thy ===== *)
theory Table_Relations
  imports Publisher
begin

section \<open>Relations on tables that the methods respect\<close>

text \<open>
  A reflexive and transitive relation on tables that every request of a method respects, and that
  the other processes respect, holds between the tables before and after the method. The locale
  states it once for the methods the Organizer calls; theory \<open>Publisher_Ledger\<close> interprets it
  for the scheduling checkpoints, \<open>Organizer_Ledger\<close> for the chunk manifest.
\<close>

locale table_relation =
  fixes R :: "table \<Rightarrow> table \<Rightarrow> bool"
  assumes same: "R t t" and chain: "R t t1 \<Longrightarrow> R t1 t2 \<Longrightarrow> R t t2"
begin

lemma steps: "R\<^sup>*\<^sup>* t t' \<Longrightarrow> R t t'"
  by (induction rule: rtranclp_induct) (auto intro: same chain)

lemma write_kept:
  assumes "dynamo_contract R tab db" "db_Write db wr w = (w', r)" "\<And>t. write_ok t wr \<Longrightarrow> R t (apply_write t wr)"
  shows "R (tab w) (tab w')"
  by (rule steps [OF write_steps [OF assms(1,2)]]) (rule assms(3))

lemma plan_chunks_kept:
  "dynamo_contract R tab db \<Longrightarrow> plan_chunks a db plan cs w = (w', r)
    \<Longrightarrow> (\<And>c t. c \<in> set cs \<Longrightarrow> write_ok t (plan_chunk_write a plan c) \<Longrightarrow> R t (apply_write t (plan_chunk_write a plan c)))
    \<Longrightarrow> R (tab w) (tab w')"
proof (induction cs arbitrary: w)
  case Nil
  then show ?case by (simp add: same)
next
  case (Cons c cs)
  obtain w1 x where q: "db_Write db (plan_chunk_write a plan c) w = (w1, x)"
    by (cases "db_Write db (plan_chunk_write a plan c) w")
  have m: "R (tab w) (tab w1)"
    by (rule write_kept [OF Cons.prems(1) q]) (rule Cons.prems(3), simp_all)
  have "R (tab w1) (tab w')" if "plan_chunks a db plan cs w1 = (w', r)"
    by (rule Cons.IH [OF Cons.prems(1) that]) (rule Cons.prems(3), simp_all)
  then show ?case
    using Cons.prems(2) q m chain [OF m] by (auto split: option.splits)
qed

lemma PlanJob_kept:
  assumes "dynamo_contract R tab db" "PlanJob a db plan cs w = (w', r)"
    and "\<And>t. R t (apply_write t (plan_head_write a plan))" "\<And>t now. R t (apply_write t (plan_seal_write a plan now))"
    and "\<And>c t. c \<in> set cs \<Longrightarrow> write_ok t (plan_chunk_write a plan c) \<Longrightarrow> R t (apply_write t (plan_chunk_write a plan c))"
  shows "R (tab w) (tab w')"
proof (cases "aws_LedgerTable a = []")
  case True
  with assms(2) show ?thesis by (simp add: PlanJob_def same)
next
  case False
  obtain w1 x where h: "db_Write db (plan_head_write a plan) w = (w1, x)" by (cases "db_Write db (plan_head_write a plan) w")
  note m1 = write_kept [OF assms(1) h assms(3)]
  obtain w2 y where c: "plan_chunks a db plan cs w1 = (w2, y)" by (cases "plan_chunks a db plan cs w1")
  have "R (tab w1) (tab w2)" by (rule plan_chunks_kept [OF assms(1) c]) (rule assms(5))
  note m2 = chain [OF m1 this]
  obtain w3 z where s: "db_Write db (plan_seal_write a plan (db_now db w2)) w2 = (w3, z)"
    by (cases "db_Write db (plan_seal_write a plan (db_now db w2)) w2")
  note m3 = chain [OF m2 write_kept [OF assms(1) s assms(4)]]
  show ?thesis
    using assms(2) False h c s m1 m2 m3 by (auto simp: PlanJob_def split: option.splits if_splits)
qed

lemma markJobs_kept:
  assumes "dynamo_contract R tab db" "\<And>t j now. R t (apply_write t (mark_job_write a j status message now))"
  shows "markJobs a db js status message w = (w', r) \<Longrightarrow> R (tab w) (tab w')"
proof (induction js arbitrary: w)
  case Nil
  then show ?case by (simp add: same)
next
  case (Cons j js)
  obtain w1 x where q: "db_Write db (mark_job_write a j status message (db_now db w)) w = (w1, x)"
    by (cases "db_Write db (mark_job_write a j status message (db_now db w)) w")
  note m = write_kept [OF assms(1) q assms(2)]
  show ?case
    using Cons.prems q m Cons.IH [of w1] chain [OF m] by (auto split: option.splits)
qed

lemma MarkChunksScheduled_kept:
  "dynamo_contract R tab db \<Longrightarrow> MarkChunksScheduled a db cs w = (w', r)
    \<Longrightarrow> (\<And>c t now. c \<in> set cs \<Longrightarrow> write_ok t (scheduled_write a c now) \<Longrightarrow> R t (apply_write t (scheduled_write a c now)))
    \<Longrightarrow> R (tab w) (tab w')"
proof (induction cs arbitrary: w)
  case Nil
  then show ?case by (simp add: same)
next
  case (Cons c cs)
  obtain w1 x where q: "db_Write db (scheduled_write a c (db_now db w)) w = (w1, x)"
    by (cases "db_Write db (scheduled_write a c (db_now db w)) w")
  have m: "R (tab w) (tab w1)"
    by (rule write_kept [OF Cons.prems(1) q]) (rule Cons.prems(3), simp_all)
  have I: "R (tab v) (tab w')" if "MarkChunksScheduled a db cs v = (w', r)" for v
    by (rule Cons.IH [OF Cons.prems(1) that]) (rule Cons.prems(3), simp_all)
  show ?case
    using Cons.prems(2) q m I [of w] I [of w1] chain [OF m] by (auto split: if_splits option.splits)
qed

lemma query_pages_kept:
  assumes "dynamo_contract R tab db"
  shows "query_pages n db q st f acc w = (w', r) \<Longrightarrow> R (tab w) (tab w')"
proof (induction n arbitrary: st acc w)
  case 0
  then show ?case by (simp add: same)
next
  case (Suc n)
  obtain w1 x where q: "db_Query db q st w = (w1, x)" by (cases "db_Query db q st w")
  note m = steps [OF query_steps [OF assms q]]
  show ?case
    using Suc.prems Suc.IH [of _ _ w1] q m chain [OF m] by (auto split: sum.splits prod.splits if_splits)
qed

lemma UnscheduledChunks_kept:
  assumes "dynamo_contract R tab db" "UnscheduledChunks n db j w = (w', r)"
  shows "R (tab w) (tab w')"
  using assms(2) query_pages_kept [OF assms(1)] by (auto simp: UnscheduledChunks_def split: prod.splits sum.splits)

lemma jobStatus_kept:
  assumes "dynamo_contract R tab db" "jobStatus db j w = (w', r)"
  shows "R (tab w) (tab w')"
  using assms(2) steps [OF get_steps [OF assms(1)]] by (auto simp: jobStatus_def split: prod.splits sum.splits option.splits)

lemma advance_or_already_kept:
  assumes "dynamo_contract R tab db" "advance_or_already a db j froms to reason extra already w = (w', r)"
    and "\<And>t now. R t (apply_write t (advance_write a j froms to reason extra now))"
  shows "R (tab w) (tab w')"
proof -
  obtain w1 x where q: "db_Write db (advance_write a j froms to reason extra (db_now db w)) w = (w1, x)"
    by (cases "db_Write db (advance_write a j froms to reason extra (db_now db w)) w")
  note m = write_kept [OF assms(1) q assms(3)]
  show ?thesis
    using assms(2) q m chain [OF m jobStatus_kept [OF assms(1)]]
    by (auto simp: advance_or_already_def advanceJob_def split: option.splits prod.splits sum.splits if_splits)
qed

lemma Admit_kept:
  assumes "dynamo_contract R tab db" "Admit a db rc w = (w', r)"
    and "\<And>t token now. write_ok t (admit_write a rc token now) \<Longrightarrow> R t (apply_write t (admit_write a rc token now))"
    and "\<And>t j token now. R t (apply_write t (reclaim_write a j token now))"
  shows "R (tab w) (tab w')"
proof (cases "aws_LedgerTable a = [] \<or> rc_ReceiptID rc = [] \<or> rc_FileID rc = []")
  case True
  with assms(2) show ?thesis by (auto simp: Admit_def same split: if_splits)
next
  case False
  obtain w1 x where q: "db_Write db (admit_write a rc (db_random db w) (db_now db w)) w = (w1, x)"
    by (cases "db_Write db (admit_write a rc (db_random db w) (db_now db w)) w")
  note m1 = write_kept [OF assms(1) q assms(3)]
  obtain w2 s where j: "jobStatus db (rc_FileID rc) w1 = (w2, s)" by (cases "jobStatus db (rc_FileID rc) w1")
  note m2 = chain [OF m1 jobStatus_kept [OF assms(1) j]]
  obtain w3 y where p: "db_Write db (reclaim_write a (rc_FileID rc) (db_random db w2) (db_now db w2)) w2 = (w3, y)"
    by (cases "db_Write db (reclaim_write a (rc_FileID rc) (db_random db w2) (db_now db w2)) w2")
  note m3 = chain [OF m2 write_kept [OF assms(1) p assms(4)]]
  show ?thesis
    using assms(2) False q j p m1 m2 m3
    by (auto simp: Admit_def split: option.splits sum.splits if_splits)
qed

end

end
