(* ===== verification/Publisher_Ledger.thy ===== *)
theory Publisher_Ledger
  imports Table_Relations
begin

section \<open>Publishing on the ledger\<close>

text \<open>
  The ports of the organizer wired to the ledger of theory \<open>Ledger\<close>, with queues beside the
  table; the contract of theory \<open>Publisher\<close> proved of this wiring, and the two properties of
  \<^verbatim>\<open>Publish\<close>: what it says it published is in the queues, and a chunk has its scheduling
  checkpoint only if its message is.
\<close>

subsection \<open>Wiring\<close>

definition ledger_plan_ports :: "nat \<Rightarrow> AWS \<Rightarrow> 'w dynamo \<Rightarrow> (ledger_fault \<Rightarrow> string) \<Rightarrow> 'w plan_ports" where
  "ledger_plan_ports pages a db render =
    \<lparr>pl_Admit = (\<lambda>rc w. map_prod id (map_prod id (map_option render)) (Admit a db rc w)),
     pl_BeginValidation = (\<lambda>j w. map_prod id (map_option render) (BeginValidation a db j w)),
     pl_BeginPlanning = (\<lambda>j w. map_prod id (map_option render) (BeginPlanning a db j w)),
     pl_Plan = (\<lambda>p cs w. map_prod id (map_option render) (PlanJob a db p cs w)),
     pl_UnscheduledChunks = (\<lambda>j w. map_prod id (map_sum render id) (UnscheduledChunks pages db j w)),
     pl_MarkChunksScheduled = (\<lambda>cs w. map_prod id (map_option render) (MarkChunksScheduled a db cs w)),
     pl_MarkScheduled = (\<lambda>js w. map_prod id (map_option render) (MarkScheduled a db js w)),
     pl_MarkSchedulingFailed = (\<lambda>js m w. map_prod id (map_option render) (MarkSchedulingFailed a db js m w)),
     pl_Replay = (\<lambda>s t ids w. map_prod id (map_sum render id) (ReplayChunks pages a db s t ids w))\<rparr>"

text \<open>A table and queues side by side.\<close>

definition beside :: "('w \<Rightarrow> 'w \<times> 'r) \<Rightarrow> 'w \<times> 'q \<Rightarrow> ('w \<times> 'q) \<times> 'r" where
  "beside f wq = (case f (fst wq) of (w, r) \<Rightarrow> ((w, snd wq), r))"

lemma beside_result: "beside f wq = (wq', r) \<Longrightarrow> f (fst wq) = (fst wq', r) \<and> snd wq' = snd wq"
  by (auto simp: beside_def split: prod.splits)

definition beside_queues :: "'w plan_ports \<Rightarrow> ('w \<times> 'q) plan_ports" where
  "beside_queues l =
    \<lparr>pl_Admit = (\<lambda>rc. beside (pl_Admit l rc)), pl_BeginValidation = (\<lambda>j. beside (pl_BeginValidation l j)),
     pl_BeginPlanning = (\<lambda>j. beside (pl_BeginPlanning l j)), pl_Plan = (\<lambda>p cs. beside (pl_Plan l p cs)),
     pl_UnscheduledChunks = (\<lambda>j. beside (pl_UnscheduledChunks l j)),
     pl_MarkChunksScheduled = (\<lambda>cs. beside (pl_MarkChunksScheduled l cs)),
     pl_MarkScheduled = (\<lambda>js. beside (pl_MarkScheduled l js)),
     pl_MarkSchedulingFailed = (\<lambda>js m. beside (pl_MarkSchedulingFailed l js m)),
     pl_Replay = (\<lambda>s t ids. beside (pl_Replay l s t ids))\<rparr>"

subsection \<open>Checkpoints in the table\<close>

definition chunk_marks :: "table \<Rightarrow> (string \<times> string) set" where
  "chunk_marks t = {(j, c). item_at t (j, SK_CHUNK c) at_scheduledAt \<noteq> None}"

definition marks_at_most :: "(string \<times> string) set \<Rightarrow> table \<Rightarrow> table \<Rightarrow> bool" where
  "marks_at_most K t t' \<longleftrightarrow> chunk_marks t' \<subseteq> chunk_marks t \<union> K"

interpretation marks: table_relation "marks_at_most K" for K
  by unfold_locales (auto simp: marks_at_most_def)

lemma update_marks:
  assumes "at_scheduledAt \<notin> target ` set us"
  shows "marks_at_most K t (apply_write t (Update k c us))"
proof -
  have "foldl act (item_at t k) us at_scheduledAt = item_at t k at_scheduledAt"
    by (rule foldl_act_other [OF assms])
  then show ?thesis by (auto simp: marks_at_most_def chunk_marks_def acts_item_at)
qed

lemma scheduled_marks: "chunk_key c \<in> K \<Longrightarrow> marks_at_most K t (apply_write t (scheduled_write a c now))"
  by (auto simp: marks_at_most_def chunk_marks_def scheduled_write_def chunk_key_def)

lemma request_marks:
  "marks_at_most K t (apply_write t (plan_head_write a plan))"
  "marks_at_most K t (apply_write t (plan_chunk_write a plan chunk))"
  "marks_at_most K t (apply_write t (plan_seal_write a plan now))"
  "marks_at_most K t (apply_write t (mark_job_write a j status message now))"
  unfolding plan_head_write_def plan_chunk_write_def plan_seal_write_def mark_job_write_def
  by (rule update_marks; auto)+

lemma PlanJob_marks:
  "dynamo_contract (marks_at_most K) tab db \<Longrightarrow> PlanJob a db plan cs w = (w', r) \<Longrightarrow> marks_at_most K (tab w) (tab w')"
  by (erule (1) marks.PlanJob_kept) (rule request_marks)+

lemma markJobs_marks:
  assumes "dynamo_contract (marks_at_most K) tab db" "markJobs a db js status message w = (w', r)"
  shows "marks_at_most K (tab w) (tab w')"
  by (rule marks.markJobs_kept [OF assms(1) _ assms(2)]) (rule request_marks)

lemma MarkChunksScheduled_marks:
  assumes "dynamo_contract (marks_at_most K) tab db" "MarkChunksScheduled a db cs w = (w', r)" "chunk_key ` set cs \<subseteq> K"
  shows "marks_at_most K (tab w) (tab w')"
  by (rule marks.MarkChunksScheduled_kept [OF assms(1,2)]) (rule scheduled_marks, use assms(3) in blast)

subsection \<open>The contract holds\<close>

type_synonym 'w queued = "'w \<times> (string \<times> OutboundMessage) list"

definition queue_up :: "string \<Rightarrow> OutboundMessage list \<Rightarrow> 'w queued \<Rightarrow> 'w queued \<times> (string + int list)" where
  "queue_up url ms w =
    (if length ms \<le> 10 then ((fst w, snd w @ map (Pair url) ms), Inr []) else (w, Inl ''TooManyEntriesInBatchRequest''))"

definition organizer_on :: "AWS \<Rightarrow> 'w dynamo \<Rightarrow> 'w queued organizer_ports" where
  "organizer_on a db =
    \<lparr>op_Send = queue_up, op_Ledger = Some (beside_queues (ledger_plan_ports 1 a db (\<lambda>_. []))), op_order = (\<lambda>ks. ks),
     op_marshal = cj_ChunkID, op_pause = (\<lambda>_ w. (w, None)), op_now = (\<lambda>w. db_now db (fst w)),
     op_random = (\<lambda>w. db_random db (fst w))\<rparr>"

lemma grows_beside:
  assumes "beside f w = (w', r)" "\<And>v' x. f (fst w) = (v', x) \<Longrightarrow> marks_at_most K (tab (fst w)) (tab v')"
  shows "grows (\<lambda>w. set (snd w)) (\<lambda>w. chunk_marks (tab (fst w))) K w w'"
proof -
  obtain x where "f (fst w) = (fst w', x)" "snd w' = snd w" using beside_result [OF assms(1)] by blast
  with assms(2) show ?thesis by (auto simp: grows_def marks_at_most_def)
qed

lemma rendered: "map_prod id g p = (v, x) \<Longrightarrow> \<exists>y. p = (v, y)"
  by (cases p) simp

lemma organizer_on_contract:
  assumes "\<And>K. dynamo_contract (marks_at_most K) tab db"
  shows "checkpointed_queue (organizer_on a db) (\<lambda>w. set (snd w)) (\<lambda>w. chunk_marks (tab (fst w)))"
proof (unfold_locales, goal_cases)
  case (1 url ms w w' r)
  then show ?case by (auto simp: organizer_on_def queue_up_def grows_def split: if_splits)
next
  case (2 url ms w w' failed m)
  then show ?case by (auto simp: organizer_on_def queue_up_def confirmed_def in_set_enumerate_eq split: if_splits)
next
  case (3 n w w' e)
  then show ?case by (simp add: organizer_on_def grows_def)
next
  case (4 l js w w' e)
  then show ?case
    by (intro grows_beside) (auto simp: organizer_on_def beside_queues_def ledger_plan_ports_def
      dest!: rendered dest: MarkChunksScheduled_marks [OF assms])
next
  case (5 l plan cs w w' e)
  then show ?case
    by (intro grows_beside) (auto simp: organizer_on_def beside_queues_def ledger_plan_ports_def dest!: rendered dest: PlanJob_marks [OF assms])
next
  case (6 l k w w' x)
  then show ?case
    by (intro grows_beside) (auto simp: organizer_on_def beside_queues_def ledger_plan_ports_def dest!: rendered dest: marks.UnscheduledChunks_kept [OF assms])
next
  case (7 l ids w w' e)
  then show ?case
    by (intro grows_beside) (auto simp: organizer_on_def beside_queues_def ledger_plan_ports_def MarkScheduled_def dest!: rendered dest: markJobs_marks [OF assms])
next
  case (8 l ids t w w' e)
  then show ?case
    by (intro grows_beside) (auto simp: organizer_on_def beside_queues_def ledger_plan_ports_def MarkSchedulingFailed_def dest!: rendered dest: markJobs_marks [OF assms])
qed


interpretation queued: checkpointed_queue "organizer_on sample_aws map_db" "\<lambda>w. set (snd w)" "\<lambda>w. chunk_marks (map_of (fst w))"
  by (rule organizer_on_contract) (rule map_db_contract)

subsection \<open>Properties\<close>

text \<open>A run: the job of the sample plan has been admitted and is published.\<close>

definition planning_world :: store where
  "planning_world = run_calls 1 sample_aws map_db [C_Admit sample_receipt, C_BeginValidation ''f'', C_BeginPlanning ''f''] []"

definition queue_config :: Config where
  "queue_config = zero_Config\<lparr>cf_ChunkQueueURL := ''q''\<rparr>"

definition publish_file_job :: ChunkJob where
  "publish_file_job = sample_chunk\<lparr>cj_FileID := ''f'', cj_Bucket := ''b'', cj_Key := ''k'', cj_FileSize := 10\<rparr>"

lemma publish_runs:
  "case to_publish (organizer_on sample_aws map_db) [publish_file_job] (planning_world, []) of
     (w1, Inl e) \<Rightarrow> False | (w1, Inr (js, ids)) \<Rightarrow> map chunk_key js = [(''f'', ''00000001'')]"
  "snd (Publish (organizer_on sample_aws map_db) (\<lambda>_. []) queue_config [publish_file_job] (planning_world, [])) = None"
  "item_at (map_of (fst (fst (Publish (organizer_on sample_aws map_db) (\<lambda>_. []) queue_config [publish_file_job] (planning_world, [])))))
     (''f'', SK_CHUNK ''00000001'') at_scheduledAt \<noteq> None"
  "item_at (map_of planning_world) (''f'', SK_CHUNK ''00000001'') at_scheduledAt = None"
  by code_simp+


lemma publish_run:
  "\<exists>w1 js ids w'. to_publish (organizer_on sample_aws map_db) [publish_file_job] (planning_world, []) = (w1, Inr (js, ids))
     \<and> map chunk_key js = [(''f'', ''00000001'')]
     \<and> Publish (organizer_on sample_aws map_db) (\<lambda>_. []) queue_config [publish_file_job] (planning_world, []) = (w', None)
     \<and> (''f'', ''00000001'') \<in> chunk_marks (map_of (fst w')) - chunk_marks (map_of planning_world)"
proof -
  let ?t = "to_publish (organizer_on sample_aws map_db) [publish_file_job] (planning_world, [])"
  let ?p = "Publish (organizer_on sample_aws map_db) (\<lambda>_. []) queue_config [publish_file_job] (planning_world, [])"
  obtain w1 js ids where "?t = (w1, Inr (js, ids))" "map chunk_key js = [(''f'', ''00000001'')]"
    using publish_runs(1) by (cases ?t) (auto split: sum.splits)
  moreover have "?p = (fst ?p, None)" using publish_runs(2) by (simp add: prod_eq_iff)
  moreover have "(''f'', ''00000001'') \<in> chunk_marks (map_of (fst (fst ?p))) - chunk_marks (map_of planning_world)"
    using publish_runs(3,4) by (simp add: chunk_marks_def)
  ultimately show ?thesis by (intro exI conjI)
qed

text \<open>
  Publishing delivers: when \<^verbatim>\<open>Publish\<close> returns no error, the message of every chunk it had to
  publish, that is every chunk the ledger reported as not yet scheduled and every control
  message, is in the queue the chunk's configuration names, whatever partial failures, refused
  requests and retries happened, and however the map of jobs is ordered.
\<close>

lemma published_chunks_are_queued:
  assumes "checkpointed_queue ports stored marked" "to_publish ports jobs w = (w1, Inr (js, ids))"
    and "Publish ports render cfg jobs w = (w', None)" "j \<in> set js"
  shows "(chunk_queue cfg j, chunk_message ports j) \<in> stored w'"
  using checkpointed_queue.Publish_grows(2) [OF assms(1,3,2) refl assms(4)]
  by (simp add: checkpointed_queue.in_queue_def [OF assms(1)])

lemma published_chunks_are_queued_example:
  "\<exists>w' j. Publish (organizer_on sample_aws map_db) (\<lambda>_. []) queue_config [publish_file_job] (planning_world, []) = (w', None)
     \<and> chunk_key j = (''f'', ''00000001'') \<and> (chunk_queue queue_config j, chunk_message (organizer_on sample_aws map_db) j) \<in> set (snd w')"
proof -
  obtain w1 js ids w' where r: "to_publish (organizer_on sample_aws map_db) [publish_file_job] (planning_world, []) = (w1, Inr (js, ids))"
    "map chunk_key js = [(''f'', ''00000001'')]"
    "Publish (organizer_on sample_aws map_db) (\<lambda>_. []) queue_config [publish_file_job] (planning_world, []) = (w', None)"
    using publish_run by (elim exE conjE) (rule that)
  then obtain j where j: "js = [j]" "chunk_key j = (''f'', ''00000001'')" by auto
  have "j \<in> set js" using j(1) by simp
  from published_chunks_are_queued [OF queued.checkpointed_queue_axioms r(1,3) this] r(3) j(2) show ?thesis by blast
qed

text \<open>
  C16. A checkpoint never runs ahead of the queue: whatever \<^verbatim>\<open>Publish\<close> returns, also when it fails
  half way, a chunk that has a scheduling checkpoint afterwards and had none before is one of the
  chunks to publish and its message is in its queue. So the chunks a later call leaves out
  because they are checkpointed are not lost.
\<close>

theorem checkpoints_follow_confirmation:
  assumes "checkpointed_queue ports stored marked" "to_publish ports jobs w = (w1, Inr (js, ids))"
    and "Publish ports render cfg jobs w = (w', r)" "k \<in> marked w'" "k \<notin> marked w"
  shows "\<exists>j\<in>set js. k = chunk_key j \<and> (chunk_queue cfg j, chunk_message ports j) \<in> stored w'"
proof -
  have "marked w' \<subseteq> marked w \<union> checkpointed_queue.queued_keys ports stored cfg js w'"
    using checkpointed_queue.Publish_grows(1) [OF assms(1,3,2)] by (simp add: grows_def)
  with assms(4,5) show ?thesis
    by (auto simp: checkpointed_queue.queued_keys_def [OF assms(1)] checkpointed_queue.in_queue_def [OF assms(1)])
qed

theorem checkpoints_follow_confirmation_witness:
  "\<exists>w' j. chunk_key j = (''f'', ''00000001'')
     \<and> chunk_key j \<in> chunk_marks (map_of (fst w')) - chunk_marks (map_of planning_world)
     \<and> (chunk_queue queue_config j, chunk_message (organizer_on sample_aws map_db) j) \<in> set (snd w')"
proof -
  obtain w1 js ids w' where r: "to_publish (organizer_on sample_aws map_db) [publish_file_job] (planning_world, []) = (w1, Inr (js, ids))"
    "Publish (organizer_on sample_aws map_db) (\<lambda>_. []) queue_config [publish_file_job] (planning_world, []) = (w', None)"
    "(''f'', ''00000001'') \<in> chunk_marks (map_of (fst w')) - chunk_marks (map_of planning_world)"
    using publish_run by (elim exE conjE) (rule that)
  then obtain j where "j \<in> set js" "(''f'', ''00000001'') = chunk_key j"
    "(chunk_queue queue_config j, chunk_message (organizer_on sample_aws map_db) j) \<in> set (snd w')"
    using checkpoints_follow_confirmation [OF queued.checkpointed_queue_axioms r(1,2), of "(''f'', ''00000001'')"] by auto
  with r(3) show ?thesis by auto
qed

text \<open>
  A fast Worker makes publishing fail: when nothing but this call touches the table and a Worker
  has completed or failed a chunk, so that the job is RUNNING, \<^verbatim>\<open>MarkScheduled\<close> returns an error,
  and with it \<^verbatim>\<open>Publish\<close>, although every message was delivered; the SQS message of the file is
  then delivered again.
\<close>

theorem running_job_cannot_be_marked_scheduled:
  assumes "dynamo_contract (\<lambda>_ _. False) tab db" "job_status_at (tab w) j = Some (S JobRunning)"
  shows "snd (MarkScheduled a db [j] w) \<noteq> None"
proof -
  let ?wr = "mark_job_write a j JobScheduled [] (db_now db w)"
  obtain w1 r where r: "db_Write db ?wr w = (w1, r)" by (cases "db_Write db ?wr w")
  have "\<not> write_ok (tab w) ?wr"
    using assms(2) by (auto simp: mark_job_write_def item_at_def split: option.splits)
  from alone_write_refused(1) [OF assms(1) r this] r show ?thesis
    by (auto simp: MarkScheduled_def)
qed

definition busy_world :: store where
  "busy_world = fst (db_Transact map_db [] (complete_chunk_writes sample_aws sample_result) running_world)"

theorem running_job_cannot_be_marked_scheduled_witness:
  "snd (MarkScheduled sample_aws map_db [''f''] busy_world) \<noteq> None"
proof -
  have "job_status_at (map_of busy_world) ''f'' = Some (S JobRunning)"
    using counted_item by (auto simp: busy_world_def counted_world_def)
  then show ?thesis by (rule running_job_cannot_be_marked_scheduled [OF map_db_contract])
qed

end
