(* ===== verification/Organizer_Ledger.thy ===== *)
theory Organizer_Ledger
  imports Organizer_Props Publisher_Ledger
begin

section \<open>The Organizer on the ledger\<close>

text \<open>
  The contract of theory \<open>Organizer_Props\<close> proved of the ledger: the items of the manifest stay,
  their payload names the chunk they stand for, and a complete page of unscheduled chunks misses
  none that has no checkpoint.
\<close>

subsection \<open>The manifest\<close>

definition payloads_ok :: "table \<Rightarrow> bool" where
  "payloads_ok t \<longleftrightarrow> (\<forall>j c i. t (j, SK_CHUNK c) = Some i \<longrightarrow>
     (\<exists>x. i at_payload = Some (J (JChunk x)) \<and> chunk_key x = (j, c)))"

definition manifest_kept :: "table \<Rightarrow> table \<Rightarrow> bool" where
  "manifest_kept t t' \<longleftrightarrow> (payloads_ok t \<longrightarrow> payloads_ok t')
     \<and> (\<forall>j c. t (j, SK_CHUNK c) \<noteq> None \<longrightarrow> t' (j, SK_CHUNK c) \<noteq> None) \<and> chunk_marks t \<subseteq> chunk_marks t'"

interpretation manifest: table_relation manifest_kept
  by unfold_locales (auto simp: manifest_kept_def)

lemma other_items_kept:
  assumes "snd (write_key wr) = SK_JOB"
  shows "manifest_kept t (apply_write t wr)"
proof -
  obtain k where "write_key wr = (k, SK_JOB)" using assms by (cases "write_key wr") auto
  then have "apply_write t wr (j, SK_CHUNK c) = t (j, SK_CHUNK c)" for j c by (cases wr) auto
  then show ?thesis
    by (simp add: manifest_kept_def payloads_ok_def chunk_marks_def item_at_def)
qed

lemma job_requests_kept:
  "manifest_kept t (apply_write t (plan_head_write a plan))"
  "manifest_kept t (apply_write t (plan_seal_write a plan now))"
  "manifest_kept t (apply_write t (mark_job_write a j status message now))"
  "manifest_kept t (apply_write t (admit_write a rc token now))"
  "manifest_kept t (apply_write t (reclaim_write a j token now))"
  "manifest_kept t (apply_write t (advance_write a j froms to reason extra now))"
  by (rule other_items_kept; simp add: plan_head_write_def plan_seal_write_def mark_job_write_def admit_write_def
      reclaim_write_def advance_write_def)+

text \<open>A write to one chunk item.\<close>

lemma chunk_item_kept:
  assumes "payloads_ok t \<Longrightarrow> \<exists>x. i at_payload = Some (J (JChunk x)) \<and> chunk_key x = (j, c)"
    and "item_at t (j, SK_CHUNK c) at_scheduledAt \<noteq> None \<Longrightarrow> i at_scheduledAt \<noteq> None"
  shows "manifest_kept t (t((j, SK_CHUNK c) \<mapsto> i))"
  using assms by (auto simp: manifest_kept_def payloads_ok_def chunk_marks_def)

lemma plan_chunk_kept:
  assumes "cj_JobID c = jp_JobID plan"
  shows "manifest_kept t (apply_write t (plan_chunk_write a plan c))"
proof -
  have key: "chunk_key (persistedChunk c) = (jp_JobID plan, cj_ChunkID c)"
    using assms by (simp add: chunk_key_def persistedChunk_def)
  show ?thesis
    unfolding plan_chunk_write_def apply_write.simps
  proof (rule chunk_item_kept)
    assume "payloads_ok t"
    then show "\<exists>x. acts (t (jp_JobID plan, SK_CHUNK (cj_ChunkID c)))
        [Set at_jobId (S (jp_JobID plan)), Set at_chunkId (S (cj_ChunkID c)), SetDefault at_status (S JobPending),
         Set at_startByte (N (cj_StartByte c)), Set at_endByte (N (cj_EndByteInclusive c)), SetDefault at_attempt (N 0),
         SetDefault at_expiresAt (N (unixAfterRetention a (jp_CreatedAt plan))),
         SetDefault at_payload (J (JChunk (persistedChunk c)))] at_payload = Some (J (JChunk x))
       \<and> chunk_key x = (jp_JobID plan, cj_ChunkID c)"
      using key by (cases "t (jp_JobID plan, SK_CHUNK (cj_ChunkID c))")
        (fastforce simp: acts_def act_rules payloads_ok_def)+
  qed (simp add: acts_item_at act_rules)
qed

lemma scheduled_kept:
  assumes "write_ok t (scheduled_write a c now)"
  shows "manifest_kept t (apply_write t (scheduled_write a c now))"
proof -
  obtain i where i: "t (cj_JobID c, SK_CHUNK (cj_ChunkID c)) = Some i"
    using assms by (auto simp: scheduled_write_def)
  show ?thesis
    unfolding scheduled_write_def apply_write.simps
    by (rule chunk_item_kept) (use i in \<open>auto simp: acts_def act_rules payloads_ok_def\<close>)
qed

lemma PlanJob_manifest:
  assumes "dynamo_contract manifest_kept tab db" "PlanJob a db plan cs w = (w', r)" "\<forall>c\<in>set cs. cj_JobID c = jp_JobID plan"
  shows "manifest_kept (tab w) (tab w')"
  by (rule manifest.PlanJob_kept [OF assms(1,2)]) (use assms(3) in \<open>auto intro: job_requests_kept plan_chunk_kept\<close>)

lemma MarkChunksScheduled_manifest:
  "dynamo_contract manifest_kept tab db \<Longrightarrow> MarkChunksScheduled a db cs w = (w', r) \<Longrightarrow> manifest_kept (tab w) (tab w')"
  by (erule (1) manifest.MarkChunksScheduled_kept) (rule scheduled_kept)

lemma markJobs_manifest:
  assumes "dynamo_contract manifest_kept tab db" "markJobs a db js status message w = (w', r)"
  shows "manifest_kept (tab w) (tab w')"
  by (rule manifest.markJobs_kept [OF assms(1) _ assms(2)]) (rule job_requests_kept)

lemma Admit_manifest:
  "dynamo_contract manifest_kept tab db \<Longrightarrow> Admit a db rc w = (w', r) \<Longrightarrow> manifest_kept (tab w) (tab w')"
  by (erule (1) manifest.Admit_kept) (rule job_requests_kept)+

lemma Begin_manifest:
  assumes "dynamo_contract manifest_kept tab db"
  shows "BeginValidation a db j w = (w', r) \<Longrightarrow> manifest_kept (tab w) (tab w')"
    and "BeginPlanning a db j w = (w', r) \<Longrightarrow> manifest_kept (tab w) (tab w')"
  unfolding BeginValidation_def BeginPlanning_def
  by (erule manifest.advance_or_already_kept [OF assms], rule job_requests_kept)+

text \<open>The admission writes no chunk item, so it adds no checkpoint either.\<close>

lemma admit_marks: "marks_at_most K t (apply_write t (admit_write a rc token now))"
  by (auto simp: marks_at_most_def chunk_marks_def admit_write_def item_at_def)

lemma advance_marks:
  "marks_at_most K t (apply_write t (advance_write a j froms to reason [] now))"
  "marks_at_most K t (apply_write t (reclaim_write a j token now))"
  unfolding advance_write_def reclaim_write_def by (rule update_marks; auto)+

lemma Admit_marks:
  "dynamo_contract (marks_at_most K) tab db \<Longrightarrow> Admit a db rc w = (w', r) \<Longrightarrow> marks_at_most K (tab w) (tab w')"
  by (erule (1) marks.Admit_kept) (rule admit_marks advance_marks)+

lemma Begin_marks:
  assumes "dynamo_contract (marks_at_most K) tab db"
  shows "BeginValidation a db j w = (w', r) \<Longrightarrow> marks_at_most K (tab w) (tab w')"
    and "BeginPlanning a db j w = (w', r) \<Longrightarrow> marks_at_most K (tab w) (tab w')"
  unfolding BeginValidation_def BeginPlanning_def
  by (erule marks.advance_or_already_kept [OF assms], rule advance_marks)+


subsection \<open>No chunk is missed\<close>

lemma effect_mono:
  assumes "effect R t t' own" "\<And>a b. R a b \<Longrightarrow> R' a b" "\<And>a b. own a b \<Longrightarrow> own' a b"
  shows "effect R' t t' own'"
  using assms rtranclp_mono [of R R'] unfolding effect_def by (metis predicate2D predicate2I)

lemma contract_mono:
  assumes "dynamo_contract R tab db" "\<And>a b. R a b \<Longrightarrow> R' a b"
  shows "dynamo_contract R' tab db"
proof -
  have le: "R\<^sup>*\<^sup>* a b \<Longrightarrow> R'\<^sup>*\<^sup>* a b" for a b
    using rtranclp_mono [of R R'] assms(2) by (metis predicate2D predicate2I)
  have tr: "own_transact R tok ws r a b \<Longrightarrow> own_transact R' tok ws r a b" for tok ws r a b
    using le by (auto simp: own_transact_def split: option.splits db_error.splits)
  show ?thesis
    unfolding dynamo_contract_def
  proof (intro conjI allI impI)
    show "effect R' (tab w) (tab w') (own_get k r)" if "db_Get db k w = (w', r)" for k w w' r
      by (rule effect_mono [OF contract_Get [OF assms(1) that] assms(2)])
    show "effect R' (tab w) (tab w') (own_write wr r)" if "db_Write db wr w = (w', r)" for wr w w' r
      by (rule effect_mono [OF contract_Write [OF assms(1) that] assms(2)])
    show "effect R' (tab w) (tab w') (own_transact R' tok ws r)" if "db_Transact db tok ws w = (w', r)" for tok ws w w' r
      by (rule effect_mono [OF contract_Transact [OF assms(1) that] assms(2) tr])
    show "effect R' (tab w) (tab w') (own_query q st r)" if "db_Query db q st w = (w', r)" for q st w w' r
      by (rule effect_mono [OF contract_Query [OF assms(1) that] assms(2)])
    show "R'\<^sup>*\<^sup>* (tab w) (tab w')" if "db_Wait db d w = (w', r)" for d w w' r
      by (rule le [OF contract_Wait [OF assms(1) that]])
  qed
qed

text \<open>A plan that succeeds has an item for every chunk.\<close>

lemma plan_chunks_exist:
  "dynamo_contract manifest_kept tab db \<Longrightarrow> plan_chunks a db plan cs w = (w', None)
    \<Longrightarrow> \<forall>c\<in>set cs. cj_JobID c = jp_JobID plan
    \<Longrightarrow> \<forall>c\<in>set cs. tab w' (jp_JobID plan, SK_CHUNK (cj_ChunkID c)) \<noteq> None"
proof (induction cs arbitrary: w)
  case (Cons c cs)
  obtain w1 where q: "db_Write db (plan_chunk_write a plan c) w = (w1, None)" and r: "plan_chunks a db plan cs w1 = (w', None)"
    using Cons.prems(2) by (auto split: prod.splits option.splits)
  obtain t where t: "manifest_kept\<^sup>*\<^sup>* (apply_write t (plan_chunk_write a plan c)) (tab w1)"
    using write_applied [OF Cons.prems(1) q] by blast
  have "apply_write t (plan_chunk_write a plan c) (jp_JobID plan, SK_CHUNK (cj_ChunkID c)) \<noteq> None"
    by (simp add: plan_chunk_write_def)
  then have "tab w1 (jp_JobID plan, SK_CHUNK (cj_ChunkID c)) \<noteq> None"
    using manifest.steps [OF t] unfolding manifest_kept_def by blast
  moreover have "manifest_kept (tab w1) (tab w')"
    by (rule manifest.plan_chunks_kept [OF Cons.prems(1) r]) (use Cons.prems(3) in \<open>auto intro: plan_chunk_kept\<close>)
  ultimately show ?case
    using Cons.IH [OF Cons.prems(1) r] Cons.prems(3) unfolding manifest_kept_def by auto
qed simp

lemma PlanJob_exists:
  assumes "dynamo_contract manifest_kept tab db" "PlanJob a db plan cs w = (w', None)"
    and "\<forall>c\<in>set cs. cj_JobID c = jp_JobID plan" "c \<in> set cs"
  shows "tab w' (jp_JobID plan, SK_CHUNK (cj_ChunkID c)) \<noteq> None"
proof -
  obtain w1 w2 z where c: "plan_chunks a db plan cs w1 = (w2, None)"
    and s: "db_Write db (plan_seal_write a plan (db_now db w2)) w2 = (w', z)"
    using assms(2) by (auto simp: PlanJob_def split: if_splits prod.splits option.splits)
  have "manifest_kept (tab w2) (tab w')"
    by (rule manifest.write_kept [OF assms(1) s]) (rule job_requests_kept)
  with plan_chunks_exist [OF assms(1) c assms(3)] assms(4) show ?thesis
    unfolding manifest_kept_def by blast
qed

lemma resumable_keys:
  assumes "resumable k its = Inr us" "(sk, i) \<in> set its" "i at_payload = Some (J (JChunk x))"
  shows "x \<in> set us"
  using assms by (induction k its arbitrary: us rule: resumable.induct) (auto split: option.splits sum.splits)

lemma UnscheduledChunks_complete:
  assumes "dynamo_contract manifest_kept tab db" "UnscheduledChunks 1 db k w = (w', Inr us)"
    and "payloads_ok (tab w)" "tab w (k, SK_CHUNK c) \<noteq> None"
  shows "(k, c) \<in> chunk_marks (tab w') \<or> (k, c) \<in> chunk_key ` set us"
proof -
  let ?q = "\<lparr>q_pk = k, q_chunks_only = True, q_lacks = Some at_scheduledAt\<rparr>"
  obtain its xs where q: "db_Query db ?q None w = (w', Inr (its, None))" and r: "resumable k its = Inr xs" and us: "us = sort_key cj_ChunkID xs"
    using assms(2) by (auto simp: UnscheduledChunks_def split: prod.splits sum.splits if_splits)
  obtain t where t: "manifest_kept\<^sup>*\<^sup>* (tab w) t" "manifest_kept\<^sup>*\<^sup>* t (tab w')" and all: "\<forall>si. in_table t ?q si \<longrightarrow> si \<in> set its"
    using contract_Query [OF assms(1) q] unfolding effect_def own_query_def by auto
  have ok: "payloads_ok t" "t (k, SK_CHUNK c) \<noteq> None"
    using manifest.steps [OF t(1)] assms(3,4) unfolding manifest_kept_def by blast+
  then obtain i x where i: "t (k, SK_CHUNK c) = Some i" "i at_payload = Some (J (JChunk x))" "chunk_key x = (k, c)"
    unfolding payloads_ok_def by blast
  show ?thesis
  proof (cases "i at_scheduledAt")
    case None
    then have "(SK_CHUNK c, i) \<in> set its" using all i(1) by (simp add: in_table_def matches_def)
    from resumable_keys [OF r this i(2)] i(3) us show ?thesis by (metis imageI set_sort)
  next
    case (Some v)
    then have "(k, c) \<in> chunk_marks t" using i(1) by (simp add: chunk_marks_def)
    then show ?thesis using manifest.steps [OF t(2)] unfolding manifest_kept_def by blast
  qed
qed


subsection \<open>The contract holds\<close>

definition quiet :: "table \<Rightarrow> table \<Rightarrow> bool" where
  "quiet t t' \<longleftrightarrow> manifest_kept t t' \<and> marks_at_most {} t t'"

text \<open>A resolver reads the parameter store: it leaves the table and the queues alone.\<close>

definition reads_only :: "(string \<Rightarrow> string \<Rightarrow> 'w \<Rightarrow> 'w \<times> 'r) \<Rightarrow> bool" where
  "reads_only f \<longleftrightarrow> (\<forall>b k w. fst (f b k w) = w)"

abbreviation good_on :: "('w \<Rightarrow> table) \<Rightarrow> 'w queued \<Rightarrow> bool" where
  "good_on tab w \<equiv> payloads_ok (tab (fst w))"

lemma beside_kept:
  assumes "beside f w = (w', r)" "\<And>v' x. f (fst w) = (v', x) \<Longrightarrow> manifest_kept (tab (fst w)) (tab v')"
  shows "good_on tab w \<longrightarrow> good_on tab w'"
  using beside_result [OF assms(1)] assms(2) unfolding manifest_kept_def by blast

lemma beside_intake:
  assumes "beside f w = (w', r)" "\<And>v' x. f (fst w) = (v', x) \<Longrightarrow> manifest_kept (tab (fst w)) (tab v') \<and> marks_at_most {} (tab (fst w)) (tab v')"
  shows "grows (\<lambda>w. set (snd w)) (\<lambda>w. chunk_marks (tab (fst w))) {} w w' \<and> (good_on tab w \<longrightarrow> good_on tab w')"
proof
  show "grows (\<lambda>w. set (snd w)) (\<lambda>w. chunk_marks (tab (fst w))) {} w w'"
    by (rule grows_beside [OF assms(1)]) (use assms(2) in blast)
  show "good_on tab w \<longrightarrow> good_on tab w'"
    by (rule beside_kept [OF assms(1)]) (use assms(2) in blast)
qed

lemma quiet_contract:
  assumes "dynamo_contract quiet tab db"
  shows "dynamo_contract manifest_kept tab db" "dynamo_contract (marks_at_most K) tab db"
  by (rule contract_mono [OF assms]; auto simp: quiet_def marks_at_most_def)+

lemmas port_defs = organizer_on_def beside_queues_def ledger_plan_ports_def

lemma intake_on:
  fixes env :: "'w queued organizer_env"
  assumes "dynamo_contract quiet tab db" "oe_ports env = organizer_on a db"
    and "\<And>f. oe_Resolver env = Some f \<Longrightarrow> reads_only f"
  shows "related_intake env (\<lambda>w w'. grows (\<lambda>w. set (snd w)) (\<lambda>w. chunk_marks (tab (fst w))) {} w w'
    \<and> (good_on tab w \<longrightarrow> good_on tab w'))"
proof -
  note q = quiet_contract [OF assms(1)]
  show ?thesis
  proof (unfold_locales, goal_cases)
    case (1 w)
    show ?case by (simp add: grows_def)
  next
    case (2 w w1 w2)
    then show ?case using grows_trans [of _ _ "{}" w w1 "{}" w2] by auto
  next
    case (3 f b k w w' x)
    then have "w' = w" using assms(3) unfolding reads_only_def by (metis fst_conv)
    then show ?case by (simp add: grows_def)
  next
    case (4 l rc w w' y)
    then show ?case
      by (intro beside_intake) (auto simp: assms(2) port_defs dest!: rendered dest: Admit_manifest [OF q(1)] Admit_marks [OF q(2)])
  next
    case (5 l j w w' e)
    then show ?case
      by (intro beside_intake) (auto simp: assms(2) port_defs dest!: rendered dest: Begin_manifest [OF q(1)] Begin_marks [OF q(2)])
  next
    case (6 l j w w' e)
    then show ?case
      by (intro beside_intake) (auto simp: assms(2) port_defs dest!: rendered dest: Begin_manifest [OF q(1)] Begin_marks [OF q(2)])
  next
    case (7 l plan w w' e)
    then show ?case
      by (intro beside_intake) (auto simp: assms(2) port_defs dest!: rendered dest: PlanJob_manifest [OF q(1)] PlanJob_marks [OF q(2)])
  qed
qed

lemma publishing_on:
  assumes "dynamo_contract manifest_kept tab db"
  shows "related_publish (organizer_on a db) (\<lambda>w w'. good_on tab w \<longrightarrow> good_on tab w')"
proof (unfold_locales, goal_cases)
  case (1 w)
  show ?case by simp
next
  case (2 w w1 w2)
  then show ?case by blast
next
  case (3 url ms w w' x)
  then show ?case by (auto simp: organizer_on_def queue_up_def split: if_splits)
next
  case (4 n w w' e)
  then show ?case by (simp add: organizer_on_def)
next
  case (5 l js w w' e)
  then show ?case
    by (intro beside_kept) (auto simp: port_defs dest!: rendered dest: MarkChunksScheduled_manifest [OF assms])
next
  case (6 l cs k now w w' e)
  have "\<forall>c\<in>set cs. cj_JobID c = jp_JobID (plan_of cs now)"
    using 6(2) by (cases cs) (auto simp: plan_of_def Let_def)
  with 6(1,3) show ?case
    by (intro beside_kept) (auto simp: port_defs dest!: rendered dest: PlanJob_manifest [OF assms])
next
  case (7 l k w w' u)
  then show ?case
    by (intro beside_kept) (auto simp: port_defs dest!: rendered dest: manifest.UnscheduledChunks_kept [OF assms])
next
  case (8 l ids w w' e)
  then show ?case
    by (intro beside_kept) (auto simp: port_defs MarkScheduled_def dest!: rendered dest: markJobs_manifest [OF assms])
next
  case (9 l ids t w w' e)
  then show ?case
    by (intro beside_kept) (auto simp: port_defs MarkSchedulingFailed_def dest!: rendered dest: markJobs_manifest [OF assms])
qed

text \<open>The manifest of a plan, seen through the ports.\<close>

lemma mapped_none: "map_prod id (map_option g) p = (v, None) \<Longrightarrow> p = (v, None)"
  by (cases p) auto

lemma mapped_right: "map_prod id (map_sum g id) p = (v, Inr u) \<Longrightarrow> p = (v, Inr u)"
  by (cases p; cases "snd p") auto

lemma manifest_read_back:
  assumes "dynamo_contract manifest_kept tab db" "op_Ledger (organizer_on a db) = Some l" "good_on tab w"
    and "pl_Plan l (plan_of cs now) cs w = (w1, None)" "pl_UnscheduledChunks l k w1 = (w2, Inr us)"
    and "\<forall>c\<in>set cs. cj_JobID c = k" "c \<in> set cs"
  shows "chunk_key c \<in> chunk_marks (tab (fst w2)) \<or> chunk_key c \<in> chunk_key ` set us"
proof -
  have l: "l = beside_queues (ledger_plan_ports 1 a db (\<lambda>_. []))" using assms(2) by (simp add: organizer_on_def)
  have k: "jp_JobID (plan_of cs now) = k" using assms(6,7) by (cases cs) (auto simp: plan_of_def Let_def)
  have p: "PlanJob a db (plan_of cs now) cs (fst w) = (fst w1, None)"
    using assms(4) unfolding l by (auto simp: beside_queues_def ledger_plan_ports_def dest!: beside_result mapped_none)
  have u: "UnscheduledChunks 1 db k (fst w1) = (fst w2, Inr us)"
    using assms(5) unfolding l by (auto simp: beside_queues_def ledger_plan_ports_def dest!: beside_result mapped_right)
  have jobs: "\<forall>c\<in>set cs. cj_JobID c = jp_JobID (plan_of cs now)" using assms(6) k by simp
  have "payloads_ok (tab (fst w1))"
    using PlanJob_manifest [OF assms(1) p jobs] assms(3) unfolding manifest_kept_def by blast
  moreover have "tab (fst w1) (k, SK_CHUNK (cj_ChunkID c)) \<noteq> None"
    using PlanJob_exists [OF assms(1) p jobs assms(7)] k by simp
  ultimately have "(k, cj_ChunkID c) \<in> chunk_marks (tab (fst w2)) \<or> (k, cj_ChunkID c) \<in> chunk_key ` set us"
    by (rule UnscheduledChunks_complete [OF assms(1) u])
  with assms(6,7) show ?thesis by (simp add: chunk_key_def)
qed

lemma organizer_contract_on:
  fixes env :: "'w queued organizer_env"
  assumes "dynamo_contract quiet tab db" "oe_ports env = organizer_on a db"
    and "\<And>f. oe_Resolver env = Some f \<Longrightarrow> reads_only f"
  shows "organizer_contract env (\<lambda>w. set (snd w)) (\<lambda>w. chunk_marks (tab (fst w))) (good_on tab)"
proof -
  note q = quiet_contract [OF assms(1)]
  show ?thesis
    unfolding organizer_contract_def organizer_contract_axioms_def assms(2)
  proof (intro conjI allI impI)
    show "checkpointed_queue (organizer_on a db) (\<lambda>w. set (snd w)) (\<lambda>w. chunk_marks (tab (fst w)))"
      by (rule organizer_on_contract) (rule q(2))
    show "related_intake env (\<lambda>w w'. grows (\<lambda>w. set (snd w)) (\<lambda>w. chunk_marks (tab (fst w))) {} w w'
        \<and> (good_on tab w \<longrightarrow> good_on tab w'))"
      by (rule intake_on [OF assms])
    show "related_publish (organizer_on a db) (\<lambda>w w'. good_on tab w \<longrightarrow> good_on tab w')"
      by (rule publishing_on [OF q(1)])
    show "set (op_order (organizer_on a db) ks) = set ks" for ks
      by (simp add: organizer_on_def)
  qed (rule manifest_read_back [OF q(1)])
qed


subsection \<open>A process\<close>

text \<open>A process on the association list of theory \<open>Dynamo\<close>; every request names the same text file.\<close>

definition small_file :: FileRequest where
  "small_file = \<lparr>fr_Bucket = ''b'', fr_Key = ''k'', fr_VersionID = [], fr_ETag = [], fr_PresignedURL = [],
     fr_DataType = DataTypeText, fr_MaxRecordLengthBytes = 100, fr_MultiLineLayout = zero_MultiLineLayout,
     fr_JSONArrayLayout = zero_JSONArrayLayout, fr_Context = zero_CorporateContext\<rparr>"

definition small_store :: ObjectStore where
  "small_store = \<lparr>os_HeadObject = None,
     os_Head = (\<lambda>b k. Inr \<lparr>oi_Bucket = b, oi_Key = k, oi_VersionID = [], oi_ETag = ''e'', oi_Size = 10\<rparr>),
     os_GetRange = (\<lambda>_ _ _. RangeBody (Inr []) None)\<rparr>"

definition intake_env :: "store queued organizer_env" where
  "intake_env = \<lparr>oe_ports = organizer_on sample_aws map_db, oe_Store = (\<lambda>_. small_store), oe_Config = queue_config,
     oe_Resolver = Some (\<lambda>b k. ResolvePrefixConfiguration 2 two_pages (\<lambda>_. []) (\<lambda>_. []) ''/f2e/'' b k),
     oe_globalLimits = zero_GlobalLimits, oe_globalLimitsVersion = 1, oe_globalLimitsParameter = ''limits'',
     oe_map_order = (\<lambda>xs. xs), oe_names = (\<lambda>_ _. ''name''), oe_millis = (\<lambda>_. (0, 0)),
     oe_decode_request = (\<lambda>_. Inr \<lparr>or_SchemaVersion = SchemaVersion, or_ExecutionID = [], or_Files = [small_file]\<rparr>),
     oe_decode_event = (\<lambda>_. Inr \<lparr>nt_Records = []\<rparr>), oe_render = (\<lambda>_. [])\<rparr>"

lemma two_pages_read_only: "select_pages n (two_pages p) b k token sel w = (w', r) \<Longrightarrow> w' = w"
  by (induction n arbitrary: token sel) (auto simp: two_pages_def split: sum.splits if_splits)

lemma resolver_reads_only: "reads_only (\<lambda>b k. ResolvePrefixConfiguration 2 two_pages m now path b k)"
  by (auto simp: reads_only_def ResolvePrefixConfiguration_def split: prod.splits sum.splits dest: two_pages_read_only)

interpretation intake: organizer_contract intake_env "\<lambda>w. set (snd w)" "\<lambda>w. chunk_marks (map_of (fst w))" "good_on map_of"
  by (rule organizer_contract_on [OF map_db_contract]) (auto simp: intake_env_def resolver_reads_only)

lemmas publish_defs = Publish_def to_publish_def finish_publish_def flush_chunks_def checkpoint_def chunk_queue_def
  port_defs queue_up_def beside_def is_control_def PlanJob_def plan_of_def plan_head_write_def plan_chunk_write_def
  plan_seal_write_def UnscheduledChunks_def scheduled_write_def MarkScheduled_def mark_job_write_def

lemma publish_fresh:
  assumes "cj_JobID x = ''m''" "cj_ChunkID x = ''00000001''" "cj_Control x = []" "jc_ChunkQueueURL (cj_Configuration x) = []"
  shows "\<exists>w'. Publish (organizer_on sample_aws map_db) (\<lambda>_. []) queue_config [x] ([], []) = (w', None)"
  using assms
  by (simp add: publish_defs Let_def queue_config_def numeral_3_eq_3 zero_Config_def map_db_def sample_aws_def acts_def
      act_rules partition_items_def matches_def persistedChunk_def sort_key_def)

lemma small_job:
  "\<exists>x. jobsFor intake_env body ''m'' w = (w, Inr [x]) \<and> cj_JobID x = ''m'' \<and> cj_ChunkID x = ''00000001''
     \<and> cj_Control x = [] \<and> jc_ChunkQueueURL (cj_Configuration x) = []"
proof -
  have "format_pad 8 1 = ''00000001''" by code_simp
  then show ?thesis
    by (simp add: jobsFor_def explicit_request_def intake_env_def plan_reference_def PlanWithSummary_def Plan_def plan_file_def
        small_file_def small_store_def head_def validType_def DataTypeText_def DataTypeMultiLine_def DataTypeJSON_def
        variableJobs_def textChunkCount_def minimumTargetChunkBytes_def queue_config_def zero_Config_def SchemaVersion_def
        job_configuration_def zero_records mk_job_def Let_def)
qed

lemma small_run:
  "\<exists>w'. handleSQSEvent intake_env [\<lparr>ir_MessageId = ''m'', ir_Body = []\<rparr>] ([], []) = (w', [])"
proof -
  obtain x where x: "jobsFor intake_env [] ''m'' ([], []) = (([], []), Inr [x])" "cj_JobID x = ''m''"
    "cj_ChunkID x = ''00000001''" "cj_Control x = []" "jc_ChunkQueueURL (cj_Configuration x) = []"
    using small_job [of "[]" "([], [])"] by (elim exE conjE) (rule that)
  obtain w' where "Publish (organizer_on sample_aws map_db) (\<lambda>_. []) queue_config [x] ([], []) = (w', None)"
    using publish_fresh [OF x(2-5)] by blast
  moreover have "oe_ports intake_env = organizer_on sample_aws map_db" "oe_render intake_env = (\<lambda>_. [])" "oe_Config intake_env = queue_config"
    by (simp_all add: intake_env_def)
  ultimately show ?thesis using x(1) by (simp add: publish_record_def)
qed

subsection \<open>Acknowledged files\<close>



end
