(* ===== verification/Ledger_Query.thy ===== *)
theory Ledger_Query
  imports Ledger_Status Process_Config
begin

section \<open>Operational queries\<close>

text \<open>
  \<^verbatim>\<open>internal/platform/aws/ledger_query.go\<close> and the command \<^verbatim>\<open>automacao/cmd/query-job\<close> over it. Reads
  by key go to the table of theory \<open>Dynamo\<close>. The status index of the table is a port of its own: a
  function from the query to the projected items. What the queries rely on (\<open>index_reads\<close>) is that
  every item returned is the projection of a job item the table has or had, with the \<^verbatim>\<open>statusIndex\<close>
  asked for. A receipt link has the sort key \<open>SK_RECEIPT\<close>.
\<close>

subsection \<open>Summaries\<close>

record JobSummary =
  js_JobID :: string
  js_FileID :: string
  js_ReceiptID :: string
  js_Status :: JobStatus
  js_Environment :: string
  js_CreatedAt :: string
  js_UpdatedAt :: string
  js_TerminalAt :: string
  js_Result :: JobResult
  js_StuckSince :: "int64 option"

definition jobSummaryFromItem :: "item \<Rightarrow> JobSummary" where
  "jobSummaryFromItem it =
    \<lparr>js_JobID = str_of it at_jobId, js_FileID = str_of it at_fileId, js_ReceiptID = str_of it at_receiptId,
     js_Status = str_of it at_status, js_Environment = str_of it at_environment, js_CreatedAt = str_of it at_createdAt,
     js_UpdatedAt = str_of it at_updatedAt, js_TerminalAt = str_of it at_terminalAt, js_Result = str_of it at_result,
     js_StuckSince = None\<rparr>"

datatype query_error =
    LedgerNotConfigured
  | GetJobFailed string string
  | NoSuchJob string
  | GetReceiptFailed string string
  | NoReceiptLink string
  | LinkWithoutJob string
  | StatusQueryFailed JobStatus string
  | StuckQueryFailed JobStatus query_error

subsection \<open>Reads by key\<close>

definition GetJob :: "AWS \<Rightarrow> 'w dynamo \<Rightarrow> string \<Rightarrow> 'w \<Rightarrow> 'w \<times> (query_error + JobSummary)" where
  "GetJob a db jobID w =
    (if aws_LedgerTable a = [] then (w, Inl LedgerNotConfigured)
     else case db_Get db (jobID, SK_JOB) w of
       (w, Inl e) \<Rightarrow> (w, Inl (GetJobFailed jobID e))
     | (w, Inr None) \<Rightarrow> (w, Inl (NoSuchJob jobID))
     | (w, Inr (Some it)) \<Rightarrow> (w, Inr (jobSummaryFromItem it)))"

definition getJobByReceiptIDFallback :: "string \<Rightarrow> query_error + JobSummary" where
  "getJobByReceiptIDFallback receiptID = Inl (NoReceiptLink receiptID)"

definition GetJobByReceiptID :: "AWS \<Rightarrow> 'w dynamo \<Rightarrow> string \<Rightarrow> 'w \<Rightarrow> 'w \<times> (query_error + JobSummary)" where
  "GetJobByReceiptID a db receiptID w =
    (if aws_LedgerTable a = [] then (w, Inl LedgerNotConfigured)
     else case db_Get db (''RECEIPT#'' @ receiptID, SK_RECEIPT) w of
       (w, Inl e) \<Rightarrow> (w, Inl (GetReceiptFailed receiptID e))
     | (w, Inr None) \<Rightarrow> (w, getJobByReceiptIDFallback receiptID)
     | (w, Inr (Some it)) \<Rightarrow>
         (case it at_jobId of
            Some (S jobID) \<Rightarrow> GetJob a db jobID w
          | _ \<Rightarrow> (w, Inl (LinkWithoutJob receiptID))))"

subsection \<open>Queries of the status index\<close>

datatype time_range = AnyTime | Between string string | AtLeast string | Earlier string

record index_query =
  iq_status :: JobStatus
  iq_range :: time_range
  iq_limit :: int

type_synonym 'w status_index = "index_query \<Rightarrow> 'w \<Rightarrow> 'w \<times> (string + item list)"

definition wrap32 :: "int \<Rightarrow> int" where
  "wrap32 n = (n + 2 ^ 31) mod 2 ^ 32 - 2 ^ 31"

definition time_range :: "string \<Rightarrow> string \<Rightarrow> time_range" where
  "time_range after before =
    (if after \<noteq> [] \<and> before \<noteq> [] then Between after before
     else if after \<noteq> [] then AtLeast after
     else if before \<noteq> [] then Earlier before else AnyTime)"

definition QueryJobsByStatus ::
  "AWS \<Rightarrow> 'w status_index \<Rightarrow> JobStatus \<Rightarrow> string \<Rightarrow> string \<Rightarrow> int \<Rightarrow> 'w \<Rightarrow> 'w \<times> (query_error + JobSummary list)" where
  "QueryJobsByStatus a ix status after before limit w =
    (if aws_LedgerTable a = [] then (w, Inl LedgerNotConfigured)
     else case ix \<lparr>iq_status = status, iq_range = time_range after before,
                   iq_limit = wrap32 (if limit \<le> 0 then 100 else limit)\<rparr> w of
       (w, Inl e) \<Rightarrow> (w, Inl (StatusQueryFailed status e))
     | (w, Inr its) \<Rightarrow> (w, Inr (map jobSummaryFromItem its)))"

text \<open>
  \<^verbatim>\<open>time.Since\<close> saturates at the bounds of a \<^verbatim>\<open>Duration\<close>. The second parse is tried on the timestamp
  with exactly one \<^verbatim>\<open>Z\<close> more than without its suffix \<^verbatim>\<open>Z\<close>.
\<close>

definition saturate64 :: "int \<Rightarrow> int64" where
  "saturate64 n = max min_int64 (min max_int64 n)"

definition with_Z :: "string \<Rightarrow> string" where
  "with_Z s = (if s \<noteq> [] \<and> last s = CHR ''Z'' then butlast s else s) @ ''Z''"

definition stuckSince :: "AWS \<Rightarrow> int \<Rightarrow> string \<Rightarrow> int64 \<Rightarrow> int64" where
  "stuckSince a now updatedAt threshold =
    (if updatedAt = [] then threshold
     else case aws_parse a updatedAt of
       Some t \<Rightarrow> saturate64 (now - t)
     | None \<Rightarrow>
         (case aws_parse a (with_Z updatedAt) of
            Some t \<Rightarrow> saturate64 (now - t)
          | None \<Rightarrow> threshold))"

definition stuck_statuses :: "JobStatus list" where
  "stuck_statuses = [JobStateReceived, JobStateValidating, JobStatePlanning, JobStateProcessing]"

text \<open>The loop over the statuses; \<open>found\<close> are the jobs collected so far.\<close>

fun stuck_loop ::
  "AWS \<Rightarrow> 'w status_index \<Rightarrow> ('w \<Rightarrow> int) \<Rightarrow> string \<Rightarrow> int64 \<Rightarrow> int \<Rightarrow> JobStatus list \<Rightarrow> JobSummary list \<Rightarrow> 'w
    \<Rightarrow> 'w \<times> (query_error + JobSummary list)" where
  "stuck_loop a ix now before threshold limit [] found w = (w, Inr found)"
| "stuck_loop a ix now before threshold limit (s # ss) found w =
    (case QueryJobsByStatus a ix s [] before (if limit \<le> 0 then 25 else limit) w of
       (w, Inl e) \<Rightarrow> (w, Inl (StuckQueryFailed s e))
     | (w, Inr js) \<Rightarrow>
         let found' = found @ map (\<lambda>j. j\<lparr>js_StuckSince := Some (stuckSince a (now w) (js_UpdatedAt j) threshold)\<rparr>) js in
         if int (length found') \<ge> limit \<and> limit > 0 then (w, Inr found')
         else stuck_loop a ix now before threshold limit ss found' w)"

definition StuckJobs ::
  "AWS \<Rightarrow> 'w status_index \<Rightarrow> ('w \<Rightarrow> int) \<Rightarrow> int64 \<Rightarrow> int \<Rightarrow> 'w \<Rightarrow> 'w \<times> (query_error + JobSummary list)" where
  "StuckJobs a ix now stuckThreshold limit w =
     stuck_loop a ix now (aws_format a (now w + wrap64 (- stuckThreshold))) stuckThreshold limit stuck_statuses [] w"

subsection \<open>The command\<close>

record query_flags =
  qf_jobId :: string
  qf_receiptId :: string
  qf_status :: string
  qf_after :: string
  qf_before :: string
  qf_stuck :: bool
  qf_stuckMinutes :: int
  qf_limit :: int

datatype command_error =
    LoadConfig load_error
  | LedgerTableRequired
  | QueryFailed query_error
  | NothingAsked

datatype command_output = OneJob JobSummary | ManyJobs "JobSummary list"

text \<open>\<^verbatim>\<open>run\<close> after the flags are parsed; \<open>client\<close> makes the client from the configuration.\<close>

definition query_job_run ::
  "(string \<Rightarrow> string) \<Rightarrow> (Config \<Rightarrow> AWS) \<Rightarrow> 'w dynamo \<Rightarrow> 'w status_index \<Rightarrow> query_flags \<Rightarrow> 'w
    \<Rightarrow> 'w \<times> (command_error + command_output)" where
  "query_job_run env client db ix f w =
    (case Load env of
       Inl e \<Rightarrow> (w, Inl (LoadConfig e))
     | Inr c \<Rightarrow>
         if cf_LedgerTable c = [] then (w, Inl LedgerTableRequired)
         else let a = client c in
           if qf_jobId f \<noteq> [] then map_prod id (map_sum QueryFailed OneJob) (GetJob a db (qf_jobId f) w)
           else if qf_receiptId f \<noteq> [] then map_prod id (map_sum QueryFailed OneJob) (GetJobByReceiptID a db (qf_receiptId f) w)
           else if qf_status f \<noteq> [] then
             map_prod id (map_sum QueryFailed ManyJobs) (QueryJobsByStatus a ix (qf_status f) (qf_after f) (qf_before f) (qf_limit f) w)
           else if qf_stuck f then
             map_prod id (map_sum QueryFailed ManyJobs) (StuckJobs a ix (db_now db) (wrap64 (qf_stuckMinutes f * 60000000000)) (qf_limit f) w)
           else (w, Inl NothingAsked))"

subsection \<open>What the index holds\<close>

abbreviation status_index_at :: "table \<Rightarrow> string \<Rightarrow> av option" where
  "status_index_at t j \<equiv> item_at t (j, SK_JOB) at_statusIndex"

definition indexed_statuses :: "JobStatus list" where
  "indexed_statuses = [JobStateReceived, JobStateValidating, JobStatePlanning, JobStateRejected]"

definition indexed :: "av option \<Rightarrow> bool" where
  "indexed v \<longleftrightarrow> v = None \<or> (\<exists>s\<in>set indexed_statuses. v = Some (S s))"

text \<open>A write keeps the index attribute or sets it to one of the four.\<close>

lemma write_indexed:
  assumes "indexed (status_index_at t j)"
    and "\<And>k c us i. wr = Update (k, SK_JOB) c us \<Longrightarrow> foldl act i us at_statusIndex = i at_statusIndex \<or> indexed (foldl act i us at_statusIndex)"
    and "\<And>k i c. wr = Put (k, SK_JOB) i c \<Longrightarrow> indexed (i at_statusIndex)"
  shows "indexed (status_index_at (apply_write t wr) j)"
proof (cases "write_key wr = (j, SK_JOB)")
  case True
  then show ?thesis
    using assms by (cases wr) (auto simp: acts_item_at, metis)
next
  case False
  with assms(1) show ?thesis by (cases wr) auto
qed

lemma indexed_simps [simp]: "indexed None" "s \<in> set indexed_statuses \<Longrightarrow> indexed (Some (S s))"
  by (auto simp: indexed_def)

lemma untouched_index: "at_statusIndex \<notin> target ` set us \<Longrightarrow> foldl act i us at_statusIndex = i at_statusIndex"
  by (rule foldl_act_other)

lemma reason_untouched: "at_statusIndex \<notin> target ` set (reason_actions c)"
  by (auto simp: reason_actions_def)

lemma advance_indexed:
  assumes "indexed (status_index_at t j)" "to \<in> set indexed_statuses" "at_statusIndex \<notin> target ` set extra"
  shows "indexed (status_index_at (apply_write t (advance_write a k froms to reason extra now)) j)"
proof (rule write_indexed [OF assms(1)])
  fix k' c us i assume w: "advance_write a k froms to reason extra now = Update (k', SK_JOB) c us"
  have "at_statusIndex \<notin> target ` set ((if reason \<noteq> [] then [Set at_lastReason (S reason)] else []) @ extra)"
    using assms(3) by auto
  from foldl_act_other [OF this] w have "foldl act i us at_statusIndex = Some (S to)"
    by (auto simp: advance_write_def act_rules)
  then show "foldl act i us at_statusIndex = i at_statusIndex \<or> indexed (foldl act i us at_statusIndex)"
    using assms(2) by simp
qed (simp add: advance_write_def)

lemma request_indexed:
  assumes "ledger_request ws" "indexed (status_index_at t j)"
  shows "indexed (status_index_at (apply_writes t ws) j)"
  using assms
proof cases
  case (req_complete a r)
  have u: "at_statusIndex \<notin> target ` set ([Set at_status (S JobRunning), Add at_completedChunks 1, Add at_recordsProduced n,
          Add at_recordsRead n1, Add at_recordsPublished n, Add at_recordsRejected n2, Add at_recordsIgnored n3,
          Add at_messagesPublished n4, Add at_sendMessageBatchCalls n5,
          Add at_physicalLinesIgnored n6] @ reason_actions c)" for n n1 n2 n3 n4 n5 n6 c
    using reason_untouched by auto
  show ?thesis
    using assms(2) foldl_act_other [OF u] unfolding req_complete
    by (auto simp: complete_chunk_writes_def Let_def acts_item_at simp del: foldl_append)
next
  case (req_validate a k now)
  then show ?thesis using advance_indexed [OF assms(2), of JobStateValidating "[]"] by (simp add: indexed_statuses_def)
next
  case (req_reject a k reason v now)
  then show ?thesis using advance_indexed [OF assms(2), of JobStateRejected "[Set at_rejection v]"] by (simp add: indexed_statuses_def)
next
  case (req_begin_planning a k now)
  then show ?thesis using advance_indexed [OF assms(2), of JobStatePlanning "[]"] by (simp add: indexed_statuses_def)
next
  case (req_admit a rc token now)
  show ?thesis
    unfolding req_admit apply_writes_single
    by (rule write_indexed [OF assms(2)])
      (auto simp: admit_write_def admission_item_def Let_def indexed_statuses_def indexed_def split: if_splits)
qed (use assms(2) in \<open>auto simp: plan_head_write_def plan_chunk_write_def plan_seal_write_def scheduled_write_def mark_job_write_def
    start_chunk_write_def retry_chunk_write_def fail_chunk_writes_def acquire_chunk_write_def deliver_write_def
    reclaim_write_def replay_audit_write_def acts_item_at act_rules\<close>)

lemma step_indexed: "ledger_step t t' \<Longrightarrow> indexed (status_index_at t j) \<Longrightarrow> indexed (status_index_at t' j)"
  by (elim ledger_step_cases) (auto simp: request_indexed finalize_writes_def acts_def act_rules)

lemma reachable_indexed: "ledger_step\<^sup>*\<^sup>* (\<lambda>_. None) t \<Longrightarrow> indexed (status_index_at t j)"
  by (induction rule: rtranclp_induct) (auto dest: step_indexed)

subsection \<open>Receipt links\<close>

lemma request_no_receipt: "ledger_request ws \<Longrightarrow> (k, SK_RECEIPT) \<notin> write_key ` set ws"
  by (cases rule: ledger_request.cases) (auto simp: plan_head_write_def plan_chunk_write_def plan_seal_write_def scheduled_write_def
    mark_job_write_def start_chunk_write_def complete_chunk_writes_def Let_def retry_chunk_write_def fail_chunk_writes_def
    acquire_chunk_write_def deliver_write_def advance_write_def admit_write_def reclaim_write_def replay_audit_write_def)

lemma step_no_receipt: "ledger_step t t' \<Longrightarrow> t' (k, SK_RECEIPT) = t (k, SK_RECEIPT)"
  by (elim ledger_step_cases) (simp_all add: apply_writes_other request_no_receipt finalize_writes_def)

lemma reachable_no_receipt: "ledger_step\<^sup>*\<^sup>* (\<lambda>_. None) t \<Longrightarrow> t (k, SK_RECEIPT) = None"
  by (induction rule: rtranclp_induct) (auto simp: step_no_receipt)

text \<open>
  A lookup by receipt never finds a job: no request of the program writes the link item that
  \<^verbatim>\<open>GetJobByReceiptID\<close> reads, so on every table the program can reach it returns an error, although
  every admitted job stores its receipt identifier.
\<close>

lemma receipt_lookup_never_succeeds:
  assumes "dynamo_contract ledger_step tab db" "ledger_step\<^sup>*\<^sup>* (\<lambda>_. None) (tab w)"
  shows "\<exists>e. snd (GetJobByReceiptID a db receiptID w) = Inl e"
proof -
  obtain w1 x where g: "db_Get db (''RECEIPT#'' @ receiptID, SK_RECEIPT) w = (w1, x)"
    by (cases "db_Get db (''RECEIPT#'' @ receiptID, SK_RECEIPT) w")
  have "i = None" if "x = Inr i" for i
  proof -
    have "db_Get db (''RECEIPT#'' @ receiptID, SK_RECEIPT) w = (w1, Inr i)" using g that by simp
    from get_value [OF assms(1) this] obtain t where t: "ledger_step\<^sup>*\<^sup>* (tab w) t" "t (''RECEIPT#'' @ receiptID, SK_RECEIPT) = i" .
    from reachable_no_receipt [OF rtranclp_trans [OF assms(2) t(1)]] t(2) show ?thesis by simp
  qed
  with g show ?thesis
    by (cases x) (auto simp: GetJobByReceiptID_def getJobByReceiptIDFallback_def)
qed

lemma receipt_lookup_never_succeeds_example:
  "\<exists>e. snd (GetJobByReceiptID sample_aws map_db ''r'' finished_world) = Inl e"
  by (rule receipt_lookup_never_succeeds [OF map_db_contract finished_reachable])

subsection \<open>Finished jobs in the index\<close>

definition projected :: "attr list" where
  "projected = [at_statusIndex, at_updatedAt, at_jobId, at_fileId, at_receiptId, at_status, at_createdAt, at_environment]"

definition index_reads :: "'w status_index \<Rightarrow> bool" where
  "index_reads ix \<longleftrightarrow> (\<forall>q w w' its i. ix q w = (w', Inr its) \<longrightarrow> i \<in> set its \<longrightarrow>
     (\<exists>t j. ledger_step\<^sup>*\<^sup>* (\<lambda>_. None) t \<and> status_index_at t j = Some (S (iq_status q))
        \<and> (\<forall>a\<in>set projected. i a = item_at t (j, SK_JOB) a)))"

text \<open>
  C33. A query by a late status finds nothing: the status index is written only by the steps of
  admission, so a query for the jobs that are PENDING, SCHEDULED, RUNNING, COMPLETED, FAILED or in
  any other status but RECEIVED, VALIDATING, PLANNING and REJECTED returns an empty list, whatever
  jobs there are. A finished job stays listed under the last status of its admission.
\<close>

theorem late_statuses_are_not_indexed:
  assumes "index_reads ix" "status \<notin> set indexed_statuses"
    and "QueryJobsByStatus a ix status after before limit w = (w', Inr js)"
  shows "js = []"
proof -
  obtain q w1 its where q: "iq_status q = status" "ix q w = (w1, Inr its)" "js = map jobSummaryFromItem its"
  proof -
    let ?q = "\<lparr>iq_status = status, iq_range = time_range after before, iq_limit = wrap32 (if limit \<le> 0 then 100 else limit)\<rparr>"
    obtain w1 x where x: "ix ?q w = (w1, x)" by (cases "ix ?q w")
    with assms(3) obtain its where "x = Inr its" "js = map jobSummaryFromItem its"
      unfolding QueryJobsByStatus_def x by (cases x) (auto split: if_splits)
    with x show thesis by (intro that [of ?q]) simp_all
  qed
  have "False" if i: "i \<in> set its" for i
  proof -
    obtain t j where "ledger_step\<^sup>*\<^sup>* (\<lambda>_. None) t" "status_index_at t j = Some (S status)"
      using assms(1) q(1,2) i unfolding index_reads_def by blast
    from reachable_indexed [OF this(1), of j] this(2) assms(2) show False by (auto simp: indexed_def)
  qed
  then have "its = []" by (cases its) auto
  with q(3) show ?thesis by simp
qed

text \<open>An index that is read off the association list, without the range and the limit.\<close>

definition list_index :: "store status_index" where
  "list_index q w = (w, Inr (map snd (filter (\<lambda>(k, i). snd k = SK_JOB \<and> i at_statusIndex = Some (S (iq_status q)))
     (map (\<lambda>k. (k, the (map_of w k))) (remdups (map fst w))))))"

definition fixed_index :: "store \<Rightarrow> unit status_index" where
  "fixed_index s q w = (w, snd (list_index q s))"

lemma list_index_reads:
  assumes "ledger_step\<^sup>*\<^sup>* (\<lambda>_. None) (map_of s)"
  shows "index_reads (fixed_index s)"
  unfolding index_reads_def
proof (intro allI impI)
  fix q :: index_query and w w' :: unit and its i
  assume "fixed_index s q w = (w', Inr its)" "i \<in> set its"
  then have "\<exists>k\<in>set (map fst s). snd k = SK_JOB \<and> i = the (map_of s k) \<and> i at_statusIndex = Some (S (iq_status q))"
    by (force simp: fixed_index_def list_index_def)
  then obtain k where k: "k \<in> set (map fst s)" "snd k = SK_JOB" "i = the (map_of s k)" "i at_statusIndex = Some (S (iq_status q))"
    by blast
  then obtain i' where i': "map_of s k = Some i'" by (cases "map_of s k") (auto simp: map_of_eq_None_iff)
  then have "item_at (map_of s) (fst k, SK_JOB) = i" using k(2,3) by (metis item_at_Some option.sel prod.collapse)
  with assms k(4) show "\<exists>t j. ledger_step\<^sup>*\<^sup>* (\<lambda>_. None) t \<and> status_index_at t j = Some (S (iq_status q))
        \<and> (\<forall>a\<in>set projected. i a = item_at t (j, SK_JOB) a)"
    by (intro exI [of _ "map_of s"] exI [of _ "fst k"]) simp
qed

theorem late_statuses_are_not_indexed_witness:
  "job_status_at (map_of finished_world) ''f'' = Some (S JobCompleted)
    \<and> snd (QueryJobsByStatus sample_aws (fixed_index finished_world) JobCompleted [] [] 100 ()) = Inr []"
proof -
  obtain w' js where q: "QueryJobsByStatus sample_aws (fixed_index finished_world) JobCompleted [] [] 100 () = (w', Inr js)"
    by (simp add: QueryJobsByStatus_def sample_aws_def fixed_index_def list_index_def)
  have "JobCompleted \<notin> set indexed_statuses" by (simp add: indexed_statuses_def)
  from late_statuses_are_not_indexed [OF list_index_reads [OF finished_reachable] this q] q finished_facts(1)
  show ?thesis by simp
qed

end
