(* ===== verification/Fixed_File.thy ===== *)
theory Fixed_File
  imports Go_Std Line_IO
begin

section \<open>The generator of fixed-length files\<close>

text \<open>
  \<^verbatim>\<open>automacao/cmd/generate-fixed-file\<close>, which writes the files the pipeline is fed with: \<open>records\<close>
  lines of \<open>record-length\<close> bytes, each a number of eight digits and a filling. The buffered writer of
  \<^verbatim>\<open>bufio\<close>, the fan-out of \<^verbatim>\<open>io.MultiWriter\<close> and the files are modelled as the code uses them: a disk is
  a map from paths to contents with a limit on the free space, and the outcome of every other
  system call is a field of \<open>os_calls\<close>. The directory part of a path and the mode bits are left out.
\<close>

subsection \<open>Writers\<close>

record gen_state =
  g_file :: bytes
  g_free :: "nat option"
  g_hash :: bytes
  g_count :: int64
  g_buf :: bytes
  g_err :: "string option"

text \<open>
  \<^verbatim>\<open>countingWriter.Write\<close> over the multi-writer of the temporary file and the hash: the hash gets the
  bytes only when the file took all of them; the counter adds what the file took.
\<close>

definition countingWriter_Write :: "bytes \<Rightarrow> gen_state \<Rightarrow> gen_state \<times> nat \<times> string option" where
  "countingWriter_Write p s =
    (let n = (case g_free s of None \<Rightarrow> length p | Some k \<Rightarrow> min k (length p));
         s1 = s\<lparr>g_file := g_file s @ take n p, g_free := map_option (\<lambda>k. k - n) (g_free s),
                g_count := wrap64 (g_count s + int n)\<rparr>
     in if n < length p then (s1, n, Some ''no space left on device'')
        else (s1\<lparr>g_hash := g_hash s @ p\<rparr>, n, None))"

text \<open>\<^verbatim>\<open>bufio.Writer.Flush\<close> and \<^verbatim>\<open>bufio.Writer.Write\<close>: an error sticks to the writer.\<close>

definition bufio_flush :: "gen_state \<Rightarrow> gen_state" where
  "bufio_flush s =
    (if g_err s \<noteq> None \<or> g_buf s = [] then s
     else case countingWriter_Write (g_buf s) s of
       (s1, n, Some e) \<Rightarrow> s1\<lparr>g_buf := drop n (g_buf s), g_err := Some e\<rparr>
     | (s1, n, None) \<Rightarrow> s1\<lparr>g_buf := []\<rparr>)"

function bufio_write :: "nat \<Rightarrow> bytes \<Rightarrow> gen_state \<Rightarrow> gen_state" where
  "bufio_write cap p s =
    (if length p \<le> cap - length (g_buf s) \<or> g_err s \<noteq> None
     then (if g_err s \<noteq> None then s else s\<lparr>g_buf := g_buf s @ p\<rparr>)
     else if g_buf s = []
     then (case countingWriter_Write p s of (s1, n, e) \<Rightarrow> bufio_write cap (drop n p) (s1\<lparr>g_err := e\<rparr>))
     else (let n = cap - length (g_buf s)
           in bufio_write cap (drop n p) (bufio_flush (s\<lparr>g_buf := g_buf s @ take n p\<rparr>))))"
  by pat_completeness auto
termination
  by (relation "measures [\<lambda>(cap, p, s). if g_err s = None then 1 else 0, \<lambda>(cap, p, s). length p,
                          \<lambda>(cap, p, s). length (g_buf s)]")
     (auto simp: countingWriter_Write_def bufio_flush_def Let_def split: if_splits option.splits)

declare bufio_write.simps [simp del]

subsection \<open>The records\<close>

text \<open>\<^verbatim>\<open>fmt.Fprintf(buffer, "%08d%s\n", i, payload)\<close>.\<close>

definition fixed_record :: "bytes \<Rightarrow> int64 \<Rightarrow> bytes" where
  "fixed_record payload i = format_pad 8 i @ payload @ [LF]"

text \<open>The loop over the records, from \<open>i\<close> on.\<close>

fun write_records :: "nat \<Rightarrow> bytes \<Rightarrow> int64 \<Rightarrow> nat \<Rightarrow> gen_state \<Rightarrow> gen_state" where
  "write_records cap payload i 0 s = s"
| "write_records cap payload i (Suc n) s =
    (let s1 = bufio_write cap (fixed_record payload i) s
     in if g_err s1 \<noteq> None then s1 else write_records cap payload (i + 1) n s1)"

definition buffer_size :: nat where "buffer_size = 4 * 1024 * 1024"

subsection \<open>The manifest\<close>

record gen_manifest =
  gm_Records :: int64
  gm_RecordLengthBytes :: int64
  gm_SizeBytes :: int64
  gm_SHA256 :: string

text \<open>\<^verbatim>\<open>json.MarshalIndent\<close> of the manifest with two blanks, and the newline the code appends.\<close>

definition json_field :: "string \<Rightarrow> string \<Rightarrow> string" where
  "json_field name v = ''  '' @ json_string name @ '': '' @ v"

definition manifest_body :: "gen_manifest \<Rightarrow> string" where
  "manifest_body m =
    ''{'' @ [LF]
      @ join_with ('','' @ [LF])
          [json_field ''records'' (format_int (gm_Records m)),
           json_field ''recordLengthBytes'' (format_int (gm_RecordLengthBytes m)),
           json_field ''sizeBytes'' (format_int (gm_SizeBytes m)),
           json_field ''sha256'' (json_string (gm_SHA256 m))]
      @ [LF] @ ''}'' @ [LF]"

subsection \<open>generate and main\<close>

record disk =
  dk_files :: "string \<rightharpoonup> bytes"
  dk_free :: "nat option"

text \<open>
  The outcomes of the system calls: an error of \<^verbatim>\<open>Stat\<close> other than absence, of \<^verbatim>\<open>MkdirAll\<close>, the name or
  the error of \<^verbatim>\<open>CreateTemp\<close>, errors of \<^verbatim>\<open>Sync\<close>, \<^verbatim>\<open>Close\<close>, \<^verbatim>\<open>Remove\<close> of the destination, \<^verbatim>\<open>Rename\<close>, and of
  \<^verbatim>\<open>WriteFile\<close>, which may leave part of its content.
\<close>

record os_calls =
  os_Stat :: "string option"
  os_MkdirAll :: "string option"
  os_CreateTemp :: "string + string"
  os_Sync :: "string option"
  os_Close :: "string option"
  os_Remove :: "string option"
  os_Rename :: "string option"
  os_WriteFile :: "(bytes option \<times> string) option"

datatype gen_error =
    OutputRequired
  | RecordsOutOfRange
  | RecordLengthTooSmall
  | DestinationExists string
  | OSError string
  | WrongSize int64 int64

definition manifest_path :: "string \<Rightarrow> string" where
  "manifest_path output = output @ ''.manifest.json''"

text \<open>
  What follows the records: flush, sync, close, the size check, the move to the destination and
  the manifest. The file system is returned as it is before the deferred removal.
\<close>

definition finish_file ::
  "os_calls \<Rightarrow> string \<Rightarrow> string \<Rightarrow> int64 \<Rightarrow> int64 \<Rightarrow> bool \<Rightarrow> gen_state \<Rightarrow> disk \<Rightarrow> disk \<times> gen_error option" where
  "finish_file os tmp output records recordLength force s d =
    (case g_err s of Some e \<Rightarrow> (d, Some (OSError e)) | None \<Rightarrow>
     (case os_Sync os of Some e \<Rightarrow> (d, Some (OSError e)) | None \<Rightarrow>
      (case os_Close os of Some e \<Rightarrow> (d, Some (OSError e)) | None \<Rightarrow>
       (let wantSize = wrap64 (records * recordLength) in
        if g_count s \<noteq> wantSize then (d, Some (WrongSize (g_count s) wantSize))
        else if force \<and> os_Remove os \<noteq> None then (d, Some (OSError (the (os_Remove os))))
        else (let d1 = (if force then d\<lparr>dk_files := (dk_files d)(output := None)\<rparr> else d) in
         (case os_Rename os of Some e \<Rightarrow> (d1, Some (OSError e)) | None \<Rightarrow>
          (let d2 = d1\<lparr>dk_files := (dk_files d1)(output := dk_files d1 tmp, tmp := None)\<rparr>;
               m = \<lparr>gm_Records = records, gm_RecordLengthBytes = recordLength, gm_SizeBytes = g_count s,
                    gm_SHA256 = hex_encode (sha256 (g_hash s))\<rparr> in
           (case os_WriteFile os of
              Some (None, e) \<Rightarrow> (d2, Some (OSError e))
            | Some (Some part, e) \<Rightarrow>
                (d2\<lparr>dk_files := (dk_files d2)(manifest_path output \<mapsto> part)\<rparr>, Some (OSError e))
            | None \<Rightarrow>
                (d2\<lparr>dk_files := (dk_files d2)(manifest_path output \<mapsto> manifest_body m)\<rparr>, None)))))))))"

definition generate ::
  "os_calls \<Rightarrow> string \<Rightarrow> int64 \<Rightarrow> int64 \<Rightarrow> bool \<Rightarrow> disk \<Rightarrow> disk \<times> gen_error option" where
  "generate os output records recordLength force d =
    (if records < 1 \<or> records > 99999999 then (d, Some RecordsOutOfRange)
     else if recordLength < 10 then (d, Some RecordLengthTooSmall)
     else if os_Stat os = None \<and> dk_files d output \<noteq> None \<and> \<not> force then (d, Some (DestinationExists output))
     else if os_Stat os \<noteq> None then (d, Some (OSError (the (os_Stat os))))
     else (case os_MkdirAll os of Some e \<Rightarrow> (d, Some (OSError e)) | None \<Rightarrow>
      (case os_CreateTemp os of Inl e \<Rightarrow> (d, Some (OSError e)) | Inr tmp \<Rightarrow>
       (let s0 = \<lparr>g_file = [], g_free = dk_free d, g_hash = [], g_count = 0, g_buf = [], g_err = None\<rparr>;
            payload = replicate (nat (recordLength - 9)) (CHR ''X'');
            s1 = bufio_flush (write_records buffer_size payload 1 (nat records) s0);
            d1 = \<lparr>dk_files = (dk_files d)(tmp \<mapsto> g_file s1), dk_free = g_free s1\<rparr>;
            (d2, e) = finish_file os tmp output records recordLength force s1 d1
        in (d2\<lparr>dk_files := (dk_files d2)(tmp := None)\<rparr>, e)))))"

definition generate_main ::
  "os_calls \<Rightarrow> string \<Rightarrow> int64 \<Rightarrow> int64 \<Rightarrow> bool \<Rightarrow> disk \<Rightarrow> disk \<times> gen_error option" where
  "generate_main os output records recordLength force d =
    (if output = [] then (d, Some OutputRequired) else generate os output records recordLength force d)"

subsection \<open>The writers keep the bytes\<close>

text \<open>
  As long as no error has stuck, file and buffer hold the bytes written, and the hash and the
  counter follow the file.
\<close>

definition tracks :: "gen_state \<Rightarrow> bytes \<Rightarrow> bool" where
  "tracks s w \<longleftrightarrow> (g_err s = None \<longrightarrow>
     g_file s @ g_buf s = w \<and> g_hash s = g_file s \<and> g_count s = wrap64 (int (length (g_file s))))"

text \<open>No error so far, and the disk takes a file of \<open>sz\<close> bytes.\<close>

definition roomy :: "nat \<Rightarrow> gen_state \<Rightarrow> bool" where
  "roomy sz s \<longleftrightarrow> g_err s = None \<and> (\<forall>k. g_free s = Some k \<longrightarrow> sz \<le> k + length (g_file s))"

lemma wrap64_add_left: "wrap64 (wrap64 a + b) = wrap64 (a + b)"
proof -
  have "((a + 9223372036854775808) mod 18446744073709551616 + b) mod 18446744073709551616
        = (a + 9223372036854775808 + b) mod 18446744073709551616"
    by (rule mod_add_left_eq)
  then show ?thesis by (simp add: wrap64_def algebra_simps)
qed

lemma countingWriter_ok:
  "countingWriter_Write p s = (s1, n, None) \<Longrightarrow>
     n = length p \<and> s1 = s\<lparr>g_file := g_file s @ p, g_hash := g_hash s @ p,
       g_free := map_option (\<lambda>k. k - n) (g_free s), g_count := wrap64 (g_count s + int n)\<rparr>"
  by (auto simp: countingWriter_Write_def Let_def split: if_splits option.splits)

lemma countingWriter_roomy:
  assumes "roomy sz s" "length (g_file s) + length p \<le> sz" and w: "countingWriter_Write p s = (s1, n, e)"
  shows "e = None" and "roomy sz (s1\<lparr>g_buf := b, g_err := None\<rparr>)"
  using assms
  by (auto simp: roomy_def countingWriter_Write_def Let_def split: option.splits if_splits)

lemma bufio_flush_tracks: "tracks s w \<Longrightarrow> tracks (bufio_flush s) w"
  unfolding bufio_flush_def
  by (auto simp: tracks_def wrap64_add_left dest!: countingWriter_ok split: option.splits prod.splits)

lemma bufio_flush_empty: "g_err (bufio_flush s) = None \<Longrightarrow> g_buf (bufio_flush s) = []"
  unfolding bufio_flush_def by (auto split: if_splits option.splits prod.splits)

lemma bufio_flush_roomy:
  assumes r: "roomy sz s" and t: "tracks s w" and le: "length w \<le> sz"
  shows "roomy sz (bufio_flush s)"
proof (cases "g_buf s = []")
  case True
  with r show ?thesis by (simp add: bufio_flush_def)
next
  case False
  obtain s1 n e where c: "countingWriter_Write (g_buf s) s = (s1, n, e)" by (metis prod_cases3)
  have none: "g_err s = None" using r by (simp add: roomy_def)
  with t have "w = g_file s @ g_buf s" by (simp add: tracks_def)
  with le have le': "length (g_file s) + length (g_buf s) \<le> sz" by simp
  from countingWriter_roomy(1) [OF r le' c] c have c': "countingWriter_Write (g_buf s) s = (s1, n, None)" by simp
  have "g_err s1 = None" using countingWriter_ok [OF c'] none by simp
  then have "bufio_flush s = s1\<lparr>g_buf := [], g_err := None\<rparr>"
    using False none c' by (simp add: bufio_flush_def)
  with countingWriter_roomy(2) [OF r le' c'] show ?thesis by simp
qed

lemma bufio_write_tracks: "tracks s w \<Longrightarrow> tracks (bufio_write cap p s) (w @ p)"
proof (induction cap p s arbitrary: w rule: bufio_write.induct)
  case (1 cap p s)
  let ?n = "cap - length (g_buf s)"
  consider (now) "length p \<le> ?n \<or> g_err s \<noteq> None"
    | (direct) "\<not> (length p \<le> ?n \<or> g_err s \<noteq> None)" "g_buf s = []"
    | (fill) "\<not> (length p \<le> ?n \<or> g_err s \<noteq> None)" "g_buf s \<noteq> []" by blast
  then show ?case
  proof cases
    case now
    with "1.prems" show ?thesis by (auto simp: bufio_write.simps [of cap p s] tracks_def)
  next
    case direct
    obtain s1 n e where c: "countingWriter_Write p s = (s1, n, e)" by (metis prod_cases3)
    have "tracks (s1\<lparr>g_err := e\<rparr>) (w @ take n p)"
      using "1.prems" direct c
      by (cases e) (auto simp: tracks_def wrap64_add_left dest!: countingWriter_ok)
    from "1.IH"(1) [OF direct c [symmetric] refl this] direct c show ?thesis
      by (simp add: bufio_write.simps [of cap p s])
  next
    case fill
    have "tracks (bufio_flush (s\<lparr>g_buf := g_buf s @ take ?n p\<rparr>)) (w @ take ?n p)"
      using "1.prems" by (intro bufio_flush_tracks) (auto simp: tracks_def)
    from "1.IH"(2) [OF fill refl this] fill show ?thesis
      by (simp add: bufio_write.simps [of cap p s] Let_def)
  qed
qed

lemma bufio_write_roomy:
  "roomy sz s \<Longrightarrow> tracks s w \<Longrightarrow> length w + length p \<le> sz \<Longrightarrow> roomy sz (bufio_write cap p s)"
proof (induction cap p s arbitrary: w rule: bufio_write.induct)
  case (1 cap p s)
  let ?n = "cap - length (g_buf s)"
  have none: "g_err s = None" using "1.prems"(1) by (simp add: roomy_def)
  consider (now) "length p \<le> ?n \<or> g_err s \<noteq> None"
    | (direct) "\<not> (length p \<le> ?n \<or> g_err s \<noteq> None)" "g_buf s = []"
    | (fill) "\<not> (length p \<le> ?n \<or> g_err s \<noteq> None)" "g_buf s \<noteq> []" by blast
  then show ?case
  proof cases
    case now
    with "1.prems" none show ?thesis by (simp add: bufio_write.simps [of cap p s] roomy_def)
  next
    case direct
    obtain s1 n e where c: "countingWriter_Write p s = (s1, n, e)" by (metis prod_cases3)
    have le: "length (g_file s) + length p \<le> sz"
      using "1.prems"(2,3) none direct by (auto simp: tracks_def)
    from countingWriter_roomy(1) [OF "1.prems"(1) le c] c
    have c': "countingWriter_Write p s = (s1, length p, None)" "e = None" "n = length p"
      using countingWriter_ok by auto
    have "roomy sz (s1\<lparr>g_err := None\<rparr>)"
      using countingWriter_roomy(2) [OF "1.prems"(1) le c, of "g_buf s1"] by simp
    then show ?thesis
      using direct c'(1) by (simp add: bufio_write.simps [of cap p s] bufio_write.simps [of cap "[]"] roomy_def)
  next
    case fill
    let ?s = "s\<lparr>g_buf := g_buf s @ take ?n p\<rparr>"
    have t: "tracks ?s (w @ take ?n p)" using "1.prems" by (auto simp: tracks_def)
    have r: "roomy sz ?s" using "1.prems"(1) by (simp add: roomy_def)
    have le: "length (w @ take ?n p) + length (drop ?n p) \<le> sz" using "1.prems"(3) by simp
    have "roomy sz (bufio_flush ?s)" using bufio_flush_roomy [OF r t] le by simp
    from "1.IH"(2) [OF fill refl this bufio_flush_tracks [OF t] le] fill show ?thesis
      by (simp add: bufio_write.simps [of cap p s] Let_def)
  qed
qed

subsection \<open>The records of a file\<close>

text \<open>What the file is to hold: \<open>n\<close> records from number \<open>i\<close> on.\<close>

fun fixed_records :: "bytes \<Rightarrow> int64 \<Rightarrow> nat \<Rightarrow> bytes" where
  "fixed_records payload i 0 = []"
| "fixed_records payload i (Suc n) = fixed_record payload i @ fixed_records payload (i + 1) n"

lemma write_records_tracks:
  "tracks s w \<Longrightarrow> tracks (write_records cap payload i n s) (w @ fixed_records payload i n)"
proof (induction n arbitrary: i s w)
  case 0
  then show ?case by simp
next
  case (Suc n)
  have "tracks (write_records cap payload (i + 1) n (bufio_write cap (fixed_record payload i) s))
          ((w @ fixed_record payload i) @ fixed_records payload (i + 1) n)"
    by (rule Suc.IH [OF bufio_write_tracks [OF Suc.prems]])
  then show ?case by (auto simp: Let_def tracks_def)
qed

lemma write_records_roomy:
  "roomy sz s \<Longrightarrow> tracks s w \<Longrightarrow> length w + length (fixed_records payload i n) \<le> sz \<Longrightarrow>
     roomy sz (write_records cap payload i n s)"
proof (induction n arbitrary: i s w)
  case 0
  then show ?case by simp
next
  case (Suc n)
  let ?s = "bufio_write cap (fixed_record payload i) s"
  have r: "roomy sz ?s" using bufio_write_roomy [OF Suc.prems(1,2)] Suc.prems(3) by simp
  have "length (w @ fixed_record payload i) + length (fixed_records payload (i + 1) n) \<le> sz"
    using Suc.prems(3) by simp
  from Suc.IH [OF r bufio_write_tracks [OF Suc.prems(2)] this] r show ?case
    by (simp add: Let_def roomy_def)
qed

lemma length_dec_nat: "n < 10 ^ Suc k \<Longrightarrow> length (dec_nat n) \<le> Suc k"
proof (induction k arbitrary: n)
  case 0
  then show ?case by (simp add: dec_nat.simps [of n])
next
  case (Suc k)
  then have "n div 10 < 10 ^ Suc k" by (simp add: less_mult_imp_div_less)
  from Suc.IH [OF this] show ?case by (simp add: dec_nat.simps [of n])
qed

text \<open>Below one hundred million the number takes eight digits: this is the bound the command checks.\<close>

lemma length_format_pad_8: "0 \<le> i \<Longrightarrow> i \<le> 99999999 \<Longrightarrow> length (format_pad 8 i) = 8"
proof -
  assume i: "0 \<le> i" "i \<le> 99999999"
  then have "nat i < 10 ^ Suc 7" by simp
  from length_dec_nat [OF this] i show ?thesis by (simp add: format_pad_def format_int_def Let_def)
qed

lemma length_fixed_records:
  "1 \<le> i \<Longrightarrow> i + int n \<le> 100000000 \<Longrightarrow> length (fixed_records payload i n) = n * (length payload + 9)"
proof (induction n arbitrary: i)
  case 0
  then show ?case by simp
next
  case (Suc n)
  have "length (fixed_record payload i) = length payload + 9"
    using Suc.prems by (simp add: fixed_record_def length_format_pad_8)
  with Suc show ?case by simp
qed

lemma format_pad_no_term: "0 \<le> i \<Longrightarrow> c \<in> set (format_pad w i) \<Longrightarrow> \<not> is_term c"
  by (auto simp: format_pad_def format_int_def Let_def is_term_def dest: dec_nat_digits)

lemma phys_lines_record:
  assumes "0 \<le> i" "\<forall>c\<in>set payload. \<not> is_term c"
  shows "phys_lines off (fixed_record payload i @ r)
       = (off, format_pad 8 i @ payload) # phys_lines (off + int (length (fixed_record payload i))) r"
proof -
  let ?h = "format_pad 8 i @ payload"
  have nt: "\<forall>c\<in>set ?h. \<not> is_term c" using assms format_pad_no_term by auto
  have eq: "fixed_record payload i @ r = ?h @ LF # r" by (simp add: fixed_record_def)
  have head: "line_head (?h @ LF # r) = ?h" and rest: "line_rest (?h @ LF # r) = LF # r"
    using nt unfolding line_head_def line_rest_def
    by (simp_all only: takeWhile_append_all dropWhile_append2 Ball_def)
       (simp_all add: is_term_def takeWhile_append_all)
  have tl: "term_len (LF # r) = 1" by (simp add: term_len_def)
  show ?thesis
    unfolding eq using head rest tl by (simp add: phys_lines.simps [of off] fixed_record_def add_ac)
qed

lemma phys_lines_fixed_records:
  assumes "\<forall>c\<in>set payload. \<not> is_term c"
  shows "1 \<le> i \<Longrightarrow> i + int n \<le> 100000000 \<Longrightarrow>
    phys_lines off (fixed_records payload i n)
    = map (\<lambda>k. (off + int k * int (length payload + 9), format_pad 8 (i + int k) @ payload)) [0..<n]"
proof (induction n arbitrary: i off)
  case 0
  then show ?case by (simp add: phys_lines.simps [of off] line_rest_def)
next
  case (Suc n)
  have l: "int (length (fixed_record payload i)) = int (length payload + 9)"
    using Suc.prems by (simp add: fixed_record_def length_format_pad_8)
  have "[0..<Suc n] = 0 # map Suc [0..<n]" by (simp add: upt_conv_Cons map_Suc_upt del: upt_Suc)
  with Suc.IH [of "i + 1" "off + int (length payload + 9)"] Suc.prems
       phys_lines_record [OF _ assms, of i off "fixed_records payload (i + 1) n"] l
  show ?case by (simp add: algebra_simps comp_def del: upt_Suc)
qed

subsection \<open>The generated file\<close>

definition gen_payload :: "int64 \<Rightarrow> bytes" where
  "gen_payload recordLength = replicate (nat (recordLength - 9)) (CHR ''X'')"

definition gen_content :: "int64 \<Rightarrow> int64 \<Rightarrow> bytes" where
  "gen_content records recordLength = fixed_records (gen_payload recordLength) 1 (nat records)"

definition gen_start :: "disk \<Rightarrow> gen_state" where
  "gen_start d = \<lparr>g_file = [], g_free = dk_free d, g_hash = [], g_count = 0, g_buf = [], g_err = None\<rparr>"

definition gen_written :: "int64 \<Rightarrow> int64 \<Rightarrow> disk \<Rightarrow> gen_state" where
  "gen_written records recordLength d =
    bufio_flush (write_records buffer_size (gen_payload recordLength) 1 (nat records) (gen_start d))"

lemma wrap64_0 [simp]: "wrap64 0 = 0"
  by (simp add: wrap64_def)

lemma tracks_start: "tracks (gen_start d) []"
  by (simp add: tracks_def gen_start_def)

lemma gen_written_content:
  assumes "g_err (gen_written records recordLength d) = None"
  shows "g_file (gen_written records recordLength d) = gen_content records recordLength"
    and "g_hash (gen_written records recordLength d) = gen_content records recordLength"
    and "g_count (gen_written records recordLength d) = wrap64 (int (length (gen_content records recordLength)))"
proof -
  have t: "tracks (gen_written records recordLength d) (gen_content records recordLength)"
    unfolding gen_written_def gen_content_def
    using bufio_flush_tracks [OF write_records_tracks [OF tracks_start]] by simp
  have "g_buf (gen_written records recordLength d) = []"
    using assms unfolding gen_written_def by (rule bufio_flush_empty)
  with t assms show "g_file (gen_written records recordLength d) = gen_content records recordLength"
    and "g_hash (gen_written records recordLength d) = gen_content records recordLength"
    and "g_count (gen_written records recordLength d) = wrap64 (int (length (gen_content records recordLength)))"
    by (simp_all add: tracks_def)
qed

lemma gen_written_fits:
  assumes "\<forall>k. dk_free d = Some k \<longrightarrow> length (gen_content records recordLength) \<le> k"
  shows "g_err (gen_written records recordLength d) = None"
proof -
  let ?sz = "length (gen_content records recordLength)"
  have r: "roomy ?sz (gen_start d)" using assms by (simp add: roomy_def gen_start_def)
  have le: "length [] + length (fixed_records (gen_payload recordLength) 1 (nat records)) \<le> ?sz"
    by (simp add: gen_content_def)
  have "roomy ?sz (gen_written records recordLength d)"
    unfolding gen_written_def
    by (rule bufio_flush_roomy [OF write_records_roomy [OF r tracks_start le] write_records_tracks [OF tracks_start]])
       (simp add: gen_content_def)
  then show ?thesis by (simp add: roomy_def)
qed

lemma length_gen_content:
  "1 \<le> records \<Longrightarrow> records \<le> 99999999 \<Longrightarrow> 10 \<le> recordLength \<Longrightarrow>
     int (length (gen_content records recordLength)) = records * recordLength"
  by (simp add: gen_content_def length_fixed_records gen_payload_def)

lemma gen_written_ok:
  assumes "1 \<le> records" "records \<le> 99999999" "10 \<le> recordLength"
    and "\<forall>k. dk_free d = Some k \<longrightarrow> records * recordLength \<le> int k"
  shows "g_err (gen_written records recordLength d) = None"
    and "g_count (gen_written records recordLength d) = wrap64 (records * recordLength)"
proof -
  have len: "int (length (gen_content records recordLength)) = records * recordLength"
    using assms(1-3) by (rule length_gen_content)
  have "\<forall>k. dk_free d = Some k \<longrightarrow> length (gen_content records recordLength) \<le> k"
    using assms(4) len by (metis of_nat_le_iff)
  then show e: "g_err (gen_written records recordLength d) = None" by (rule gen_written_fits)
  show "g_count (gen_written records recordLength d) = wrap64 (records * recordLength)"
    using gen_written_content(3) [OF e] len by simp
qed

lemma generate_unfold:
  "generate os output records recordLength force d =
    (if records < 1 \<or> records > 99999999 then (d, Some RecordsOutOfRange)
     else if recordLength < 10 then (d, Some RecordLengthTooSmall)
     else if os_Stat os = None \<and> dk_files d output \<noteq> None \<and> \<not> force then (d, Some (DestinationExists output))
     else if os_Stat os \<noteq> None then (d, Some (OSError (the (os_Stat os))))
     else (case os_MkdirAll os of Some e \<Rightarrow> (d, Some (OSError e)) | None \<Rightarrow>
      (case os_CreateTemp os of Inl e \<Rightarrow> (d, Some (OSError e)) | Inr tmp \<Rightarrow>
       (let s1 = gen_written records recordLength d;
            (d2, e) = finish_file os tmp output records recordLength force s1
               \<lparr>dk_files = (dk_files d)(tmp \<mapsto> g_file s1), dk_free = g_free s1\<rparr>
        in (d2\<lparr>dk_files := (dk_files d2)(tmp := None)\<rparr>, e)))))"
  unfolding generate_def gen_written_def gen_payload_def gen_start_def Let_def by (rule refl)

lemma finish_file_ok:
  assumes "finish_file os tmp output records recordLength force s d = (d2, None)"
    "tmp \<noteq> output" "tmp \<noteq> manifest_path output" "dk_files d tmp = Some (g_file s)"
  shows "g_err s = None" and "g_count s = wrap64 (records * recordLength)"
    and "dk_files d2 output = Some (g_file s)"
    and "dk_files d2 (manifest_path output) = Some (manifest_body
           \<lparr>gm_Records = records, gm_RecordLengthBytes = recordLength, gm_SizeBytes = g_count s,
            gm_SHA256 = hex_encode (sha256 (g_hash s))\<rparr>)"
  using assms
  by (auto simp: finish_file_def Let_def manifest_path_def split: option.splits if_splits prod.splits)

text \<open>Whatever fails: when the command reports success the destination holds all the records.\<close>

lemma generated_file_is_complete:
  assumes "generate os output records recordLength force d = (d', None)"
    and "os_CreateTemp os = Inr tmp" "tmp \<noteq> output" "tmp \<noteq> manifest_path output"
  shows "dk_files d' output = Some (gen_content records recordLength)"
    and "dk_files d' (manifest_path output) = Some (manifest_body
           \<lparr>gm_Records = records, gm_RecordLengthBytes = recordLength, gm_SizeBytes = wrap64 (records * recordLength),
            gm_SHA256 = hex_encode (sha256 (gen_content records recordLength))\<rparr>)"
    and "dk_files d' tmp = None"
proof -
  let ?s = "gen_written records recordLength d"
  let ?d = "\<lparr>dk_files = (dk_files d)(tmp \<mapsto> g_file ?s), dk_free = g_free ?s\<rparr>"
  obtain d2 where f: "finish_file os tmp output records recordLength force ?s ?d = (d2, None)"
    and d': "d' = d2\<lparr>dk_files := (dk_files d2)(tmp := None)\<rparr>"
    using assms(1,2) by (auto simp: generate_unfold Let_def split: option.splits if_splits prod.splits)
  have t: "dk_files ?d tmp = Some (g_file ?s)" by simp
  note ok = finish_file_ok [OF f assms(3,4) t]
  note c = gen_written_content [OF ok(1)]
  show "dk_files d' output = Some (gen_content records recordLength)" using ok(3) c(1) assms(3) d' by simp
  show "dk_files d' (manifest_path output) = Some (manifest_body
           \<lparr>gm_Records = records, gm_RecordLengthBytes = recordLength, gm_SizeBytes = wrap64 (records * recordLength),
            gm_SHA256 = hex_encode (sha256 (gen_content records recordLength))\<rparr>)"
    using ok(2,4) c(2) assms(4) d' by simp
  show "dk_files d' tmp = None" using d' by simp
qed

text \<open>A system on which every call succeeds, with a temporary name of its own.\<close>

definition os_ok :: "os_calls \<Rightarrow> string \<Rightarrow> string \<Rightarrow> bool" where
  "os_ok os tmp output \<longleftrightarrow>
     os = \<lparr>os_Stat = None, os_MkdirAll = None, os_CreateTemp = Inr tmp, os_Sync = None, os_Close = None,
           os_Remove = None, os_Rename = None, os_WriteFile = None\<rparr>
     \<and> tmp \<noteq> output \<and> tmp \<noteq> manifest_path output"

lemma generation_succeeds:
  assumes "1 \<le> records" "records \<le> 99999999" "10 \<le> recordLength" "os_ok os tmp output"
    and "force \<or> dk_files d output = None" and "\<forall>k. dk_free d = Some k \<longrightarrow> records * recordLength \<le> int k"
  shows "\<exists>d'. generate os output records recordLength force d = (d', None)"
  using gen_written_ok [OF assms(1-3,6)] assms
  by (auto simp: generate_unfold finish_file_def os_ok_def Let_def split: prod.splits)

text \<open>
  C31. With valid arguments, system calls that succeed and room on the disk, the generator reports
  success; the file it leaves has exactly the size it promises, the line reader finds in it one line
  for every record, with its number in eight digits and at its offset, and the manifest states the
  size and the SHA-256 of that file.\<close>

theorem generated_file_reads_back:
  assumes args: "1 \<le> records" "records \<le> 99999999" "10 \<le> recordLength" "records * recordLength \<le> max_int64"
    and os: "os_ok os tmp output" and new: "force \<or> dk_files d output = None"
    and room: "\<forall>k. dk_free d = Some k \<longrightarrow> records * recordLength \<le> int k"
  shows "\<exists>d' c. generate os output records recordLength force d = (d', None) \<and> dk_files d' output = Some c
    \<and> int (length c) = records * recordLength
    \<and> phys_lines 0 c = map (\<lambda>k. (int k * recordLength,
                                 format_pad 8 (1 + int k) @ replicate (nat (recordLength - 9)) (CHR ''X'')))
                           [0..<nat records]
    \<and> dk_files d' (manifest_path output) = Some (manifest_body
        \<lparr>gm_Records = records, gm_RecordLengthBytes = recordLength, gm_SizeBytes = records * recordLength,
         gm_SHA256 = hex_encode (sha256 c)\<rparr>)"
proof -
  from generation_succeeds [OF args(1-3) os new room]
  obtain d' where g: "generate os output records recordLength force d = (d', None)" ..
  have tmp: "os_CreateTemp os = Inr tmp" "tmp \<noteq> output" "tmp \<noteq> manifest_path output"
    using os by (simp_all add: os_ok_def)
  have w: "wrap64 (records * recordLength) = records * recordLength"
    using args by (intro wrap64_nonneg) auto
  have nt: "\<forall>c\<in>set (gen_payload recordLength). \<not> is_term c" by (simp add: gen_payload_def is_term_def)
  have "phys_lines 0 (gen_content records recordLength)
      = map (\<lambda>k. (int k * recordLength,
                  format_pad 8 (1 + int k) @ replicate (nat (recordLength - 9)) (CHR ''X''))) [0..<nat records]"
    unfolding gen_content_def using phys_lines_fixed_records [OF nt, of 1 "nat records" 0] args
    by (simp add: gen_payload_def)
  with g generated_file_is_complete [OF g tmp] length_gen_content [OF args(1-3)] w show ?thesis by auto
qed

lemma generated_file_reads_back_witness:
  "\<exists>d' c. generate \<lparr>os_Stat = None, os_MkdirAll = None, os_CreateTemp = Inr ''t'', os_Sync = None, os_Close = None,
             os_Remove = None, os_Rename = None, os_WriteFile = None\<rparr> ''f'' 2 12 False
             \<lparr>dk_files = Map.empty, dk_free = Some 24\<rparr> = (d', None)
    \<and> dk_files d' ''f'' = Some c \<and> length c = 24
    \<and> phys_lines 0 c = [(0, ''00000001XXX''), (12, ''00000002XXX'')]"
proof -
  let ?os = "\<lparr>os_Stat = None, os_MkdirAll = None, os_CreateTemp = Inr ''t'', os_Sync = None, os_Close = None,
             os_Remove = None, os_Rename = None, os_WriteFile = None\<rparr>"
  have ok: "os_ok ?os ''t'' ''f''" by (simp add: os_ok_def manifest_path_def)
  have p: "format_pad 8 1 = ''00000001''" "format_pad 8 2 = ''00000002''" "replicate 3 (CHR ''X'') = ''XXX''" by code_simp+
  from generated_file_reads_back [OF _ _ _ _ ok, of 2 12 False "\<lparr>dk_files = Map.empty, dk_free = Some 24\<rparr>"]
  show ?thesis by (auto simp: max_int64_def p numeral_eq_Suc [of "Num.Bit0 Num.One"])
qed

text \<open>
  Where a forced run may end: the old file is removed before the new one is in place, so a failing
  \<^verbatim>\<open>Rename\<close> leaves no file at all.
\<close>

lemma forced_run_can_lose_the_file:
  assumes "1 \<le> records" "records \<le> 99999999" "10 \<le> recordLength" "os_ok os tmp output"
    and "\<forall>k. dk_free d = Some k \<longrightarrow> records * recordLength \<le> int k"
  shows "\<exists>d'. generate (os\<lparr>os_Rename := Some e\<rparr>) output records recordLength True d = (d', Some (OSError e))
           \<and> dk_files d' output = None"
  using gen_written_ok [OF assms(1-3,5)] assms
  by (auto simp: generate_unfold finish_file_def os_ok_def Let_def split: prod.splits)

text \<open>Without \<^verbatim>\<open>--force\<close> an existing destination is never touched.\<close>

lemma existing_file_is_kept:
  assumes "dk_files d output \<noteq> None" "generate os output records recordLength False d = (d', e)"
  shows "e \<noteq> None \<and> d' = d"
  using assms by (auto simp: generate_unfold split: if_splits)

end
