(* ===== verification/Worker_Multi.thy ===== *)
theory Worker_Multi
  imports Worker_Text
begin

section \<open>Every multi-line record, once\<close>

text \<open>
  The contract between planner and Worker for multi-line objects. The planner cuts at multiples of
  the nominal size and pads every chunk up to the next break line; the Worker groups the lines of
  the padded range and publishes the records that start before the padding. The cut may fall
  inside a line: the fragment then opens the next chunk, and it must not look like a break line.
\<close>

subsection \<open>Cutting a list of lines between records\<close>

lemma group_run_append:
  "R = [] \<or> is_break layout (hd R) \<Longrightarrow>
     group_run layout (ls @ R) cur = group_run layout ls cur @ group_run layout R None"
proof (induction ls arbitrary: cur)
  case Nil
  then show ?case by (cases R) (auto split: option.splits)
qed (auto split: option.splits)

lemma records_of_append:
  "R = [] \<or> is_break layout (hd R) \<Longrightarrow> records_of layout (ls @ R) = records_of layout ls @ records_of layout R"
  using group_run_append [of R layout ls None] by (simp add: group_run_records_of)

text \<open>A record starts at its break line.\<close>

lemma group_run_starts:
  "map fst (group_run layout ls cur)
    = (case cur of None \<Rightarrow> [] | Some r \<Rightarrow> [fst r]) @ map fst (filter (is_break layout) ls)"
  by (induction layout ls cur rule: group_run.induct) (auto split: option.splits)

lemma records_of_starts: "map fst (records_of layout ls) = map fst (filter (is_break layout) ls)"
  using group_run_starts [of layout ls None] by (simp add: group_run_records_of)

lemma records_of_start_in: "r \<in> set (records_of layout ls) \<Longrightarrow> fst r \<in> fst ` set ls"
proof -
  assume "r \<in> set (records_of layout ls)"
  then have "fst r \<in> set (map fst (records_of layout ls))" by simp
  then show ?thesis unfolding records_of_starts by auto
qed

lemma records_of_increasing:
  assumes "sorted_wrt (\<lambda>a b. fst a < fst b) ls"
  shows "sorted_wrt (\<lambda>a b. fst a < fst b) (records_of layout ls)"
proof -
  have "sorted_wrt (<) (map fst (filter (is_break layout) ls))"
    using assms by (simp add: sorted_wrt_map sorted_wrt_filter)
  then have "sorted_wrt (<) (map fst (records_of layout ls))" by (simp only: records_of_starts)
  then show ?thesis by (simp add: sorted_wrt_map)
qed

text \<open>Lines before a position add no record after it.\<close>

lemma group_run_before:
  "\<exists>P. group_run layout (xs @ ys) cur = P @ group_run layout ys None
     \<and> fst ` set P \<subseteq> fst ` set xs \<union> (case cur of None \<Rightarrow> {} | Some r \<Rightarrow> {fst r})"
proof (induction xs arbitrary: cur)
  case Nil
  show ?case
  proof (cases cur)
    case (Some r)
    obtain o' zs where r: "r = (o', zs)" by (cases r)
    let ?rec = "(o', zs @ map snd (filter (is_include layout) (takeWhile (\<lambda>l. \<not> is_break layout l) ys)))"
    have "group_run layout ([] @ ys) cur = [?rec] @ group_run layout ys None"
      by (simp add: Some r group_run_Some group_run_None [of layout ys, symmetric])
    then show ?thesis by (intro exI [of _ "[?rec]"]) (simp add: Some r)
  qed simp
next
  case (Cons x xs)
  show ?case
  proof (cases "is_break layout x")
    case True
    obtain P where P: "group_run layout (xs @ ys) (Some (fst x, [snd x])) = P @ group_run layout ys None"
      "fst ` set P \<subseteq> insert (fst x) (fst ` set xs)"
      using Cons.IH [of "Some (fst x, [snd x])"] by auto
    show ?thesis
    proof (cases cur)
      case None
      with True P show ?thesis by (intro exI [of _ P]) auto
    next
      case (Some r)
      with True P show ?thesis by (intro exI [of _ "r # P"]) auto
    qed
  next
    case False
    show ?thesis
    proof (cases cur)
      case None
      with False Cons.IH [of None] show ?thesis by auto
    next
      case (Some r)
      obtain o' zs where r: "r = (o', zs)" by (cases r)
      let ?r = "(o', if is_include layout x then zs @ [snd x] else zs)"
      obtain P where P: "group_run layout (xs @ ys) (Some ?r) = P @ group_run layout ys None"
        "fst ` set P \<subseteq> insert o' (fst ` set xs)"
        using Cons.IH [of "Some ?r"] by auto
      have "fst ` set P \<subseteq> insert o' (fst ` set (x # xs))" using P(2) by (rule order_trans) auto
      with False Some r P(1) show ?thesis by (intro exI [of _ P]) simp
    qed
  qed
qed

lemma records_of_before:
  obtains P where "records_of layout (xs @ ys) = P @ records_of layout ys" "fst ` set P \<subseteq> fst ` set xs"
  using group_run_before [of layout xs ys None] that by (auto simp: group_run_records_of)

lemma sorted_split:
  "sorted_wrt (\<lambda>x y. f x < (f y :: int)) xs \<Longrightarrow> xs = filter (\<lambda>x. f x < a) xs @ filter (\<lambda>x. a \<le> f x) xs"
proof (induction xs)
  case (Cons x xs)
  show ?case
  proof (cases "f x < a")
    case False
    with Cons.prems have "\<forall>y\<in>set xs. a \<le> f y" by fastforce
    then have "filter (\<lambda>y. f y < a) xs = []" "filter (\<lambda>y. a \<le> f y) xs = xs"
      by (auto simp: filter_empty_conv filter_id_conv)
    with False show ?thesis by simp
  qed (use Cons in auto)
qed simp

text \<open>
  The records that start in \<open>[a, b]\<close> are those of the lines in \<open>[a, c)\<close>, when the lines from \<open>c\<close>
  on begin with a break line.
\<close>

lemma records_cut:
  assumes sorted: "sorted_wrt (\<lambda>x y. fst x < (fst y :: int)) ls" and "b < c"
    and stop: "filter (\<lambda>l. c \<le> fst l) ls = [] \<or> is_break layout (hd (filter (\<lambda>l. c \<le> fst l) ls))"
  shows "filter (\<lambda>r. in_range (fst r) (a, b)) (records_of layout (filter (\<lambda>l. a \<le> fst l \<and> fst l < c) ls))
       = filter (\<lambda>r. in_range (fst r) (a, b)) (records_of layout ls)"
proof -
  let ?A = "filter (\<lambda>l. fst l < a) ls" and ?B = "filter (\<lambda>l. a \<le> fst l \<and> fst l < c) ls"
    and ?D = "filter (\<lambda>l. a \<le> fst l \<and> c \<le> fst l) ls"
  have s: "sorted_wrt (\<lambda>x y. fst x < fst y) (filter (\<lambda>l. a \<le> fst l) ls)" using sorted by (rule sorted_wrt_filter)
  have split: "ls = ?A @ ?B @ ?D"
    using sorted_split [OF sorted, of a] sorted_split [OF s, of c] by (simp add: conj_ac)
  show ?thesis
  proof (cases "a \<le> b")
    case True
    then have D': "?D = filter (\<lambda>l. c \<le> fst l) ls" using assms(2) by (auto intro!: filter_cong)
    obtain P where P: "records_of layout (?A @ ?B @ ?D) = P @ records_of layout (?B @ ?D)"
      "fst ` set P \<subseteq> fst ` set ?A" by (rule records_of_before)
    have "records_of layout (?B @ ?D) = records_of layout ?B @ records_of layout ?D"
      using stop unfolding D' by (rule records_of_append)
    then have all: "records_of layout ls = P @ records_of layout ?B @ records_of layout ?D"
      using P(1) split by simp
    have "filter (\<lambda>r. in_range (fst r) (a, b)) P = []"
      using P(2) by (force simp: filter_empty_conv in_range_def)
    moreover have "filter (\<lambda>r. in_range (fst r) (a, b)) (records_of layout ?D) = []"
      using assms(2) by (force simp: filter_empty_conv in_range_def dest: records_of_start_in)
    ultimately show ?thesis unfolding all by simp
  next
    case False
    then show ?thesis by (auto simp: filter_empty_conv in_range_def)
  qed
qed

subsection \<open>The look-ahead finds a break line of the object\<close>

lemma field_matches_take: "field_matches (take i line) f \<Longrightarrow> field_matches line f"
proof -
  let ?s = "nat (lm_StartByte f)" and ?n = "nat (lm_LengthBytes f)"
  assume m: "field_matches (take i line) f"
  then have b: "0 \<le> lm_StartByte f" "1 \<le> lm_LengthBytes f" "int (length (lm_Value f)) = lm_LengthBytes f"
    and v: "take ?n (drop ?s (take i line)) = lm_Value f"
    by (auto simp: field_matches_def)
  have "length (take ?n (drop ?s (take i line))) = ?n" using b by (simp add: v)
  then have fit: "?s + ?n \<le> min i (length line)" using b(2) by (auto simp: min_def split: if_splits)
  then have "?n \<le> i - ?s" unfolding min.bounded_iff by linarith
  then have "take ?n (drop ?s line) = lm_Value f" using v by (simp add: drop_take min_absorb1)
  moreover have "wrap64 (lm_StartByte f + lm_LengthBytes f) \<le> int (length line)"
    using wrap64_le_nonneg [of "lm_StartByte f + lm_LengthBytes f"] b fit by linarith
  ultimately show ?thesis using b by (simp add: field_matches_def)
qed

lemma Matches_take: "Matches (take i line) flds \<Longrightarrow> Matches line flds"
  using field_matches_take [of i line] by (auto simp: Matches_def list_all_iff split: if_splits)

lemma field_matches_nonempty: "field_matches line f \<Longrightarrow> line \<noteq> []"
  by (auto simp: field_matches_def)

lemma Matches_not_Nil: "Matches line flds \<Longrightarrow> line \<noteq> []"
  using field_matches_nonempty by (cases flds) (auto simp: Matches_def)

lemma line_head_take: "line_head (take k xs) = take (min k (length (line_head xs))) (line_head xs)"
proof -
  have "takeWhile P (take k xs) = take k (takeWhile P xs)" for P :: "char \<Rightarrow> bool"
  proof (induction xs arbitrary: k)
    case (Cons x xs)
    then show ?case by (cases k) auto
  qed simp
  then show ?thesis by (simp add: line_head_def min_def)
qed

lemma nextBreakOffset_from_found:
  "nextBreakOffset_from flds st data = at \<Longrightarrow> 0 \<le> st \<Longrightarrow> 0 \<le> at \<Longrightarrow>
     \<exists>p. at = st + int p \<and> p < length data \<and> line_start data p \<and> Matches (line_head (drop p data)) flds"
proof (induction flds st data rule: nextBreakOffset_from.induct)
  case (1 flds st data)
  note unfold = nextBreakOffset_from.simps [of flds st data]
  show ?case
  proof (cases "data = [] \<or> Matches (line_head data) flds \<or> line_rest data = []")
    case True
    with "1.prems" unfold show ?thesis by (intro exI [of _ 0]) (auto simp: line_start_def split: if_splits)
  next
    case False
    let ?n = "next_start data"
    have step: "nextBreakOffset_from flds (st + int ?n) (drop ?n data) = at" using False "1.prems"(1) unfold by simp
    obtain p where p: "at = st + int ?n + int p" "p < length (drop ?n data)" "line_start (drop ?n data) p"
      "Matches (line_head (drop p (drop ?n data))) flds"
      using "1.IH" [OF _ _ _ step] False "1.prems"(2,3) by auto
    have "line_start data (?n + p)" using line_start_shift [of data p] False p(2,3) by simp
    with p show ?thesis by (intro exI [of _ "?n + p"]) (auto simp: add.commute)
  qed
qed

text \<open>In a window of the object that starts at \<open>a\<close>, the hit is a break line of the object, or a fragment at \<open>a\<close>.\<close>

lemma nextBreakOffset_window:
  assumes "nextBreakOffset (window F a k) flds = at" "0 \<le> at" "a + k \<le> length F"
  obtains p where "at = int p" "p < k" "Matches (line_head (drop (a + p) F)) flds" "p = 0 \<or> line_start F (a + p)"
proof -
  obtain p where p: "at = int p" "p < k" "line_start (window F a k) p" "Matches (line_head (drop p (window F a k))) flds"
    using nextBreakOffset_from_found [of flds 0 "window F a k" at] assms by (auto simp: nextBreakOffset_def)
  have "drop p (window F a k) = take (k - p) (drop (a + p) F)" by (simp add: window_def drop_take add.commute)
  with p(4) have "Matches (line_head (drop (a + p) F)) flds" by (auto simp: line_head_take intro: Matches_take)
  moreover have "p = 0 \<or> line_start F (a + p)" using p(2,3) line_start_window [OF assms(3), of p] by auto
  ultimately show thesis using p that by blast
qed

text \<open>The lines of the object from a line start on begin with the line there.\<close>

lemma sorted_from:
  assumes "sorted_wrt (\<lambda>x y. f x < (f y :: int)) xs" "x \<in> set xs"
  shows "filter (\<lambda>y. f x \<le> f y) xs = x # filter (\<lambda>y. f x < f y) xs"
  using assms
proof (induction xs)
  case (Cons z xs)
  show ?case
  proof (cases "x = z")
    case True
    have "filter (\<lambda>y. f x \<le> f y) xs = filter (\<lambda>y. f x < f y) xs"
      using Cons.prems(1) True by (intro filter_cong) auto
    with True show ?thesis by simp
  next
    case False
    with Cons.prems have "x \<in> set xs" "f z < f x" by auto
    moreover from this have "\<not> f x < f z" "\<not> f x \<le> f z" by auto
    ultimately show ?thesis using Cons.IH Cons.prems(1) by simp
  qed
qed simp

lemma closed_line:
  assumes "F \<noteq> []" "is_term (last F)" "q < length F"
  shows "line_rest (drop q F) \<noteq> []"
proof -
  have "last F \<in> set (drop q F)" using assms(3) by (metis last_drop last_in_set drop_eq_Nil not_le)
  with assms(2) show ?thesis by (auto simp: line_rest_Nil_iff)
qed

lemma lines_from:
  assumes "F \<noteq> []" "is_term (last F)" "q < length F" "line_start F q"
  shows "filter (\<lambda>l. int q \<le> fst l) (phys_lines 0 F)
    = (int q, line_head (drop q F)) # filter (\<lambda>l. int q < fst l) (phys_lines 0 F)"
proof -
  have "q \<in> set (line_positions F)" using assms closed_line [of F q] by (simp add: line_positions_def)
  then have "(int q, line_head (drop q F)) \<in> set (phys_lines 0 F)" by (auto simp: phys_lines_positions)
  from sorted_from [OF phys_lines_increasing this] show ?thesis by simp
qed

lemma lines_from_fragment:
  assumes "\<not> line_start F q"
  shows "filter (\<lambda>l. int q \<le> fst l) (phys_lines 0 F) = filter (\<lambda>l. int q < fst l) (phys_lines 0 F)"
proof -
  have "int q \<notin> fst ` set (phys_lines 0 F)" using assms by (auto simp: phys_lines_positions line_positions_def)
  then have "int q \<noteq> fst l" if "l \<in> set (phys_lines 0 F)" for l using that by force
  then show ?thesis by (intro filter_cong) (auto simp: order_le_less)
qed

subsection \<open>The chunks of a multi-line plan\<close>

text \<open>A store that serves the bytes of the object \<open>F\<close>, whatever version is asked for.\<close>

definition serves :: "ObjectStore \<Rightarrow> bytes \<Rightarrow> bool" where
  "serves store F \<longleftrightarrow> (\<forall>ob a b. 0 \<le> a \<and> a \<le> b \<and> b < int (length F) \<longrightarrow>
     os_GetRange store ob a b = RangeBody (Inr (file_window F a b)) None)"

text \<open>
  No fragment at a nominal cut looks like a break line. (A cut at a line start is no fragment.)
\<close>

definition cuts_clean :: "MultiLineLayout \<Rightarrow> int64 \<Rightarrow> bytes \<Rightarrow> bool" where
  "cuts_clean layout N F \<longleftrightarrow> (\<forall>s < length F. int s mod N = 0 \<and> \<not> line_start F s \<longrightarrow>
     \<not> Matches (line_head (drop s F)) (ml_BreakFields layout))"

definition padded_chunk :: "ObjectStore \<Rightarrow> FileRequest \<Rightarrow> int64 \<Rightarrow> int64 \<Rightarrow> ChunkJob \<Rightarrow> bool" where
  "padded_chunk store fl n N j \<longleftrightarrow> (\<exists>start p ob. 0 \<le> start \<and> start < n \<and> start mod N = 0
     \<and> multiline_padding store ob (fr_MultiLineLayout fl) n (min (start + N) n - 1) = Inr p
     \<and> cj_StartByte j = start \<and> cj_EndByteInclusive j = wrap64 (min (start + N) n - 1 + p)
     \<and> cj_TrailingPaddingBytes j = p \<and> cj_MultiLineLayout j = fr_MultiLineLayout fl
     \<and> cj_MaxRecordLengthBytes j = ml_MaxBytesPerRecord (fr_MultiLineLayout fl) \<and> cj_DataType j = fr_DataType fl)"

lemma multiline_loop_padded:
  assumes "multiline_loop fuel store fl n etag ver ex N start ch = Inr jobs"
    and N: "1 \<le> N" "n + N \<le> max_int64" and "0 \<le> start" "start mod N = 0" and "j \<in> set jobs"
  shows "padded_chunk store fl n N j"
  using assms(1,4-6)
proof (induction fuel arbitrary: start ch jobs)
  case (Suc fuel)
  show ?case
  proof (cases "start < n")
    case True
    let ?E = "min (start + N) n - 1" and ?L = "fr_MultiLineLayout fl"
    obtain ob p js where js: "multiline_loop fuel store fl n etag ver ex N (start + N) (ch + 1) = Inr js"
      and p: "multiline_padding store ob ?L n ?E = Inr p"
      and jobs: "jobs = mk_job fl n etag ver ex ch start (wrap64 (?E + p)) (ml_MaxBytesPerRecord ?L)
          \<lparr>cj_TrailingPaddingBytes := p, cj_MultiLineLayout := ?L\<rparr> # js"
      using Suc.prems(1) True unfolding multiline_loop.simps Let_def owned_end [OF N(1) Suc.prems(2) True N(2)]
      by (auto split: sum.splits)
    show ?thesis
    proof (cases "j \<in> set js")
      case True
      have "0 \<le> start + N" "(start + N) mod N = 0" using N(1) Suc.prems(2,3) by auto
      with True show ?thesis by (intro Suc.IH [OF js])
    next
      case False
      with Suc.prems(4) jobs have "j = mk_job fl n etag ver ex ch start (wrap64 (?E + p)) (ml_MaxBytesPerRecord ?L)
          \<lparr>cj_TrailingPaddingBytes := p, cj_MultiLineLayout := ?L\<rparr>" by simp
      with p True Suc.prems(2,3) show ?thesis
        unfolding padded_chunk_def by (intro exI [of _ start] exI [of _ p] exI [of _ ob]) (simp add: mk_job_def)
    qed
  qed (use Suc.prems in simp)
qed simp

text \<open>What the padding achieves: the chunk ends right before a break line, or with the object.\<close>

definition stops_at_break :: "MultiLineLayout \<Rightarrow> bytes \<Rightarrow> nat \<Rightarrow> bool" where
  "stops_at_break layout F q \<longleftrightarrow> q = length F
     \<or> q < length F \<and> line_start F q \<and> Matches (line_head (drop q F)) (ml_BreakFields layout)"

lemma padding_stops:
  assumes pad: "multiline_padding store ob layout (int (length F)) e = Inr p"
    and e: "0 \<le> e" "e < int (length F)" and small: "int (length F) + ml_MaxBytesPerRecord layout \<le> max_int64"
    and mx: "1 \<le> ml_MaxBytesPerRecord layout" and store: "serves store F"
    and cut: "e + 1 < int (length F) \<longrightarrow> (e + 1) mod N = 0" and clean: "cuts_clean layout N F"
  shows "0 \<le> p \<and> e + p < int (length F) \<and> stops_at_break layout F (nat (e + p + 1))"
proof (cases "e < int (length F) - 1")
  case False
  with pad e show ?thesis by (auto simp: multiline_padding_def stops_at_break_def)
next
  case True
  let ?m = "ml_MaxBytesPerRecord layout" and ?n = "int (length F)"
  let ?le = "min (e + ?m) (?n - 1)" and ?a = "nat (e + 1)"
  let ?k = "nat (?le - (e + 1) + 1)"
  have le: "(if wrap64 (e + ?m) \<ge> ?n then ?n - 1 else wrap64 (e + ?m)) = ?le"
    using e small mx by (auto simp: wrap64_nonneg)
  have "os_GetRange store ob (e + 1) ?le = RangeBody (Inr (file_window F (e + 1) ?le)) None"
    using store True mx e unfolding serves_def by simp
  moreover have "file_window F (e + 1) ?le = window F ?a ?k" by (simp only: file_window_def)
  ultimately have read: "os_GetRange store ob (e + 1) ?le = RangeBody (Inr (window F ?a ?k)) None" by simp
  let ?at = "nextBreakOffset (window F ?a ?k) (ml_BreakFields layout)"
  have p: "Inr p = (if ?at < 0 then (if ?le < ?n - 1 then Inl (NoRecordBreak e) else Inr (wrap64 (?n - 1 - e))) else Inr ?at)"
    using pad [symmetric] unfolding multiline_padding_def Let_def le read if_P [OF True]
    by (simp only: range_result.case sum.case option.case)
  show ?thesis
  proof (cases "?at < 0")
    case neg: True
    have "wrap64 (?n - 1 - e) = ?n - 1 - e" using e small mx by (simp add: wrap64_nonneg)
    with p neg have "p = ?n - 1 - e" by (simp split: if_splits)
    with True show ?thesis by (simp add: stops_at_break_def)
  next
    case False
    have ak: "?a + ?k \<le> length F" using True mx e by auto
    obtain q where q: "?at = int q" "q < ?k" "Matches (line_head (drop (?a + q) F)) (ml_BreakFields layout)"
      "q = 0 \<or> line_start F (?a + q)"
      using nextBreakOffset_window [OF refl _ ak, of "ml_BreakFields layout"] False by (auto simp: not_less)
    have pq: "p = int q" using p False q(1) by simp
    have lt: "?a + q < length F" using q(2) ak by simp
    have "line_start F (?a + q)"
    proof (cases "q = 0")
      case True
      have "(e + 1) mod N = 0" using cut \<open>e < int (length F) - 1\<close> by simp
      then have "int ?a mod N = 0" using e by simp
      with clean lt q(3) True show ?thesis by (auto simp: cuts_clean_def)
    qed (use q(4) in simp)
    moreover have "nat (e + p + 1) = ?a + q" using pq e by simp
    ultimately show ?thesis using lt q(3) pq e by (simp add: stops_at_break_def)
  qed
qed

subsection \<open>One chunk\<close>

text \<open>What one chunk hands to its callback, as offsets in the object and contents.\<close>

definition delivered_ml :: "bytes \<Rightarrow> ChunkJob \<Rightarrow> publish_error line_error option \<times> (int \<times> bytes) list" where
  "delivered_ml F j =
    (case chunkReadRange j of
       Inl _ \<Rightarrow> (Some MaxLineTooSmall, [])
     | Inr (a, b) \<Rightarrow> (case read_multiline no_cancel j (file_window F a b) EOF a (collect a) [] of
         (e, stats, s) \<Rightarrow> (e, s)))"

text \<open>The records of the object as the callback gets them.\<close>

definition object_records :: "MultiLineLayout \<Rightarrow> bytes \<Rightarrow> (int \<times> bytes) list" where
  "object_records layout F = record_calls (layout_separator layout) (records_of layout (phys_lines 0 F))"

lemma group_run_shift:
  "group_run layout (map (\<lambda>l. (x + fst l, snd l)) ls) (map_option (\<lambda>r. (x + fst r, snd r)) cur)
    = map (\<lambda>r. (x + fst r, snd r)) (group_run layout ls cur)"
proof (induction layout ls cur rule: group_run.induct)
  case (2 layout l ls cur)
  then show ?case by (cases cur) (auto simp: is_break_def is_include_def)
qed (auto split: option.splits)

lemma records_of_shift:
  "records_of layout (map (\<lambda>l. (x + fst l, snd l)) ls) = map (\<lambda>r. (x + fst r, snd r)) (records_of layout ls)"
  using group_run_shift [of layout x ls None] by (simp add: group_run_records_of)

lemma record_calls_filter:
  "filter (\<lambda>l. P (fst l)) (record_calls sep rs) = record_calls sep (filter (\<lambda>r. P (fst r)) rs)"
  by (simp add: record_calls_def filter_map o_def case_prod_beta)

lemma record_calls_shift:
  "map (\<lambda>l. (x + fst l, snd l)) (record_calls sep rs) = record_calls sep (map (\<lambda>r. (x + fst r, snd r)) rs)"
  by (simp add: record_calls_def case_prod_beta)

text \<open>The records of a window are those of the lines of the object in it.\<close>

lemma window_records:
  assumes "F \<noteq> []" "is_term (last F)" "a + k \<le> length F" "good_end F (a + k)" "0 < k"
    and "\<not> line_start F a \<longrightarrow> \<not> Matches (line_head (drop a F)) (ml_BreakFields layout)"
  shows "records_of layout (phys_lines (int a) (window F a k))
       = records_of layout (filter (\<lambda>l. int a \<le> fst l \<and> fst l < int (a + k)) (phys_lines 0 F))"
proof -
  let ?W = "window F a k" and ?L = "phys_lines 0 F"
  have a: "a < length F" using assms(3,5) by simp
  have "line_head (drop 0 ?W) = line_head (drop (a + 0) F) \<and> (line_rest (drop 0 ?W) \<noteq> [] \<longleftrightarrow> line_rest (drop (a + 0) F) \<noteq> [])"
    by (rule line_rest_window [OF assms(3,5,4)])
  then have h: "line_head ?W = line_head (drop a F)" "line_rest ?W \<noteq> []"
    using closed_line [OF assms(1,2) a] by simp_all
  let ?l = "(int a, line_head (drop a F))"
  have ne: "phys_lines (int a) ?W \<noteq> []" using h(2) by (simp add: phys_lines_Nil_iff)
  have "hd (phys_lines (int a) ?W) = ?l" using h by (simp add: phys_lines.simps [of "int a"])
  then have W: "phys_lines (int a) ?W = ?l # filter (\<lambda>l. int a < fst l) (phys_lines (int a) ?W)"
    using ne phys_lines_tl [of "int a" ?W] by (metis list.collapse)
  have rest: "filter (\<lambda>l. int a < fst l) (phys_lines (int a) ?W)
      = filter (\<lambda>l. int a < fst l \<and> fst l < int (a + k)) ?L"
    by (rule window_lines [OF assms(3,4)])
  have cut: "filter (\<lambda>l. int a \<le> fst l \<and> fst l < int (a + k)) ?L
      = filter (\<lambda>l. fst l < int (a + k)) (filter (\<lambda>l. int a \<le> fst l) ?L)"
    "filter (\<lambda>l. int a < fst l \<and> fst l < int (a + k)) ?L
      = filter (\<lambda>l. fst l < int (a + k)) (filter (\<lambda>l. int a < fst l) ?L)" by (simp_all add: conj_commute)
  show ?thesis
  proof (cases "line_start F a")
    case True
    have "?l # filter (\<lambda>l. int a < fst l \<and> fst l < int (a + k)) ?L
        = filter (\<lambda>l. int a \<le> fst l \<and> fst l < int (a + k)) ?L"
      unfolding cut lines_from [OF assms(1,2) a True] using assms(5) by simp
    with W rest show ?thesis by simp
  next
    case False
    then have nb: "\<not> is_break layout ?l" using assms(6) by (simp add: is_break_def)
    have "records_of layout (phys_lines (int a) ?W) = records_of layout (filter (\<lambda>l. int a < fst l) (phys_lines (int a) ?W))"
      by (subst W) (simp add: group_run_records_of [symmetric] nb)
    then show ?thesis unfolding rest cut lines_from_fragment [OF False] .
  qed
qed

lemma stops_at_break_lines:
  assumes "F \<noteq> []" "is_term (last F)" "stops_at_break layout F q"
  shows "filter (\<lambda>l. int q \<le> fst l) (phys_lines 0 F) = []
       \<or> is_break layout (hd (filter (\<lambda>l. int q \<le> fst l) (phys_lines 0 F)))"
proof (cases "q = length F")
  case True
  then show ?thesis by (auto simp: filter_empty_conv phys_lines_positions line_positions_def)
next
  case False
  with assms(3) have "q < length F" "line_start F q" "Matches (line_head (drop q F)) (ml_BreakFields layout)"
    by (auto simp: stops_at_break_def)
  with lines_from [OF assms(1,2), of q] show ?thesis by (simp add: is_break_def)
qed

lemma stops_at_break_good: "stops_at_break layout F q \<Longrightarrow> 0 < q \<Longrightarrow> good_end F q"
  by (auto simp: stops_at_break_def good_end_def line_start_def)

lemma ml_chunk_delivers:
  assumes job: "padded_chunk store fl (int (length F)) N j" and type: "fr_DataType fl = DataTypeMultiLine"
    and N: "1 \<le> N" "int (length F) + N \<le> max_int64" "ml_MaxBytesPerRecord (fr_MultiLineLayout fl) \<le> N"
      "1 \<le> ml_MaxBytesPerRecord (fr_MultiLineLayout fl)"
    and F: "F \<noteq> []" "is_term (last F)" "readable (ml_MaxBytesPerRecord (fr_MultiLineLayout fl)) F"
    and store: "serves store F" and clean: "cuts_clean (fr_MultiLineLayout fl) N F"
  shows "delivered_ml F j = (None, filter (\<lambda>r. in_range (fst r) (owned_range j)) (object_records (fr_MultiLineLayout fl) F))"
proof -
  let ?n = "int (length F)" and ?lay = "fr_MultiLineLayout fl" and ?L = "phys_lines 0 F"
  let ?mx = "ml_MaxBytesPerRecord ?lay" and ?sep = "layout_separator ?lay"
  obtain S p ob where S: "0 \<le> S" "S < ?n" "S mod N = 0"
    and pad: "multiline_padding store ob ?lay ?n (min (S + N) ?n - 1) = Inr p"
    and j: "cj_StartByte j = S" "cj_EndByteInclusive j = wrap64 (min (S + N) ?n - 1 + p)"
      "cj_TrailingPaddingBytes j = p" "cj_MultiLineLayout j = ?lay" "cj_DataType j = fr_DataType fl"
    using job unfolding padded_chunk_def by (elim exE conjE) (rule that)
  define E where "E = min (S + N) ?n - 1"
  have E: "0 \<le> E" "E < ?n" "S \<le> E" "E + 1 < ?n \<longrightarrow> (E + 1) mod N = 0" using S N(1) by (auto simp: E_def)
  have p: "0 \<le> p \<and> E + p < ?n \<and> stops_at_break ?lay F (nat (E + p + 1))"
    using padding_stops [OF pad [folded E_def] E(1,2) _ N(4) store E(4) clean] N by simp
  define a k where "a = nat S" and "k = nat (E + p - S + 1)"
  have q: "a + k = nat (E + p + 1)" "0 < k" "a + k \<le> length F" "int a = S" "int (a + k) = E + p + 1"
    using p E S by (auto simp: a_def k_def)
  have stop: "stops_at_break ?lay F (a + k)" using p q(1) by simp
  note good = stops_at_break_good [OF stop] 
  have end_j: "cj_EndByteInclusive j = E + p" using j(2) p N E(1) by (simp add: E_def [symmetric] wrap64_nonneg)
  have owned: "owned_range j = (S, E)" using j(1,3) end_j E N by (simp add: owned_range_def wrap64_nonneg)
  let ?W = "window F a k"
  have W: "file_window F S (E + p) = ?W" by (simp add: file_window_def a_def k_def)
  have closed: "full_file F = F" using F by (simp add: full_file_def)
  have cl: "list_all (clean_line ?mx) (phys_lines 0 ?W)"
    using window_clean [of F ?mx a k 0] F(3) N(4) q good closed by (simp add: readable_def)
  have lenW: "length ?W = k" using q(3) by simp
  then have "?W \<noteq> []" using q(2) by auto
  moreover have "last ?W = F ! (a + k - 1)"
    using \<open>?W \<noteq> []\<close> lenW q nth_window [OF q(3), of "k - 1"] by (simp add: last_conv_nth)
  moreover have "is_term (F ! (a + k - 1))"
    using good q F by (auto simp: good_end_def last_conv_nth)
  ultimately have lastW: "?W = [] \<or> is_term (last ?W)" by simp
  have frag: "\<not> line_start F a \<longrightarrow> \<not> Matches (line_head (drop a F)) (ml_BreakFields ?lay)"
    using clean S q by (auto simp: cuts_clean_def a_def)
  let ?rs = "records_of ?lay (phys_lines 0 ?W)" and ?fn = "owned_only True j S (collect S)"
  have range: "chunkReadRange j = Inr (S, E + p)"
    using j(1,5) type end_j by (simp add: chunkReadRange_def DataTypeMultiLine_def DataTypeJSON_def DataTypeText_def)
  have "delivered_ml F j = ReadMultiLineLayout no_cancel ?W EOF ?lay ?fn []"
    by (simp add: delivered_ml_def range W read_multiline_def j(4) ReadMultiLineLayout_def)
  also have "\<dots> = map_prod (map_option CallbackError) id (run_callbacks ?fn (record_calls ?sep ?rs) 0 [])"
    by (rule ReadMultiLine_records [OF N(4) cl lastW])
  also have "run_callbacks ?fn (record_calls ?sep ?rs) 0 []
      = (None, [] @ filter (\<lambda>l. in_range (fst l) (cj_StartByte j, cj_EndByteInclusive j - cj_TrailingPaddingBytes j))
                 (map (\<lambda>l. (S + fst l, snd l)) (record_calls ?sep ?rs)))"
  proof (rule run_owned)
    show "\<forall>l\<in>set (record_calls ?sep ?rs). 0 \<le> S + fst l \<and> S + fst l \<le> max_int64"
    proof
      fix l assume "l \<in> set (record_calls ?sep ?rs)"
      then obtain r where "r \<in> set ?rs" "fst l = fst r" by (auto simp: record_calls_def)
      then have "fst l \<in> fst ` set (phys_lines 0 ?W)" using records_of_start_in by metis
      then have "0 \<le> fst l \<and> fst l < int k" using lenW by (auto simp: phys_lines_positions line_positions_def)
      then show "0 \<le> S + fst l \<and> S + fst l \<le> max_int64" using S q N by linarith
    qed
  qed (use end_j j(3) E N in auto)
  also have "map (\<lambda>l. (S + fst l, snd l)) (record_calls ?sep ?rs)
      = record_calls ?sep (records_of ?lay (phys_lines (S + 0) ?W))"
    by (simp only: record_calls_shift records_of_shift [symmetric] phys_lines_shift)
  also have "records_of ?lay (phys_lines (S + 0) ?W)
      = records_of ?lay (filter (\<lambda>l. S \<le> fst l \<and> fst l < E + p + 1) ?L)"
    using window_records [OF F(1,2) q(3) good q(2) frag] q(4,5) q(2) by simp
  also have "filter (\<lambda>l. in_range (fst l) (cj_StartByte j, cj_EndByteInclusive j - cj_TrailingPaddingBytes j))
        (record_calls ?sep (records_of ?lay (filter (\<lambda>l. S \<le> fst l \<and> fst l < E + p + 1) ?L)))
      = record_calls ?sep (filter (\<lambda>r. in_range (fst r) (S, E)) (records_of ?lay ?L))"
  proof -
    have stop': "filter (\<lambda>l. E + p + 1 \<le> fst l) ?L = [] \<or> is_break ?lay (hd (filter (\<lambda>l. E + p + 1 \<le> fst l) ?L))"
      using stops_at_break_lines [OF F(1,2) stop] q(5) by simp
    have "E < E + p + 1" using p by simp
    from records_cut [OF phys_lines_increasing this stop', of S] show ?thesis
      using end_j j(1,3) by (simp add: record_calls_filter [of "\<lambda>x. in_range x (S, E)"])
  qed
  finally show ?thesis
    by (simp add: owned object_records_def record_calls_filter [of "\<lambda>x. in_range x (S, E)"])
qed

subsection \<open>All chunks of a plan\<close>

lemma object_records_inside:
  "r \<in> set (object_records layout F) \<Longrightarrow> 0 \<le> fst r \<and> fst r < int (length F)"
proof -
  assume "r \<in> set (object_records layout F)"
  then obtain x where "x \<in> set (records_of layout (phys_lines 0 F))" "fst r = fst x"
    by (auto simp: object_records_def record_calls_def)
  then have "fst r \<in> fst ` set (phys_lines 0 F)" using records_of_start_in by metis
  then show ?thesis by (auto simp: phys_lines_positions line_positions_def)
qed

lemma object_records_increasing: "sorted_wrt (\<lambda>a b. fst a < fst b) (object_records layout F)"
  using records_of_increasing [OF phys_lines_increasing, of layout 0 F]
  by (simp add: object_records_def record_calls_def sorted_wrt_map case_prod_beta)


text \<open>Two records in three chunks; the third chunk starts inside the second record's line.\<close>

definition ml_object :: bytes where
  "ml_object = ''Hab'' @ [LF] @ ''Dc'' @ [LF] @ ''Hd'' @ [LF]"

definition ml_layout :: MultiLineLayout where
  "ml_layout = \<lparr>ml_BreakFields = [\<lparr>lm_StartByte = 0, lm_LengthBytes = 1, lm_Value = ''H''\<rparr>],
     ml_IncludeFields = [\<lparr>lm_StartByte = 0, lm_LengthBytes = 1, lm_Value = ''D''\<rparr>],
     ml_IgnoreFields = [\<lparr>lm_StartByte = 0, lm_LengthBytes = 1, lm_Value = ''T''\<rparr>],
     ml_LineSeparator = ''+'', ml_MaxBytesPerRecord = 4\<rparr>"

definition ml_request :: FileRequest where
  "ml_request = sample_request\<lparr>fr_DataType := DataTypeMultiLine, fr_MultiLineLayout := ml_layout\<rparr>"

definition ml_store :: ObjectStore where
  "ml_store = \<lparr>os_HeadObject = None, os_Head = (\<lambda>_ _. Inl []),
     os_GetRange = (\<lambda>_ a b. RangeBody (Inr (file_window ml_object a b)) None)\<rparr>"

definition ml_config :: Config where
  "ml_config = zero_Config\<lparr>cf_RecordsPerChunk := 1\<rparr>"

lemma ml_pads:
  "multiline_padding ml_store ob ml_layout 10 3 = Inr 3"
  "multiline_padding ml_store ob ml_layout 10 7 = Inr 2"
  "multiline_padding ml_store ob ml_layout 10 9 = Inr 0"
  by (simp_all add: multiline_padding_def ml_store_def) code_simp+

lemma ml_plan_runs: "\<exists>jobs. multiLineJobs (\<lambda>xs. xs) ml_store ml_config ml_request 10 ''e'' [] ''x'' = Inr jobs"
proof -
  have v: "validateMultiLineLayout (\<lambda>xs. xs) ml_layout = None" by code_simp
  have m: "maxChunkBytes ml_config = 67108864" by (simp add: maxChunkBytes_def ml_config_def zero_Config_def)
  have c: "cf_RecordsPerChunk ml_config = 1" by (simp add: ml_config_def)
  have "ml_MaxBytesPerRecord ml_layout = 4" by (simp add: ml_layout_def)
  then show ?thesis
    by (simp add: multiLineJobs_def ml_request_def v m c wrap64_nonneg max_int64_def numeral_eq_Suc [of "Num.Bit0 n" for n]
        eval_nat_numeral ml_pads)
qed


end
