(* ===== verification/JSON_Windows.thy ===== *)
theory JSON_Windows
  imports JSON_Scan
begin

section \<open>JSON objects in a part of a text\<close>

text \<open>
  What the search for elements finds in a window of a text, compared with what it finds in the
  whole text: an element is found exactly when the window holds all of it, once the search starts
  outside a string. The facts follow from the scanner: an object is decided by its own bytes.
\<close>

subsection \<open>Scanning a string\<close>

definition string_state :: "jstate \<Rightarrow> bool" where
  "string_state st \<longleftrightarrow> st = InString \<or> st = InEsc \<or> (\<exists>k. st = InHex k)"

text \<open>Inside a string the stack is only looked at when the string ends.\<close>

lemma string_step:
  assumes "string_state st"
  obtains (step) st' where "string_state st'" "\<And>stk. json_step st stk c = JNext st' stk"
    | (stop) "\<And>stk. json_step st stk c = value_end stk"
    | (error) "\<And>stk. json_step st stk c = JError"
proof -
  consider "st = InString" | "st = InEsc" | k where "st = InHex k" using assms by (auto simp: string_state_def)
  then show thesis
  proof cases
    case 1
    with that show thesis
      by (cases "c = CHR 0x22"; cases "c = CHR 0x5C"; cases "(of_char c :: nat) < 32") (auto simp: string_state_def)
  next
    case 2
    with that show thesis
      by (cases "c \<in> {CHR ''b'', CHR ''f'', CHR ''n'', CHR ''r'', CHR ''t'', CHR 0x5C, CHR ''/'', CHR 0x22}";
          cases "c = CHR ''u''") (auto simp: string_state_def)
  next
    case 3
    with that show thesis by (cases "hex_val c"; cases "k \<le> 1") (auto simp: string_state_def)
  qed
qed

lemma string_scan:
  assumes "string_state st" "json_scan st [] bs = Some n"
  shows "n \<le> length bs \<and> json_scan st [] (take n bs @ post) = Some n
    \<and> (stk \<noteq> [] \<longrightarrow> json_scan st stk (take n bs @ post) = map_option ((+) n) (json_scan EndValue stk post))"
  using assms
proof (induction bs arbitrary: st n)
  case Nil
  then show ?case by (auto simp: number_may_end_def string_state_def split: if_splits)
next
  case (Cons c cs)
  show ?case
  proof (cases rule: string_step [OF Cons.prems(1), where c = c, case_names step stop error])
    case (step st')
    with Cons.prems(2) obtain m where m: "json_scan st' [] cs = Some m" "n = Suc m" by auto
    from Cons.IH [OF step(1) m(1)] step(2) m(2) show ?thesis
      by (auto simp: option.map_comp o_def)
  next
    case stop
    with Cons.prems(2) have "n = 1" by (simp add: value_end_def)
    with stop show ?thesis by (auto simp: value_end_def option.map_comp o_def)
  next
    case error
    with Cons.prems(2) show ?thesis by simp
  qed
qed

lemma spaces_scan:
  assumes "list_all json_space sp" and "\<And>c. json_space c \<Longrightarrow> json_step st stk c = JNext st stk"
  shows "json_scan st stk (sp @ bs) = map_option ((+) (length sp)) (json_scan st stk bs)"
  using assms(1) by (induction sp) (cases "json_scan st stk bs"; simp add: assms(2))+

text \<open>A key at the head of a text, and what follows it.\<close>

lemma decode_key:
  assumes "hd p = CHR 0x22" "p \<noteq> []" "decode_length p = Some k"
  shows "2 \<le> k \<and> k \<le> length p \<and> decode_length (take k p @ post) = Some k
    \<and> (stk \<noteq> [] \<longrightarrow> json_scan InString stk (tl (take k p) @ post) = map_option ((+) (k - 1)) (json_scan EndValue stk post))"
proof -
  obtain r where p: "p = CHR 0x22 # r" using assms(1,2) by (cases p) auto
  have b: "json_step BeginValue [] (CHR 0x22) = JNext InString []"
    by (simp add: begin_value_def json_space_def)
  obtain n where n: "json_scan InString [] r = Some n" "k = Suc n"
    using assms(3) b by (auto simp: decode_length_def p simp del: json_step.simps)
  have "string_state InString" by (simp add: string_state_def)
  note s = string_scan [OF this n(1)]
  have "n \<noteq> 0"
  proof
    assume "n = 0"
    with s [of "[]" "[]"] show False by (simp add: number_may_end_def)
  qed
  with s [of post stk] n(2) b show ?thesis
    by (simp add: p decode_length_def del: json_step.simps)
qed

subsection \<open>Objects\<close>

text \<open>The head of an object with the first key \<open>name\<close>, up to the colon.\<close>

definition object_head :: "string \<Rightarrow> bytes \<Rightarrow> bool" where
  "object_head name h \<longleftrightarrow> (\<exists>sp1 str sp2. h = CHR ''{'' # sp1 @ str @ sp2 @ [CHR '':'']
     \<and> list_all json_space sp1 \<and> list_all json_space sp2 \<and> str \<noteq> [] \<and> hd str = CHR 0x22
     \<and> decode_length str = Some (length str) \<and> json_unquote (take (length str - 2) (tl str)) = name)"

lemma skip_space_split:
  obtains sp where "bs = sp @ skip_space bs" "list_all json_space sp"
  using that [of "takeWhile json_space bs"] by (auto simp: skip_space_def list_all_iff dest: set_takeWhileD)

lemma skip_space_append:
  "list_all json_space sp \<Longrightarrow> bs \<noteq> [] \<Longrightarrow> \<not> json_space (hd bs) \<Longrightarrow> skip_space (sp @ bs) = bs"
  by (cases bs) (induction sp; simp add: skip_space_def)+

lemma not_space [simp]: "\<not> json_space (CHR 0x22)" "\<not> json_space (CHR '':'')"
  by (simp_all add: json_space_def)

lemma object_at_head:
  assumes "object_at name (CHR ''{'' # y) = Some k"
  obtains h r where "CHR ''{'' # y = h @ r" "object_head name h"
proof -
  let ?p = "skip_space y"
  obtain kl where p: "?p \<noteq> []" "hd ?p = CHR 0x22" and kl: "decode_length ?p = Some kl"
    and name: "json_unquote (take (kl - 2) (tl ?p)) = name"
    and q: "skip_space (drop kl ?p) \<noteq> []" "hd (skip_space (drop kl ?p)) = CHR '':''"
    using assms by (auto simp: object_at_def Let_def split: if_splits option.splits)
  obtain sp1 where sp1: "y = sp1 @ ?p" "list_all json_space sp1" by (rule skip_space_split)
  obtain sp2 where sp2: "drop kl ?p = sp2 @ skip_space (drop kl ?p)" "list_all json_space sp2" by (rule skip_space_split)
  obtain r where r: "skip_space (drop kl ?p) = CHR '':'' # r" using q by (cases "skip_space (drop kl ?p)") auto
  have key: "2 \<le> kl" "kl \<le> length ?p" "decode_length (take kl ?p) = Some kl"
    using decode_key [OF p(2,1) kl, of "[]"] by simp_all
  have "?p = take kl ?p @ sp2 @ CHR '':'' # r" using sp2(1) r by (metis append_take_drop_id)
  with sp1(1) have "CHR ''{'' # y = (CHR ''{'' # sp1 @ take kl ?p @ sp2 @ [CHR '':'']) @ r" by simp
  moreover have "object_head name (CHR ''{'' # sp1 @ take kl ?p @ sp2 @ [CHR '':''])"
    unfolding object_head_def
    by (rule exI [of _ sp1], rule exI [of _ "take kl ?p"], rule exI [of _ sp2])
       (use sp1(2) sp2(2) key p name in \<open>auto simp: tl_take min_def take_tl [symmetric]\<close>)
  ultimately show thesis using that by blast
qed

text \<open>Behind such a head, the object is complete when the scanner says so.\<close>

lemma object_head_decides:
  assumes "object_head name h"
  shows "object_at name (h @ r) = decode_length (h @ r)"
proof -
  obtain sp1 str sp2 where h: "h = CHR ''{'' # sp1 @ str @ sp2 @ [CHR '':'']"
    and sp: "list_all json_space sp1" "list_all json_space sp2" and str: "str \<noteq> []" "hd str = CHR 0x22"
    and key: "decode_length str = Some (length str)" "json_unquote (take (length str - 2) (tl str)) = name"
    using assms by (auto simp: object_head_def)
  let ?p = "str @ sp2 @ CHR '':'' # r"
  have p: "skip_space (sp1 @ ?p) = ?p" using sp(1) str by (intro skip_space_append) auto
  have d: "decode_length ?p = Some (length str)" "2 \<le> length str"
    using decode_key [OF str(2,1) key(1), of "sp2 @ CHR '':'' # r"] by simp_all
  have q: "skip_space (drop (length str) ?p) = CHR '':'' # r"
    using sp(2) by (simp add: skip_space_append)
  have "take (length str - 2) (tl ?p) = take (length str - 2) (tl str)"
    using str(1) d(2) by (simp add: tl_append2)
  with p d q key(2) str show ?thesis by (simp add: object_at_def Let_def h)
qed

lemma object_head_length:
  assumes "object_head name h" "decode_length (h @ r) = Some k"
  shows "length h \<le> k"
proof -
  obtain sp1 str sp2 where h: "h = CHR ''{'' # sp1 @ str @ sp2 @ [CHR '':'']"
    and sp: "list_all json_space sp1" "list_all json_space sp2" and str: "str \<noteq> []" "hd str = CHR 0x22"
    and key: "decode_length str = Some (length str)"
    using assms(1) by (auto simp: object_head_def)
  let ?R = "sp2 @ CHR '':'' # r"
  obtain s where s: "str = CHR 0x22 # s" using str by (cases str) auto
  have b: "json_step BeginValue [] (CHR ''{'') = JNext BeginStringOrEmpty [ObjectKey]"
    by (simp add: begin_value_def json_space_def push_ctx_def)
  have q: "json_step BeginStringOrEmpty [ObjectKey] (CHR 0x22) = JNext InString [ObjectKey]"
    by (simp add: begin_string_def json_space_def)
  have c: "json_step EndValue [ObjectKey] (CHR '':'') = JNext BeginValue [ObjectValue]"
    by (simp add: json_space_def)
  have sp1: "json_scan BeginStringOrEmpty [ObjectKey] (sp1 @ bs)
      = map_option ((+) (length sp1)) (json_scan BeginStringOrEmpty [ObjectKey] bs)" for bs
    by (rule spaces_scan [OF sp(1)]) simp
  have sp2: "json_scan EndValue [ObjectKey] (sp2 @ bs)
      = map_option ((+) (length sp2)) (json_scan EndValue [ObjectKey] bs)" for bs
    by (rule spaces_scan [OF sp(2)]) simp
  have str_scan: "json_scan InString [ObjectKey] (s @ ?R) = map_option ((+) (length s)) (json_scan EndValue [ObjectKey] ?R)"
    using decode_key [OF str(2,1) key, of ?R "[ObjectKey]"] by (simp add: s)
  have "decode_length (h @ r) = map_option Suc (json_scan BeginStringOrEmpty [ObjectKey] (sp1 @ str @ ?R))"
    using b by (simp add: h decode_length_def del: json_step.simps)
  also have "\<dots> = map_option Suc (map_option ((+) (length sp1)) (map_option Suc (map_option ((+) (length s))
      (map_option ((+) (length sp2)) (map_option Suc (json_scan BeginValue [ObjectValue] r))))))"
    using q c by (simp add: sp1 s str_scan sp2 del: json_step.simps)
  finally show ?thesis using assms(2) by (auto simp: h s)
qed

lemma json_scan_take:
  "stk \<noteq> [] \<Longrightarrow> json_scan st stk bs = Some n \<Longrightarrow> n \<le> m \<Longrightarrow> json_scan st stk (take m bs) = Some n"
proof (induction st stk bs arbitrary: n m rule: json_scan.induct)
  case (2 st stk c cs)
  then show ?case
    using json_step_stack [of st stk c] json_step_not_before [of stk st c]
    by (cases m) (auto split: jstep.splits)
qed simp

lemma object_scan_take:
  assumes "decode_length (CHR ''{'' # bs) = Some n" "n \<le> Suc m"
  shows "decode_length (CHR ''{'' # take m bs) = Some n"
proof -
  have s: "json_step BeginValue [] (CHR ''{'') = JNext BeginStringOrEmpty [ObjectKey]"
    by (simp add: begin_value_def json_space_def push_ctx_def)
  from assms obtain k where "json_scan BeginStringOrEmpty [ObjectKey] bs = Some k" "n = Suc k"
    by (auto simp: decode_length_def s simp del: json_step.simps)
  with json_scan_take [of "[ObjectKey]" BeginStringOrEmpty bs k m] assms(2) show ?thesis
    by (simp add: decode_length_def s del: json_step.simps)
qed

text \<open>An object is found in a part of the text exactly when the part holds all of it.\<close>

lemma object_at_take:
  "object_at name (take m (CHR ''{'' # y))
    = (case object_at name (CHR ''{'' # y) of None \<Rightarrow> None | Some k \<Rightarrow> if k \<le> m then Some k else None)"
proof (cases m)
  case 0
  have "2 \<le> k" if "object_at name (CHR ''{'' # y) = Some k" for k
    using object_scan_append [OF object_at_scan [OF that], of "[]"] by simp
  with 0 show ?thesis by (auto simp: object_at_def skip_space_def split: option.splits)
next
  case (Suc m')
  let ?X = "CHR ''{'' # y" and ?T = "CHR ''{'' # take m' y"
  have up: "object_at name ?X = Some k \<and> k \<le> m" if t: "object_at name ?T = Some k" for k
  proof -
    obtain h r where hr: "?T = h @ r" "object_head name h" by (rule object_at_head [OF t])
    have "?X = ?T @ drop m' y" by simp
    then have X: "?X = h @ r @ drop m' y" using hr(1) by simp
    have "object_at name ?X = decode_length ?X" using object_head_decides [OF hr(2)] X by metis
    moreover have "decode_length ?X = Some k \<and> k \<le> Suc (length (take m' y))"
      using object_scan_append [OF object_at_scan [OF t], of "drop m' y"] by simp
    ultimately show ?thesis using Suc by (auto simp: min_def split: if_splits)
  qed
  have down: "object_at name ?T = Some k" if x: "object_at name ?X = Some k" and k: "k \<le> m" for k
  proof -
    obtain h r where hr: "?X = h @ r" "object_head name h" by (rule object_at_head [OF x])
    have "length h \<le> k" using object_head_length [OF hr(2)] object_at_scan [OF x] hr(1) by simp
    then have "take m ?X = h @ take (m - length h) r" using hr(1) k by simp
    moreover have "take m ?X = ?T" using Suc by simp
    ultimately have "object_at name ?T = decode_length ?T" using object_head_decides [OF hr(2)] by metis
    also have "\<dots> = Some k" using object_scan_take [OF object_at_scan [OF x]] k Suc by simp
    finally show ?thesis .
  qed
  show ?thesis
    using up down Suc by (cases "object_at name ?T"; cases "object_at name ?X") (auto split: if_splits)
qed

subsection \<open>The search for elements\<close>

lemma find_starts_at:
  "(s, e) \<in> set (find_starts name i str esc bs) \<Longrightarrow> object_at name (drop (s - i) bs) = Some (e - s)"
proof (induction name i str esc bs rule: find_starts.induct)
  case (2 name i inString escaped c cs)
  have later: "object_at name (drop (s - i) (c # cs)) = Some (e - s)"
    if "(s, e) \<in> set (find_starts name (Suc i) str esc cs)" "object_at name (drop (s - Suc i) cs) = Some (e - s)" for str esc
  proof -
    have "s - i = Suc (s - Suc i)" using find_starts_bounds [OF that(1)] by linarith
    with that(2) show ?thesis by simp
  qed
  show ?case
  proof (cases "inString \<or> c = CHR 0x22 \<or> c \<noteq> CHR ''{''")
    case True
    with "2.prems" "2.IH" later show ?thesis by (auto split: if_splits)
  next
    case False
    show ?thesis
    proof (cases "object_at name (c # cs)")
      case None
      with False "2.prems" "2.IH" later show ?thesis by auto
    next
      case (Some k)
      with False "2.prems" have "(s, e) = (i, i + k) \<or> (s, e) \<in> set (find_starts name (Suc i) False escaped cs)" by auto
      with False Some "2.IH" later show ?thesis by auto
    qed
  qed
qed simp

lemma find_starts_shift:
  "find_starts name (i + x) str esc bs = map (\<lambda>(s, e). (s + x, e + x)) (find_starts name i str esc bs)"
  by (induction name i str esc bs rule: find_starts.induct) (auto split: option.splits)

text \<open>Cutting the text at its end removes exactly the elements that are not complete.\<close>

lemma find_starts_take:
  "find_starts name i str esc (take m bs) = filter (\<lambda>(s, e). e \<le> i + m) (find_starts name i str esc bs)"
proof (induction name i str esc bs arbitrary: m rule: find_starts.induct)
  case (2 name i inString escaped c cs)
  show ?case
  proof (cases m)
    case 0
    have "i < e" if "(s, e) \<in> set (find_starts name i inString escaped (c # cs))" for s e
      using find_starts_bounds [OF that] by simp
    then have "filter (\<lambda>(s, e). e \<le> i) (find_starts name i inString escaped (c # cs)) = []"
      by (force simp: filter_empty_conv simp del: find_starts.simps(2))
    with 0 show ?thesis by (simp del: find_starts.simps(2))
  next
    case (Suc m')
    show ?thesis
    proof (cases "inString \<or> c = CHR 0x22 \<or> c \<noteq> CHR ''{''")
      case True
      with "2.IH" Suc show ?thesis by auto
    next
      case False
      then have "object_at name (c # take m' cs) = (case object_at name (c # cs) of None \<Rightarrow> None
          | Some k \<Rightarrow> if k \<le> m then Some k else None)"
        using object_at_take [of name m cs] Suc by simp
      with False "2.IH" Suc show ?thesis by (auto split: option.splits)
    qed
  qed
qed simp

text \<open>The search continues behind a prefix in the state the prefix leaves.\<close>

fun lex_state :: "bool \<times> bool \<Rightarrow> bytes \<Rightarrow> bool \<times> bool" where
  "lex_state q [] = q"
| "lex_state (str, esc) (c # cs) =
    lex_state (if str then (if esc then (True, False) else if c = CHR 0x5C then (True, True)
                            else if c = CHR 0x22 then (False, False) else (True, False))
               else (c = CHR 0x22, esc)) cs"

lemma lex_state_escaped: "(esc \<longrightarrow> str) \<Longrightarrow> snd (lex_state (str, esc) xs) \<longrightarrow> fst (lex_state (str, esc) xs)"
  by (induction xs arbitrary: str esc) auto

lemma find_starts_drop:
  "filter (\<lambda>(s, e). i + length xs \<le> s) (find_starts name i str esc (xs @ ys))
    = find_starts name (i + length xs) (fst (lex_state (str, esc) xs)) (snd (lex_state (str, esc) xs)) ys"
proof (induction xs arbitrary: i str esc)
  case Nil
  have "i \<le> s" if "(s, e) \<in> set (find_starts name i str esc ys)" for s e
    using find_starts_bounds [OF that] by simp
  then show ?case by (auto simp: filter_id_conv)
next
  case (Cons c xs)
  have IH: "filter (\<lambda>(s, e). Suc (i + length xs) \<le> s) (find_starts name (Suc i) str' esc' (xs @ ys))
      = find_starts name (Suc (i + length xs)) (fst (lex_state (str', esc') xs)) (snd (lex_state (str', esc') xs)) ys"
    for str' esc' using Cons.IH [of "Suc i" str' esc'] by simp
  show ?case by (auto simp: IH split: option.splits)
qed

text \<open>An element that the search reports is not inside a string: a search from there on agrees.\<close>

lemma find_starts_sync:
  assumes "p \<in> fst ` set (find_starts name 0 False False bs)"
  shows "find_starts name p False False (drop p bs) = filter (\<lambda>(s, e). p \<le> s) (find_starts name 0 False False bs)"
proof -
  obtain e where e: "(p, e) \<in> set (find_starts name 0 False False bs)" using assms by auto
  have p: "p < length bs" using find_starts_bounds [OF e] by simp
  let ?q = "lex_state (False, False) (take p bs)"
  have split: "filter (\<lambda>(s, e). p \<le> s) (find_starts name 0 False False bs) = find_starts name p (fst ?q) (snd ?q) (drop p bs)"
    using find_starts_drop [of 0 "take p bs" name False False "drop p bs"] p by simp
  have mem: "(p, e) \<in> set (find_starts name p (fst ?q) (snd ?q) (drop p bs))" using e unfolding split [symmetric] by simp
  have "\<not> fst ?q"
  proof
    assume str: "fst ?q"
    obtain c cs where c: "drop p bs = c # cs" using p by (cases "drop p bs") auto
    have "\<exists>s' e'. find_starts name p True (snd ?q) (c # cs) = find_starts name (Suc p) s' e' cs" by auto
    with mem str c obtain s' e' where "(p, e) \<in> set (find_starts name (Suc p) s' e' cs)" by auto
    from find_starts_bounds [OF this] show False by simp
  qed
  moreover from this have "\<not> snd ?q" using lex_state_escaped [of False False "take p bs"] by simp
  ultimately show ?thesis using split by simp
qed

end
