(* ===== verification/Worker_JSON.thy ===== *)
theory Worker_JSON
  imports Worker_Checks JSON_Windows
begin

section \<open>Every element of a JSON array, once\<close>

text \<open>
  The contract between planner and Worker for JSON objects. A chunk reads its range and one maximal
  element on both sides; the Worker drops the bytes before the first complete element and searches
  the rest. If no complete object with the agreed first key occurs inside a string of the text, the
  elements a chunk finds are exactly the elements of the text that lie in its window, so all chunks
  together deliver every element once. (The byte offsets are another matter, see \<open>Worker_Checks\<close>.)
\<close>

subsection \<open>Alignment\<close>

definition element_at :: "string \<Rightarrow> bytes \<Rightarrow> nat \<Rightarrow> bool" where
  "element_at name bs p \<longleftrightarrow> p < length bs \<and> bs ! p = CHR ''{'' \<and> object_at name (drop p bs) \<noteq> None"

lemma found_element_at: "(s, e) \<in> set (FindJSONObjectStarts bs name) \<Longrightarrow> element_at name bs s"
  using find_starts_bounds [of s e name 0 False False bs] find_starts_at [of s e name 0 False False bs]
  by (auto simp: element_at_def FindJSONObjectStarts_def)

text \<open>The first place where an object with the key starts, string or not.\<close>

lemma starts_with_element:
  "FindJSONObjectStarts (CHR ''{'' # cs) name \<noteq> [] \<and> fst (hd (FindJSONObjectStarts (CHR ''{'' # cs) name)) = 0
    \<longleftrightarrow> object_at name (CHR ''{'' # cs) \<noteq> None"
proof (cases "object_at name (CHR ''{'' # cs)")
  case None
  have "0 < fst x" if "x \<in> set (find_starts name (Suc 0) False False cs)" for x
    using find_starts_bounds [of "fst x" "snd x" name "Suc 0" False False cs] that by simp
  then have "FindJSONObjectStarts (CHR ''{'' # cs) name = [] \<or> 0 < fst (hd (FindJSONObjectStarts (CHR ''{'' # cs) name))"
    using None by (cases "find_starts name (Suc 0) False False cs") (auto simp: FindJSONObjectStarts_def)
  with None show ?thesis by auto
qed (simp add: FindJSONObjectStarts_def)

lemma align_from_first:
  "case align_from name off data of
     None \<Rightarrow> \<forall>p. \<not> element_at name data p
   | Some o' \<Rightarrow> \<exists>p. o' = off + p \<and> element_at name data p \<and> (\<forall>p'<p. \<not> element_at name data p')"
proof (induction name off data rule: align_from.induct)
  case (1 name off data)
  let ?rest = "dropWhile (\<lambda>c. c \<noteq> CHR ''{'') data" and ?pre = "takeWhile (\<lambda>c. c \<noteq> CHR ''{'') data"
  have data: "data = ?pre @ ?rest" by simp
  have total: "length data = length ?pre + length ?rest" by (metis length_append takeWhile_dropWhile_id)
  then have len: "length data - length ?rest = length ?pre" by simp
  have pre: "\<not> element_at name data p" if "p < length ?pre" for p
  proof -
    have "data ! p = ?pre ! p" using that by (metis takeWhile_nth)
    moreover have "?pre ! p \<noteq> CHR ''{''" using that by (metis (mono_tags, lifting) nth_mem set_takeWhileD)
    ultimately show ?thesis by (simp add: element_at_def)
  qed
  show ?case
  proof (cases "?rest = []")
    case True
    have "\<not> element_at name data p" for p
    proof (cases "p < length ?pre")
      case False
      then show ?thesis using total True by (simp add: element_at_def)
    qed (rule pre)
    with True show ?thesis by (simp add: align_from.simps [of name off data])
  next
    case False
    then have "hd ?rest = CHR ''{''" using hd_dropWhile [of "\<lambda>c. c \<noteq> CHR ''{''" data] by simp
    with False obtain cs where cs: "?rest = CHR ''{'' # cs" by (cases ?rest) auto
    have d: "drop (length ?pre) data = ?rest" by (metis append_eq_conv_conj data)
    have here: "element_at name data (length ?pre) \<longleftrightarrow> object_at name ?rest \<noteq> None"
    proof -
      have "data ! length ?pre = CHR ''{''" using cs by (metis data nth_append_length)
      moreover have "length ?pre < length data" using total cs by simp
      ultimately show ?thesis unfolding element_at_def d by simp
    qed
    show ?thesis
    proof (cases "object_at name ?rest")
      case None
      have after: "element_at name data (length ?pre + 1 + p) \<longleftrightarrow> element_at name cs p" for p
      proof -
        have "drop (length ?pre + 1 + p) data = drop (1 + p) (drop (length ?pre) data)"
          unfolding drop_drop by (simp add: add.commute add.left_commute)
        then have "drop (length ?pre + 1 + p) data = drop p cs" unfolding d cs by simp
        moreover have "length data = length ?pre + 1 + length cs" using total cs by simp
        moreover have "data ! (length ?pre + 1 + p) = cs ! p"
        proof -
          have "data ! (length ?pre + 1 + p) = (?pre @ ?rest) ! (length ?pre + (1 + p))" using data by (simp add: add.assoc)
          then show ?thesis unfolding nth_append_length_plus cs by simp
        qed
        ultimately show ?thesis by (simp add: element_at_def)
      qed
      have no: "\<not> (FindJSONObjectStarts ?rest name \<noteq> [] \<and> fst (hd (FindJSONObjectStarts ?rest name)) = 0)"
        using starts_with_element [of cs name] None unfolding cs by simp
      have step: "align_from name off data = align_from name (off + length ?pre + 1) cs"
        unfolding align_from.simps [of name off data] Let_def len if_not_P [OF False] if_not_P [OF no] by (simp add: cs)
      have ih: "case align_from name (off + length ?pre + 1) cs of
          None \<Rightarrow> \<forall>p. \<not> element_at name cs p
        | Some o' \<Rightarrow> \<exists>p. o' = off + length ?pre + 1 + p \<and> element_at name cs p \<and> (\<forall>p'<p. \<not> element_at name cs p')"
        using "1.IH" [OF refl refl refl False no, unfolded len, unfolded cs list.sel] .
      have below: "\<not> element_at name data p'" if "p' < length ?pre + 1 + p" "\<forall>q<p. \<not> element_at name cs q" for p p'
      proof (cases "p' \<le> length ?pre")
        case True
        with pre here None show ?thesis by (cases "p' = length ?pre") auto
      next
        case False
        with that after [of "p' - length ?pre - 1"] show ?thesis by simp
      qed
      show ?thesis
      proof (cases "align_from name (off + length ?pre + 1) cs")
        case none: None
        have "\<not> element_at name data p" for p
          using below [of p p] ih none by simp
        with step none show ?thesis by simp
      next
        case (Some o')
        with ih obtain p where p: "o' = off + length ?pre + 1 + p" "element_at name cs p" "\<forall>p'<p. \<not> element_at name cs p'"
          by auto
        have "element_at name data (length ?pre + 1 + p)" using after p(2) by simp
        with step Some p below [of _ p] show ?thesis
          by (intro option.case_eq_if [THEN iffD2]) (auto intro!: exI [of _ "length ?pre + 1 + p"])
      qed
    next
      case (Some k)
      have yes: "FindJSONObjectStarts ?rest name \<noteq> [] \<and> fst (hd (FindJSONObjectStarts ?rest name)) = 0"
        using starts_with_element [of cs name] Some unfolding cs by simp
      have "align_from name off data = Some (off + length ?pre)"
        unfolding align_from.simps [of name off data] Let_def len if_not_P [OF False] if_P [OF yes] by (rule refl)
      with pre here Some show ?thesis by auto
    qed
  qed
qed

subsection \<open>One chunk\<close>

text \<open>
  The contract with the producer: a complete object whose first key is \<open>name\<close> occurs nowhere but as
  an element the search over the whole text reports, in particular not inside a string.
\<close>

definition elements_only :: "string \<Rightarrow> bytes \<Rightarrow> bool" where
  "elements_only name F \<longleftrightarrow> (\<forall>p < length F. element_at name F p \<longrightarrow> p \<in> fst ` set (FindJSONObjectStarts F name))"

lemma element_at_window:
  assumes "a + k \<le> length F" "element_at name (window F a k) q"
  shows "element_at name F (a + q)"
proof -
  have q: "q < k" using assms by (simp add: element_at_def)
  have d: "drop q (window F a k) = take (k - q) (drop (a + q) F)" by (simp add: window_def drop_take add.commute)
  have "F ! (a + q) = CHR ''{''" using assms(2) nth_window [OF assms(1) q] by (simp add: element_at_def)
  moreover have lt: "a + q < length F" using q assms(1) by simp
  ultimately obtain y where y: "drop (a + q) F = CHR ''{'' # y" by (metis Cons_nth_drop_Suc)
  then show ?thesis
    using assms(2) lt \<open>F ! (a + q) = CHR ''{''\<close> object_at_take [of name "k - q" y]
    by (auto simp: element_at_def d split: option.splits)
qed

lemma element_in_window:
  assumes "(s, e) \<in> set (FindJSONObjectStarts F name)" "a \<le> s" "e \<le> a + k" "a + k \<le> length F"
  shows "element_at name (window F a k) (s - a)"
proof -
  have b: "s + 2 \<le> e" "F ! s = CHR ''{''" and o': "object_at name (drop s F) = Some (e - s)"
    using find_starts_bounds [of s e name 0 False False F] find_starts_at [of s e name 0 False False F] assms(1)
    by (simp_all add: FindJSONObjectStarts_def)
  have q: "s - a < k" "a + (s - a) = s" using b assms by auto
  have d: "drop (s - a) (window F a k) = take (k - (s - a)) (drop s F)" using assms(2) by (simp add: window_def drop_take)
  have lt: "s < length F" using b(1) assms(3,4) by linarith
  obtain y where y: "drop s F = CHR ''{'' # y" using b assms by (metis Cons_nth_drop_Suc lt)
  have "object_at name (take (k - (s - a)) (drop s F)) = Some (e - s)"
    using object_at_take [of name "k - (s - a)" y] o' assms(2,3) unfolding y by simp
  then show ?thesis
    using q nth_window [OF assms(4) q(1)] b(2) assms(4) by (simp add: element_at_def d)
qed

text \<open>What a chunk searches are the elements of the text that lie in its window.\<close>

lemma aligned_elements:
  assumes k: "a + k \<le> length F" and only: "elements_only name F" and small: "int (length F) \<le> max_int64"
    and al: "alignJSONRead (window F a k) (int a) name = (data, rs)"
  obtains off where "rs = int (a + off)" "data = drop off (window F a k)"
    "map (\<lambda>(s, e). (s + (a + off), e + (a + off))) (FindJSONObjectStarts data name)
      = filter (\<lambda>(s, e). a \<le> s \<and> e \<le> a + k) (FindJSONObjectStarts F name)"
proof (cases "align_from name 0 (window F a k)")
  case None
  have no: "\<not> element_at name (window F a k) p" for p
    using align_from_first [where name = name and off = 0 and data = "window F a k"] None by simp
  have "FindJSONObjectStarts (window F a k) name = []"
    using found_element_at no by (metis list.set_intros(1) neq_Nil_conv surj_pair)
  moreover have "filter (\<lambda>(s, e). a \<le> s \<and> e \<le> a + k) (FindJSONObjectStarts F name) = []"
    using element_in_window [where name = name, OF _ _ _ k] no by (force simp: filter_empty_conv)
  moreover have "data = window F a k" "rs = int a" using al None by (simp_all add: alignJSONRead_def)
  ultimately show thesis using that [of 0] by simp
next
  case (Some off)
  then have first: "element_at name (window F a k) off" "\<forall>p'<off. \<not> element_at name (window F a k) p'"
    using align_from_first [where name = name and off = 0 and data = "window F a k"] by auto
  let ?p = "a + off"
  have off: "off < k" using first(1) k by (simp add: element_at_def)
  have p: "?p \<in> fst ` set (FindJSONObjectStarts F name)"
    using element_at_window [OF k first(1)] only off k by (simp add: elements_only_def)
  have data: "data = drop off (window F a k)" and "rs = wrap64 (int a + int off)"
    using al Some by (simp_all add: alignJSONRead_def)
  then have rs: "rs = int ?p" using small off k by (simp add: wrap64_nonneg)
  have "data = take (k - off) (drop ?p F)" using data by (simp add: window_def drop_take add.commute)
  then have "FindJSONObjectStarts data name = filter (\<lambda>(s, e). e \<le> k - off) (find_starts name 0 False False (drop ?p F))"
    by (simp add: FindJSONObjectStarts_def find_starts_take)
  then have "map (\<lambda>(s, e). (s + ?p, e + ?p)) (FindJSONObjectStarts data name)
      = filter (\<lambda>(s, e). e \<le> a + k) (map (\<lambda>(s, e). (s + ?p, e + ?p)) (find_starts name 0 False False (drop ?p F)))"
    using off by (auto simp: filter_map o_def case_prod_beta intro!: filter_cong arg_cong [where f = "map _"])
  also have "map (\<lambda>(s, e). (s + ?p, e + ?p)) (find_starts name 0 False False (drop ?p F))
      = find_starts name (0 + ?p) False False (drop ?p F)"
    by (rule find_starts_shift [symmetric])
  also have "\<dots> = filter (\<lambda>(s, e). ?p \<le> s) (FindJSONObjectStarts F name)"
    using find_starts_sync [of ?p name F] p by (simp add: FindJSONObjectStarts_def)
  also have "filter (\<lambda>(s, e). e \<le> a + k) \<dots> = filter (\<lambda>(s, e). a \<le> s \<and> e \<le> a + k) (FindJSONObjectStarts F name)"
  proof -
    have "?p \<le> s" if "(s, e) \<in> set (FindJSONObjectStarts F name)" "a \<le> s" "e \<le> a + k" for s e
    proof (rule ccontr)
      assume "\<not> ?p \<le> s"
      then have "s - a < off" using that(2) by linarith
      with first(2) element_in_window [OF that k] show False by blast
    qed
    then show ?thesis by (auto simp: filter_filter intro!: filter_cong)
  qed
  finally show thesis using that [OF rs data] by blast
qed

text \<open>The text of an element, and the elements a chunk owns.\<close>

definition element_text :: "bytes \<Rightarrow> nat \<times> nat \<Rightarrow> bytes" where
  "element_text F el = take (snd el - fst el) (drop (fst el) F)"

lemma read_elements_texts:
  assumes "\<forall>el\<in>set els. 0 \<le> rs + int (fst el) \<and> rs + int (fst el) \<le> max_int64
      \<and> (in_range (rs + int (fst el)) (cj_StartByte j, cj_EndByteInclusive j) \<longrightarrow>
          int (snd el - fst el) \<le> ja_MaxBytesPerElement (cj_JSONArrayLayout j))"
  shows "\<exists>out. read_elements no_cancel j data rs it n els (\<lambda>n off raw s. (None, s @ [(f off, raw)])) s = (None, s @ out)
    \<and> map snd out = map (element_text data) (filter (\<lambda>el. in_range (rs + int (fst el)) (cj_StartByte j, cj_EndByteInclusive j)) els)"
  using assms
proof (induction els arbitrary: it n s)
  case (Cons el els)
  obtain a b where el: "el = (a, b)" by (cases el)
  have w: "wrap64 (rs + int a) = rs + int a" using Cons.prems el by (simp add: wrap64_nonneg)
  show ?case
  proof (cases "in_range (rs + int a) (cj_StartByte j, cj_EndByteInclusive j)")
    case True
    let ?x = "(f (wrap64 (rs + int a - rs)), take (b - a) (drop a data))"
    obtain out where "read_elements no_cancel j data rs (Suc it) (n + 1) els (\<lambda>n off raw s. (None, s @ [(f off, raw)])) (s @ [?x])
        = (None, (s @ [?x]) @ out)"
      "map snd out = map (element_text data) (filter (\<lambda>el. in_range (rs + int (fst el)) (cj_StartByte j, cj_EndByteInclusive j)) els)"
      using Cons.IH [of "Suc it" "n + 1" "s @ [?x]"] Cons.prems by auto
    with True w el Cons.prems show ?thesis
      by (intro exI [of _ "?x # out"]) (simp add: no_cancel_def [abs_def] in_range_def element_text_def Let_def)
  next
    case False
    obtain out where "read_elements no_cancel j data rs (Suc it) n els (\<lambda>n off raw s. (None, s @ [(f off, raw)])) s = (None, s @ out)"
      "map snd out = map (element_text data) (filter (\<lambda>el. in_range (rs + int (fst el)) (cj_StartByte j, cj_EndByteInclusive j)) els)"
      using Cons.IH [of "Suc it" n s] Cons.prems by auto
    with False w el show ?thesis
      by (intro exI [of _ out]) (auto simp: no_cancel_def [abs_def] in_range_def Let_def)
  qed
qed simp

definition json_job :: "bytes \<Rightarrow> JSONArrayLayout \<Rightarrow> ChunkJob \<Rightarrow> bool" where
  "json_job F layout j \<longleftrightarrow> cj_DataType j = DataTypeJSON \<and> cj_FileSize j = int (length F) \<and> cj_JSONArrayLayout j = layout
     \<and> 0 \<le> cj_StartByte j \<and> cj_StartByte j \<le> cj_EndByteInclusive j \<and> cj_EndByteInclusive j < int (length F)
     \<and> cj_TrailingPaddingBytes j = 0"

lemma json_chunk_delivers:
  assumes job: "json_job F layout j" and only: "elements_only (ja_FirstFieldName layout) F"
    and M: "1 \<le> ja_MaxBytesPerElement layout" "int (length F) + ja_MaxBytesPerElement layout \<le> max_int64"
    and fits: "\<forall>el\<in>set (FindJSONObjectStarts F (ja_FirstFieldName layout)). int (snd el - fst el) \<le> ja_MaxBytesPerElement layout"
  shows "fst (json_records F j) = None
    \<and> map snd (snd (json_records F j))
      = map (element_text F) (filter (\<lambda>el. in_range (int (fst el)) (cj_StartByte j, cj_EndByteInclusive j))
                               (FindJSONObjectStarts F (ja_FirstFieldName layout)))"
proof -
  let ?n = "int (length F)" and ?m = "ja_MaxBytesPerElement layout" and ?name = "ja_FirstFieldName layout"
  let ?S = "cj_StartByte j" and ?E = "cj_EndByteInclusive j" and ?es = "FindJSONObjectStarts F ?name"
  define A B where "A = max 0 (?S - ?m)" and "B = min (?E + ?m) (?n - 1)"
  have J: "0 \<le> ?S" "?S \<le> ?E" "?E < ?n" "cj_DataType j = DataTypeJSON" "cj_FileSize j = ?n" "cj_JSONArrayLayout j = layout"
    using job by (auto simp: json_job_def)
  have w: "wrap64 (?S - ?m) = ?S - ?m" "wrap64 (?E + ?m) = ?E + ?m"
    using J M by (auto intro!: wrap64_id simp: in_int64_def min_int64_def max_int64_def)
  have range: "chunkReadRange j = Inr (A, B)"
    using J M w by (auto simp: chunkReadRange_def clamp_window_def Let_def A_def B_def max_def min_def)
  define a k where "a = nat A" and "k = nat (B - A + 1)"
  have k: "a + k \<le> length F" "int a = A" "int (a + k) = B + 1"
    using J M by (auto simp: a_def k_def A_def B_def)
  have W: "file_window F A B = window F a k" by (simp add: file_window_def a_def k_def)
  obtain data rs where al: "alignJSONRead (window F a k) (int a) ?name = (data, rs)" by (cases "alignJSONRead (window F a k) (int a) ?name")
  have small: "?n \<le> max_int64" using M by simp
  obtain off where off: "rs = int (a + off)" "data = drop off (window F a k)"
    and els: "map (\<lambda>(s, e). (s + (a + off), e + (a + off))) (FindJSONObjectStarts data ?name)
      = filter (\<lambda>(s, e). a \<le> s \<and> e \<le> a + k) ?es"
    by (rule aligned_elements [OF k(1) only small al])
  let ?p = "a + off" and ?els = "FindJSONObjectStarts data ?name"
  have known: "(fst el + ?p, snd el + ?p) \<in> set ?es \<and> a \<le> fst el + ?p \<and> snd el + ?p \<le> a + k" if "el \<in> set ?els" for el
  proof -
    have "(fst el + ?p, snd el + ?p) \<in> set (map (\<lambda>(s, e). (s + ?p, e + ?p)) ?els)" using that by force
    then show ?thesis unfolding els by auto
  qed
  have same: "element_text data el = element_text F (fst el + ?p, snd el + ?p)" if "el \<in> set ?els" for el
  proof -
    have "snd el - fst el \<le> k - (off + fst el)" using known [OF that] by linarith
    then show ?thesis
      by (simp add: element_text_def off(2) window_def drop_take min_absorb1 add_ac)
  qed
  have ok: "\<forall>el\<in>set ?els. 0 \<le> rs + int (fst el) \<and> rs + int (fst el) \<le> max_int64
      \<and> (in_range (rs + int (fst el)) (?S, ?E) \<longrightarrow> int (snd el - fst el) \<le> ja_MaxBytesPerElement (cj_JSONArrayLayout j))"
  proof
    fix el assume el: "el \<in> set ?els"
    have "int (snd el - fst el) \<le> ?m" using fits known [OF el] by fastforce
    moreover have "fst el + ?p \<le> length F"
      using found_element_at [of "fst el + ?p" "snd el + ?p" F ?name] known [OF el] by (simp add: element_at_def)
    ultimately show "0 \<le> rs + int (fst el) \<and> rs + int (fst el) \<le> max_int64
      \<and> (in_range (rs + int (fst el)) (?S, ?E) \<longrightarrow> int (snd el - fst el) \<le> ja_MaxBytesPerElement (cj_JSONArrayLayout j))"
      using small J(6) off(1) by auto
  qed
  obtain out where out: "read_elements no_cancel j data rs 0 0 ?els (\<lambda>n off raw s. (None, s @ [(record_offset j A off, raw)])) []
      = (None, [] @ out)"
    "map snd out = map (element_text data) (filter (\<lambda>el. in_range (rs + int (fst el)) (?S, ?E)) ?els)"
    using read_elements_texts [OF ok, of data 0 0 "record_offset j A" "[]"] by blast
  have "json_records F j = (None, out)"
    using out(1) al k(2) J(6) by (simp add: json_records_def range W readJSONArray_def Let_def)
  moreover have "map snd out = map (element_text F) (filter (\<lambda>el. in_range (int (fst el)) (?S, ?E)) (map (\<lambda>(s, e). (s + ?p, e + ?p)) ?els))"
    unfolding out(2) filter_map map_map
    by (intro map_cong filter_cong) (auto simp: off(1) o_def case_prod_beta same add_ac)
  moreover have "filter (\<lambda>el. in_range (int (fst el)) (?S, ?E)) (filter (\<lambda>(s, e). a \<le> s \<and> e \<le> a + k) ?es)
      = filter (\<lambda>el. in_range (int (fst el)) (?S, ?E)) ?es"
  proof -
    have "a \<le> fst el \<and> snd el \<le> a + k" if "el \<in> set ?es" "in_range (int (fst el)) (?S, ?E)" for el
    proof -
      obtain s e where el: "el = (s, e)" by (cases el)
      have "s + 2 \<le> e" "e \<le> length F" "int (e - s) \<le> ?m"
        using find_starts_bounds [of s e ?name 0 False False F] that(1) fits el by (auto simp: FindJSONObjectStarts_def)
      with that(2) el k(2,3) J(1-3) M show ?thesis by (auto simp: in_range_def A_def B_def)
    qed
    then show ?thesis by (auto simp: case_prod_beta intro!: filter_cong)
  qed
  ultimately show ?thesis unfolding els by simp
qed

subsection \<open>All chunks of a plan\<close>

lemma json_loop_job:
  assumes "json_loop fuel fl n etag ver ex N start ch = Inr jobs"
    and N: "1 \<le> N" "n + N \<le> max_int64" and "0 \<le> start" "start \<le> n" and "j \<in> set jobs"
  shows "cj_DataType j = fr_DataType fl \<and> cj_FileSize j = n \<and> cj_JSONArrayLayout j = fr_JSONArrayLayout fl
    \<and> cj_TrailingPaddingBytes j = 0 \<and> 0 \<le> cj_StartByte j \<and> cj_StartByte j \<le> cj_EndByteInclusive j
    \<and> cj_EndByteInclusive j < n"
  using assms(1,4-6)
proof (induction fuel arbitrary: start ch jobs)
  case (Suc fuel)
  show ?case
  proof (cases "start < n")
    case True
    let ?E = "min (start + N) n - 1"
    have w: "wrap64 (?E + 1) = min (start + N) n" using N Suc.prems(2) True by (simp add: wrap64_nonneg)
    obtain js where js: "json_loop fuel fl n etag ver ex N (min (start + N) n) (ch + 1) = Inr js"
      and jobs: "jobs = mk_job fl n etag ver ex ch start ?E (ja_MaxBytesPerElement (fr_JSONArrayLayout fl))
          \<lparr>cj_JSONArrayLayout := fr_JSONArrayLayout fl\<rparr> # js"
      using Suc.prems(1) True unfolding json_loop.simps Let_def owned_end [OF N(1) Suc.prems(2) True N(2)] w
      by (auto split: sum.splits)
    show ?thesis
    proof (cases "j \<in> set js")
      case True
      have "0 \<le> min (start + N) n" "min (start + N) n \<le> n" using N(1) Suc.prems(2,3) by auto
      with True show ?thesis by (intro Suc.IH [OF js])
    next
      case False
      with Suc.prems(4) jobs have "j = mk_job fl n etag ver ex ch start ?E (ja_MaxBytesPerElement (fr_JSONArrayLayout fl))
          \<lparr>cj_JSONArrayLayout := fr_JSONArrayLayout fl\<rparr>" by simp
      with True Suc.prems(2) N(1) show ?thesis by (simp add: mk_job_def zero_records)
    qed
  qed (use Suc.prems in simp)
qed simp

text \<open>
  C3. Planner and Worker together publish every element of a JSON array exactly once and in order:
  for an object whose elements fit \<^verbatim>\<open>maxBytesPerElement\<close> and in which a complete object with the
  agreed first key occurs nowhere but as an element, planned by \<^verbatim>\<open>jsonArrayJobs\<close>, no chunk fails, and
  the contents delivered by the chunks, one chunk after the other, are the texts of the elements.
\<close>

theorem json_chunks_deliver_every_element_once:
  assumes plan: "jsonArrayJobs cfg fl (int (length object)) etag ver ex = Inr jobs"
    and size: "int (length object) \<le> max_object_size" "sane_config cfg"
    and type: "fr_DataType fl = DataTypeJSON"
    and only: "elements_only (ja_FirstFieldName (fr_JSONArrayLayout fl)) object"
    and fits: "\<forall>el\<in>set (FindJSONObjectStarts object (ja_FirstFieldName (fr_JSONArrayLayout fl))).
      int (snd el - fst el) \<le> ja_MaxBytesPerElement (fr_JSONArrayLayout fl)"
  shows "(\<forall>j\<in>set jobs. fst (json_records object j) = None)
    \<and> concat (map (\<lambda>j. map snd (snd (json_records object j))) jobs)
      = map (element_text object) (FindJSONObjectStarts object (ja_FirstFieldName (fr_JSONArrayLayout fl)))"
proof -
  let ?n = "int (length object)" and ?lay = "fr_JSONArrayLayout fl"
  let ?es = "FindJSONObjectStarts object (ja_FirstFieldName ?lay)"
  let ?N = "wrap64 (cf_RecordsPerChunk cfg * ja_MaxBytesPerElement ?lay)"
  have l: "json_loop (Suc (nat ?n)) fl ?n etag ver ex ?N 0 1 = Inr jobs" and n: "0 < ?n"
    and N: "1 \<le> ?N" "?N \<le> maxChunkBytes cfg" "ja_MaxBytesPerElement ?lay \<le> ?N" "1 \<le> ja_MaxBytesPerElement ?lay"
    using plan by (auto simp: jsonArrayJobs_def Let_def simp del: json_loop.simps split: if_splits)
  note sum = sane_sum [OF size(2,1) N(2)]
  have job: "json_job object ?lay j" if "j \<in> set jobs" for j
    using json_loop_job [OF l N(1) sum _ _ that] n type by (simp add: json_job_def)
  have owned: "owned_range j = (cj_StartByte j, cj_EndByteInclusive j)" if "j \<in> set jobs" for j
    using job [OF that] sum N(1) by (simp add: json_job_def owned_range_def wrap64_nonneg)
  have each: "fst (json_records object j) = None \<and> map snd (snd (json_records object j))
      = map (element_text object) (filter (\<lambda>el. in_range (int (fst el)) (owned_range j)) ?es)" if "j \<in> set jobs" for j
    unfolding owned [OF that] using sum N(3) by (intro json_chunk_delivers [OF job [OF that] only N(4) _ fits]) simp
  have "tiles 0 ?n (map owned_range jobs)"
    using json_loop_tiles [OF l N(1) sum] by simp
  moreover have "sorted_wrt (\<lambda>x y. int (fst x) < int (fst y)) ?es"
    using find_starts_increasing [of "ja_FirstFieldName ?lay" 0 False False object] by (simp add: FindJSONObjectStarts_def)
  moreover have "\<forall>el\<in>set ?es. 0 \<le> int (fst el) \<and> int (fst el) < ?n"
    using found_element_at [of _ _ object "ja_FirstFieldName ?lay"] by (force simp: element_at_def)
  ultimately have "concat (map (\<lambda>r. filter (\<lambda>el. in_range (int (fst el)) r) ?es) (map owned_range jobs)) = ?es"
    by (rule tiles_partition)
  then have "concat (map (\<lambda>j. filter (\<lambda>el. in_range (int (fst el)) (owned_range j)) ?es) jobs) = ?es" by (simp add: o_def)
  then have "map (element_text object) (concat (map (\<lambda>j. filter (\<lambda>el. in_range (int (fst el)) (owned_range j)) ?es) jobs))
      = map (element_text object) ?es" by simp
  with each show ?thesis by (simp add: map_concat o_def cong: map_cong)
qed

theorem json_chunks_deliver_every_element_once_witness:
  "concat (map (\<lambda>j. map snd (snd (json_records json_object_text j)))
       [json_chunk 1 0 9, json_chunk 2 10 19, json_chunk 3 20 29, json_chunk 4 30 34])
     = [''{\"a\":1}'', ''{\"a\":123}'', ''{\"a\":2}'', ''{\"a\":3}'']"
proof -
  have len: "int (length json_object_text) = 35" by (simp add: json_object_text_def)
  have lay: "fr_DataType json_request = DataTypeJSON" "ja_FirstFieldName (fr_JSONArrayLayout json_request) = ''a''"
    "ja_MaxBytesPerElement (fr_JSONArrayLayout json_request) = 10" by (simp_all add: json_request_def)
  have es: "FindJSONObjectStarts json_object_text ''a'' = [(1, 8), (9, 18), (19, 26), (27, 34)]" by code_simp
  have "\<forall>p\<in>set [0..<35]. element_at ''a'' json_object_text p \<longrightarrow> p \<in> set [1, 9, 19, 27]" by code_simp
  then have only: "elements_only (ja_FirstFieldName (fr_JSONArrayLayout json_request)) json_object_text"
    using len by (auto simp: elements_only_def lay es)
  have plan: "jsonArrayJobs (zero_Config\<lparr>cf_RecordsPerChunk := 1\<rparr>) json_request (int (length json_object_text)) ''e'' [] ''x''
      = Inr [json_chunk 1 0 9, json_chunk 2 10 19, json_chunk 3 20 29, json_chunk 4 30 34]"
    unfolding len by (rule json_jobs)
  have texts: "map (element_text json_object_text) [(1, 8), (9, 18), (19, 26), (27, 34)]
      = [''{\"a\":1}'', ''{\"a\":123}'', ''{\"a\":2}'', ''{\"a\":3}'']" by code_simp
  have "sane_config (zero_Config\<lparr>cf_RecordsPerChunk := 1\<rparr>)" by (simp add: sane_config_def zero_Config_def)
  from json_chunks_deliver_every_element_once [OF plan _ this lay(1) only] show ?thesis
    using texts by (simp add: len lay es max_object_size_def)
qed

end
