(* ===== verification/Process_Start.thy ===== *)
theory Process_Start
  imports Organizer_Handler Worker_Handler
begin

section \<open>The start of a process, and its deadline\<close>

text \<open>
  What both Lambdas do before the first message: \<^verbatim>\<open>runtimeclock.ConfigureLocalTimezone\<close>, \<^verbatim>\<open>config.Load\<close>,
  \<^verbatim>\<open>aws.New\<close> and their wiring; and the instant at which the Worker stops its work. The loader of the
  SDK's configuration and the clients built from it are arguments; logging is left out.
\<close>

subsection \<open>The time zone of the process\<close>

datatype timezone_error = TimezoneFormat string | TimezoneInvalid string

text \<open>A fixed zone: its name and its offset in seconds; \<open>None\<close> keeps the zone of the system.\<close>

type_synonym fixed_zone = "string \<times> int"

definition timezone_shape :: "string \<Rightarrow> bool" where
  "timezone_shape offset \<longleftrightarrow>
     length offset = 6 \<and> (offset ! 0 = CHR ''+'' \<or> offset ! 0 = CHR ''-'') \<and> offset ! 3 = CHR '':''"

definition timezone_seconds :: "string \<Rightarrow> timezone_error + int" where
  "timezone_seconds offset =
    (case (parsed_ok (ParseInt (take 2 (drop 1 offset))), parsed_ok (ParseInt (take 2 (drop 4 offset)))) of
       (Some hours, Some minutes) \<Rightarrow>
         if hours > 14 \<or> minutes > 59 then Inl (TimezoneInvalid offset)
         else let seconds = hours * 60 * 60 + minutes * 60
              in Inr (if offset ! 0 = CHR ''-'' then - seconds else seconds)
     | _ \<Rightarrow> Inl (TimezoneInvalid offset))"

definition ConfigureLocalTimezone :: "(string \<Rightarrow> string) \<Rightarrow> timezone_error + fixed_zone option" where
  "ConfigureLocalTimezone env =
    (let offset = env ''F2E_TIMEZONE_OFFSET'' in
     if offset = [] then Inr None
     else if \<not> timezone_shape offset then Inl (TimezoneFormat offset)
     else map_sum id (\<lambda>seconds. Some (offset, seconds)) (timezone_seconds offset))"

text \<open>The offset a deployment writes: a sign, two digits, a colon, two digits.\<close>

definition render_offset :: "bool \<Rightarrow> nat \<Rightarrow> nat \<Rightarrow> string" where
  "render_offset west h m = (if west then CHR ''-'' else CHR ''+'') # format_pad 2 (int h) @ '':'' @ format_pad 2 (int m)"

lemma digit_pair_value:
  assumes "a < 10" "b < 10"
  shows "parsed_ok (ParseInt [digit_char a, digit_char b]) = Some (int (10 * a + b))"
proof -
  have d: "Process_Config.is_digit (digit_char a)" "Process_Config.is_digit (digit_char b)" using assms by (simp_all only: Process_Config.is_digit_def of_digit_char) simp_all
  have "scan_digits 0 [digit_char a, digit_char b] = Digits (10 * a + b)" using assms d by simp
  then show ?thesis
    using digit_not_sign [OF d(1)] assms by (simp add: ParseInt_def parse_digits_def max_int64_def)
qed

lemma two_digits:
  assumes "n < 60"
  shows "format_pad 2 (int n) = [digit_char (n div 10), digit_char (n mod 10)]"
proof (cases "n < 10")
  case True
  then show ?thesis by (simp add: format_pad_def format_int_def dec_nat.simps [of n] Let_def)
next
  case False
  moreover have "n div 10 < 10" using assms by simp
  ultimately show ?thesis
    by (simp add: format_pad_def format_int_def dec_nat.simps [of n] dec_nat.simps [of "n div 10"] Let_def)
qed

text \<open>A well-formed offset is read back as its value.\<close>

lemma timezone_reads_back:
  assumes "env ''F2E_TIMEZONE_OFFSET'' = render_offset west h m" "h \<le> 14" "m \<le> 59"
  shows "ConfigureLocalTimezone env
    = Inr (Some (render_offset west h m, (if west then - 1 else 1) * (3600 * int h + 60 * int m)))"
proof -
  have pair: "parsed_ok (ParseInt [digit_char (n div 10), digit_char (n mod 10)]) = Some (int n)" if "n < 60" for n
    using digit_pair_value [of "n div 10" "n mod 10"] that by simp
  have "h < 60" "m < 60" using assms(2,3) by simp_all
  then show ?thesis
    using assms pair [of h] pair [of m]
    by (simp add: ConfigureLocalTimezone_def render_offset_def two_digits timezone_shape_def timezone_seconds_def Let_def)
qed

text \<open>
  The two parts may carry a sign of their own, which the documented form excludes: \<^verbatim>\<open>strconv.Atoi\<close> accepts
  it, and only the upper bounds are checked. The offset stays bounded.
\<close>

lemma signed_parts_are_accepted:
  "ConfigureLocalTimezone (\<lambda>_. ''+-9:-9'') = Inr (Some (''+-9:-9'', - 32940))"
proof -
  have d: "Process_Config.is_digit (CHR ''9'')" by code_simp
  have "parsed_ok (ParseInt ''-9'') = Some (- 9)"
    using d by (simp add: ParseInt_def parse_digits_def min_int64_def)
  then show ?thesis
    by (simp add: ConfigureLocalTimezone_def timezone_shape_def timezone_seconds_def Let_def)
qed

lemma short_number: "length s = 2 \<Longrightarrow> parsed_ok (ParseInt s) = Some n \<Longrightarrow> - 9 \<le> n"
proof -
  assume "length s = 2"
  then obtain a b where s: "s = [a, b]" by (auto simp: length_Suc_conv numeral_2_eq_2)
  assume "parsed_ok (ParseInt s) = Some n"
  moreover have "Process_Config.is_digit b \<Longrightarrow> of_char b \<le> (57 :: nat)" unfolding Process_Config.is_digit_def by (rule conjunct2)
  ultimately show ?thesis
    by (auto simp: s ParseInt_def parse_digits_def split: if_splits digits_result.splits)
qed

lemma timezone_bounded:
  assumes "ConfigureLocalTimezone env = Inr (Some (name, seconds))"
  shows "\<bar>seconds\<bar> \<le> 53940"
proof -
  let ?o = "env ''F2E_TIMEZONE_OFFSET''"
  have shape: "length ?o = 6" and secs: "timezone_seconds ?o = Inr seconds"
    using assms by (auto simp: ConfigureLocalTimezone_def timezone_shape_def Let_def split: if_splits sum.splits)
       (cases "timezone_seconds ?o"; simp)+
  obtain h m where p: "parsed_ok (ParseInt (take 2 (drop 1 ?o))) = Some h" "parsed_ok (ParseInt (take 2 (drop 4 ?o))) = Some m"
    and b: "h \<le> 14" "m \<le> 59" "seconds = h * 60 * 60 + m * 60 \<or> seconds = - (h * 60 * 60 + m * 60)"
    using secs by (auto simp: timezone_seconds_def Let_def split: option.splits if_splits)
  have "- 9 \<le> h" "- 9 \<le> m" using short_number [OF _ p(1)] short_number [OF _ p(2)] shape by simp_all
  with b show ?thesis by auto
qed

subsection \<open>The clients\<close>

text \<open>The options \<^verbatim>\<open>New\<close> hands to the loader of the SDK: an endpoint brings static credentials with it.\<close>

record load_options =
  lo_Region :: string
  lo_StaticCredentials :: "(string \<times> string \<times> string) option"
  lo_BaseEndpoint :: "string option"

definition load_options_of :: "Config \<Rightarrow> load_options" where
  "load_options_of c =
    \<lparr>lo_Region = cf_Region c,
     lo_StaticCredentials = (if cf_Endpoint c \<noteq> [] then Some (''test'', ''test'', []) else None),
     lo_BaseEndpoint = (if cf_Endpoint c \<noteq> [] then Some (cf_Endpoint c) else None)\<rparr>"

text \<open>\<^verbatim>\<open>type AWS\<close>; \<open>'k\<close> is the configuration of the SDK, the S3 client has a flag for path-style addresses.\<close>

record 'k aws_clients =
  ac_S3 :: "'k \<times> bool"
  ac_SQS :: 'k
  ac_DynamoDB :: 'k
  ac_SSM :: 'k
  ac_FileConfigPath :: string
  ac_GlobalLimitsParameter :: string
  ac_LedgerTable :: string
  ac_MaxReceiveCount :: int
  ac_LedgerRetentionDays :: int

definition New :: "(load_options \<Rightarrow> string + 'k) \<Rightarrow> Config \<Rightarrow> string + 'k aws_clients" where
  "New load c =
    (case load (load_options_of c) of
       Inl e \<Rightarrow> Inl e
     | Inr cfg \<Rightarrow> Inr \<lparr>ac_S3 = (cfg, True), ac_SQS = cfg, ac_DynamoDB = cfg, ac_SSM = cfg,
                      ac_FileConfigPath = cf_FileConfigPath c, ac_GlobalLimitsParameter = cf_GlobalLimitsParameter c,
                      ac_LedgerTable = cf_LedgerTable c, ac_MaxReceiveCount = cf_MaxReceiveCount c,
                      ac_LedgerRetentionDays = cf_LedgerRetentionDays c\<rparr>)"

text \<open>The part of the clients the ledger of theory \<open>Ledger\<close> works with, and the instants it prints and parses.\<close>

definition ledger_client :: "(int \<Rightarrow> string) \<Rightarrow> (string \<Rightarrow> int option) \<Rightarrow> 'k aws_clients \<Rightarrow> AWS" where
  "ledger_client fmt parse a =
    \<lparr>aws_LedgerTable = ac_LedgerTable a, aws_MaxReceiveCount = ac_MaxReceiveCount a,
     aws_LedgerRetentionDays = ac_LedgerRetentionDays a, aws_format = fmt, aws_parse = parse\<rparr>"

subsection \<open>The two processes\<close>

datatype start_error =
    TimezoneFailed timezone_error
  | LoadFailed load_error
  | ClientsFailed string
  | OrganizerInitFailed init_error

text \<open>The three steps both \<^verbatim>\<open>init\<close> functions begin with.\<close>

definition start_process ::
  "(string \<Rightarrow> string) \<Rightarrow> (load_options \<Rightarrow> string + 'k) \<Rightarrow> start_error + fixed_zone option \<times> Config \<times> 'k aws_clients" where
  "start_process env load =
    (case ConfigureLocalTimezone env of
       Inl e \<Rightarrow> Inl (TimezoneFailed e)
     | Inr zone \<Rightarrow>
         (case Load env of
            Inl e \<Rightarrow> Inl (LoadFailed e)
          | Inr c \<Rightarrow> (case New load c of Inl e \<Rightarrow> Inl (ClientsFailed e) | Inr a \<Rightarrow> Inr (zone, c, a))))"

text \<open>
  \<^verbatim>\<open>init\<close> of the Worker: the service is \<open>wired\<close>. \<open>ports\<close> makes the other ports of the Worker from the
  clients, \<open>db\<close> the table service.
\<close>

definition init_worker ::
  "(string \<Rightarrow> string) \<Rightarrow> (load_options \<Rightarrow> string + 'k) \<Rightarrow> ('k \<Rightarrow> 'w dynamo) \<Rightarrow> ('k aws_clients \<Rightarrow> 'w worker_ports)
    \<Rightarrow> (ledger_fault \<Rightarrow> string) \<Rightarrow> (int \<Rightarrow> string) \<Rightarrow> (string \<Rightarrow> int option)
    \<Rightarrow> start_error + Config \<times> 'w worker_ports" where
  "init_worker env load db ports render fmt parse =
    (case start_process env load of
       Inl e \<Rightarrow> Inl e
     | Inr (zone, c, a) \<Rightarrow> Inr (c, wired (ledger_client fmt parse a) (db (ac_DynamoDB a)) render c (ports a)))"

text \<open>\<^verbatim>\<open>init\<close> of the Organizer; theory \<open>Organizer_Handler\<close> holds what follows the clients.\<close>

definition start_organizer ::
  "(string \<Rightarrow> string) \<Rightarrow> (load_options \<Rightarrow> string + 'k) \<Rightarrow> ('k \<Rightarrow> string \<Rightarrow> 'w \<Rightarrow> 'w \<times> (string + GlobalLimits parameter))
    \<Rightarrow> ('k aws_clients \<Rightarrow> 'w organizer_env) \<Rightarrow> 'w \<Rightarrow> 'w \<times> (start_error + 'w organizer_env)" where
  "start_organizer env load getParameter base w =
    (case start_process env load of
       Inl e \<Rightarrow> (w, Inl e)
     | Inr (zone, c, a) \<Rightarrow> map_prod id (map_sum OrganizerInitFailed id) (init_organizer env (getParameter (ac_SSM a)) (base a) w))"

text \<open>A started Worker counts the attempts and keeps the items its configuration says, in its table.\<close>

lemma started_worker:
  assumes "init_worker env load db ports render fmt parse = Inr (c, p)"
  shows "Load env = Inr c
    \<and> (\<exists>a k. aws_LedgerTable a = cf_LedgerTable c \<and> aws_MaxReceiveCount a = cf_MaxReceiveCount c
         \<and> aws_LedgerRetentionDays a = cf_LedgerRetentionDays c \<and> load (load_options_of c) = Inr k
         \<and> wp_CompletionLedger p = Some (completion_ports a (db k) render)
         \<and> wp_Ledger p = (if cf_LedgerTable c \<noteq> [] then Some (ledger_ports a (db k) render) else None))"
proof -
  obtain k r where k: "Load env = Inr c" "load (load_options_of c) = Inr k"
    and p: "p = wired \<lparr>aws_LedgerTable = cf_LedgerTable c, aws_MaxReceiveCount = cf_MaxReceiveCount c,
      aws_LedgerRetentionDays = cf_LedgerRetentionDays c, aws_format = fmt, aws_parse = parse\<rparr> (db k) render c r"
    using assms by (auto simp: init_worker_def start_process_def New_def ledger_client_def split: sum.splits)
  show ?thesis
    unfolding p
    by (rule conjI [OF k(1)], rule exI [of _ "\<lparr>aws_LedgerTable = cf_LedgerTable c, aws_MaxReceiveCount = cf_MaxReceiveCount c,
      aws_LedgerRetentionDays = cf_LedgerRetentionDays c, aws_format = fmt, aws_parse = parse\<rparr>"], rule exI [of _ k])
       (simp add: wired_def k(2))
qed

text \<open>Neither process starts with an offset that is not bounded, and a bad offset stops both before any request.\<close>

lemma bad_offset_stops_organizer:
  "ConfigureLocalTimezone env = Inl e \<Longrightarrow> start_organizer env load getParameter base w = (w, Inl (TimezoneFailed e))"
  by (simp add: start_organizer_def start_process_def)

subsection \<open>The deadline of an invocation\<close>

text \<open>Instants and durations in nanoseconds, as \<^verbatim>\<open>time\<close> has them.\<close>

definition second_ns :: int where "second_ns = 1000000000"
definition lambdaMaximumExecution :: int where "lambdaMaximumExecution = 15 * 60 * second_ns"
definition shutdownReservation :: int where "shutdownReservation = 5 * second_ns"

definition shutdown_at :: "int \<Rightarrow> int option \<Rightarrow> int" where
  "shutdown_at now deadline =
    (let shutdownAt = now + (lambdaMaximumExecution - shutdownReservation) in
     case deadline of
       None \<Rightarrow> shutdownAt
     | Some d \<Rightarrow> (let d' = d + (- shutdownReservation) in if d' < shutdownAt then d' else shutdownAt))"

text \<open>The time \<^verbatim>\<open>ProcessAttempt\<close> allows for recording a failure after its context was cancelled.\<close>

definition failureTimeout :: int where "failureTimeout = 3 * second_ns"

text \<open>
  The record of an interrupted chunk is written before the Lambda ends: it is started at the
  shutdown instant, may take its whole time, and two seconds of the invocation are left.
\<close>

lemma failure_is_recorded_in_time:
  "shutdown_at now (Some deadline) + failureTimeout + 2 * second_ns \<le> deadline"
  "shutdown_at now deadline' + failureTimeout + 2 * second_ns \<le> now + lambdaMaximumExecution"
  by (auto simp: shutdown_at_def Let_def failureTimeout_def shutdownReservation_def second_ns_def split: option.splits)

end
