(* ===== verification/Spec2Isabelle.thy ===== *)
theory Spec2Isabelle
  imports Planner_Guarantees Worker_Text Worker_Counts Worker_Checks Client Ledger_Behaviour Worker_Handler
    Prefix_Config S3_Event Organizer_Ledger Ledger_Query Fixed_File Worker_Multi Worker_JSON Process_Start
begin

text \<open>
  A verification library for F2E, a pipeline that turns files in S3 into events in SQS.

  The program. The Organizer Lambda (\<^verbatim>\<open>cmd/organizer\<close>, \<^verbatim>\<open>internal/application/organizer\<close>) gets a request
  or an S3 notification, resolves the configuration of the object's prefix, plans the byte ranges
  (chunks) of the file, writes the plan to the job ledger and sends one SQS message per chunk. The
  Worker Lambda (\<^verbatim>\<open>cmd/worker\<close>, \<^verbatim>\<open>internal/application/worker\<close>) takes such a message, reads the range,
  cuts it into records, wraps every record into an envelope, sends the envelopes in batches, alone
  or packed into bundles, and closes the chunk in the ledger. The ledger (\<^verbatim>\<open>internal/platform/aws\<close>)
  is a DynamoDB table that all Lambdas write with conditional requests; the Worker that closes the
  last chunk finishes the job and sends the completion event.

  Shared material.
  \<^item> \<open>F2E_Prelude\<close>: Go's integers, as \<open>int\<close> with \<open>wrap64\<close> written out, slices, prefixes.
  \<^item> \<open>Go_Std\<close>: what the program computes with the standard library: decimal formatting, SHA-256
    on words, hexadecimal, UTF-8 and the string encoder of \<^verbatim>\<open>encoding/json\<close>.
  \<^item> \<open>Systems\<close>: invariants of step relations. \<open>Tiling\<close>: byte ranges that tile an object.
  \<^item> \<open>Messages\<close>: the records of \<^verbatim>\<open>messages.go\<close> and \<^verbatim>\<open>ports.go\<close>, the size rule of messages.
  \<^item> \<open>Job_States\<close>: \<^verbatim>\<open>states.go\<close>, \<^verbatim>\<open>ledger.go\<close> and \<^verbatim>\<open>completion.go\<close> of the domain: identities, the two
    transition tables, counters, the completion event.

  The Organizer.
  \<^item> \<open>Process_Config\<close>: \<^verbatim>\<open>config.Load\<close>, every variable, default and bound.
  \<^item> \<open>Prefix_Config\<close>: the choice of the most specific prefix configuration over all pages.
  \<^item> \<open>S3_Event\<close>: notifications and the decoding of keys. \<open>Validation\<close>: \<^verbatim>\<open>validate.go\<close>.
  \<^item> \<open>Planner\<close>: \<^verbatim>\<open>Plan\<close> and \<^verbatim>\<open>PlanWithSummary\<close> for text, JSON and multi-line objects;
    \<open>Planner_Props\<close> proves that the chunks of each planner tile the object, \<open>Planner_Guarantees\<close> joins
    them behind the dispatch of \<^verbatim>\<open>Plan\<close> and proves that planning ends.
  \<^item> \<open>Publisher\<close>, \<open>Publisher_Ledger\<close>: \<^verbatim>\<open>Publish\<close> and \<^verbatim>\<open>Replay\<close> over the locale
    \<open>checkpointed_queue\<close>, and its interpretation on the ledger. \<open>Table_Relations\<close>: relations on tables
    that the Organizer's ledger methods respect.
  \<^item> \<open>Organizer_Handler\<close>: \<^verbatim>\<open>cmd/organizer/main.go\<close>, from the batch of messages to published chunks.
    \<open>Organizer_Props\<close>: the locale \<open>organizer_contract\<close>, which joins admission, manifest and queue, and
    what the jobs of a notification and of a request say; \<open>Organizer_Ledger\<close> proves the contract of
    the ledger and that an acknowledged message has all its chunks in the queues.

  The Worker.
  \<^item> \<open>Line_IO\<close>, \<open>Multi_Line\<close>, \<open>JSON_Scan\<close>: the readers of \<^verbatim>\<open>internal/domain\<close>, and the scanner of
    \<^verbatim>\<open>encoding/json\<close> that the JSON reader drives.
  \<^item> \<open>Packer\<close>: the bundle packer. \<open>Sender\<close>: the retry loop, and the goroutines of the concurrent
    sender as a step relation over all interleavings.
  \<^item> \<open>Worker\<close>: from the message to the completion event. \<open>Worker_Text\<close>, \<open>Worker_Multi\<close>, \<open>Worker_JSON\<close>:
    the lines of a text object, the records of a multi-line object and the elements of a JSON array are
    delivered once and in order by the chunks the planner makes. Each theorem names what the object must
    satisfy for that; where it does not, chunks fail or records are wrong (\<open>Worker_Text\<close>, \<open>Worker_Checks\<close>).
    \<open>JSON_Windows\<close>: which objects of a document a window of it shows.
  \<^item> \<open>Worker_Counts\<close>: the counters balance. \<open>Worker_Checks\<close>: where the planner's chunks meet the
    Worker's validation and the packer.
  \<^item> \<open>Worker_Handler\<close>: the Lambda handler on the ledger, an end-to-end statement.
  \<^item> \<open>Process_Start\<close>: the \<^verbatim>\<open>init\<close> of both Lambdas (time zone, configuration, clients, wiring) and the
    instant at which the Worker stops its work.

  The platform.
  \<^item> \<open>Client\<close>: S3 ranges pinned to a version, SQS batches, the classification of errors.
  \<^item> \<open>Dynamo\<close>: a table of items with conditional writes, transactions and paged queries. What the
    program relies on is the contract \<open>dynamo_contract\<close>: a request that answers success was applied
    atomically when its condition held, a request that fails was applied then or not at all, and
    other processes may take their own steps between any two requests.
  \<^item> \<open>Ledger\<close>: the methods of \<^verbatim>\<open>ledger.go\<close>, each with the requests it sends. \<open>Ledger_Steps\<close>: the
    requests as the step relation \<open>ledger_step\<close> and the refinement of the methods to it;
    \<open>Ledger_Invariants\<close>: counters are the tallies of the chunks, a finished job has its intent, its
    status and result never change; \<open>Ledger_Props\<close> and \<open>Ledger_Behaviour\<close>: properties of the methods;
    \<open>Ledger_Status\<close>: the state machine the table really follows, against the declared one.
  \<^item> \<open>Ledger_Query\<close>: the operational queries and the command \<^verbatim>\<open>query-job\<close>, and what the status index holds.
  \<^item> \<open>Fixed_File\<close>: the command \<^verbatim>\<open>generate-fixed-file\<close> with the buffered writer under it, and that the
    line reader finds in its file what it promised to write.

  Conventions. A Go error is a value of a sum or option type. A port is a record of functions on
  the state \<open>'w\<close> of the world, so every theorem quantifies over all answers, failures and
  interleavings; the interpretations give concrete ports. The object store is a function of the
  world: during one planning it does not change, between the calls of the ledger it may. The clients of AWS, \<^verbatim>\<open>json.Unmarshal\<close> and
  \<^verbatim>\<open>json.Marshal\<close> are arguments. A stored JSON document is represented by the value it encodes.

  Fuel. The planning loops of multi-line and JSON objects get \<open>size + 1\<close> steps; \<open>nominal_loop_enough\<close>
  shows that this is enough when the arithmetic does not overflow, and running out is an error of
  its own. The loops over the pages of a query take the number of pages, and going on longer is an
  error value. The retry loops have three attempts in the code. All other recursion terminates
  by itself.

  Not modelled. Logging; CPU, garbage collector and throughput metrics (floating point);
  the clock (a cancelled context is an argument where the code tests it, and what the zone of the
  process does to printed instants is part of the formatting argument); the jitter of the retry
  delay; deletions by the time-to-live of the table. The counters of the ledger are
  unbounded integers, since DynamoDB's numbers are. \<^verbatim>\<open>sort.Slice\<close> is modelled as a stable sort. The
  end-to-end harness under \<^verbatim>\<open>e2e\<close> and the packager under \<^verbatim>\<open>automacao\<close> produce load, compress files and
  print reports; they hold no logic of the pipeline.
\<close>

end
